(* ===== verification/Prelude.thy ===== *)
theory Prelude
  imports Main "HOL-Library.Word"
begin

text \<open>
  Shared vocabulary of the development: the Go integers, Go's zero-valued map
  read, the iteration order of a Go map, and the generic lemmas on lists, maps and
  folds that the component theories use.

  A Go \<open>int\<close> or \<open>int64\<close> is an \<open>int\<close> whose arithmetic is
  wrapped explicitly by \<open>wrap64\<close> wherever the source can leave the 64-bit
  range; a \<open>uint64\<close> is a \<open>64 word\<close>.  Operations guarded by a Go
  mutex are atomic, so each is one function on the state; a history of concurrent
  calls is a list of such operations in the order of their critical sections.
\<close>

named_theorems inv_rules
named_theorems frame_simps

subsection \<open>Signed 64-bit integers\<close>

definition max_int64 :: int where
  "max_int64 = 9223372036854775807"

definition min_int64 :: int where
  "min_int64 = - 9223372036854775808"

definition wrap64 :: "int \<Rightarrow> int" where
  "wrap64 x = (x + 9223372036854775808) mod 18446744073709551616 - 9223372036854775808"

definition in_int64 :: "int \<Rightarrow> bool" where
  "in_int64 x \<longleftrightarrow> min_int64 \<le> x \<and> x \<le> max_int64"

lemma wrap64_id: "in_int64 x \<Longrightarrow> wrap64 x = x"
  by (simp add: wrap64_def in_int64_def min_int64_def max_int64_def)

lemma wrap64_range: "in_int64 (wrap64 x)"
  unfolding in_int64_def wrap64_def min_int64_def max_int64_def
  using pos_mod_bound [of 18446744073709551616 "x + 9223372036854775808"]
    pos_mod_sign [of 18446744073709551616 "x + 9223372036854775808"] by linarith

lemma wrap64_Suc: "0 \<le> n \<Longrightarrow> n < max_int64 \<Longrightarrow> wrap64 (n + 1) = n + 1"
  by (rule wrap64_id) (simp add: in_int64_def min_int64_def max_int64_def)

subsection \<open>Go maps\<close>

text \<open>
  Reading an absent key of a Go map gives the zero value of the element type.
  Ranging over a map visits each key once, in an order the language leaves open; an
  \<open>iteration order\<close> is a function from maps to key lists, and
  \<open>orders iter m\<close> says that it lists the keys of \<open>m\<close>.
\<close>

definition map_get :: "'v \<Rightarrow> ('k \<rightharpoonup> 'v) \<Rightarrow> 'k \<Rightarrow> 'v" where
  "map_get z m k = (case m k of None \<Rightarrow> z | Some v \<Rightarrow> v)"

lemma map_get_simps [simp]:
  "map_get z (m(k \<mapsto> v)) j = (if j = k then v else map_get z m j)"
  "map_get z (m(k := None)) j = (if j = k then z else map_get z m j)"
  "map_get z Map.empty j = z"
  by (simp_all add: map_get_def)

type_synonym ('k, 'v) map_order = "('k \<rightharpoonup> 'v) \<Rightarrow> 'k list"

definition orders :: "('k, 'v) map_order \<Rightarrow> ('k \<rightharpoonup> 'v) \<Rightarrow> bool" where
  "orders iter m \<longleftrightarrow> distinct (iter m) \<and> set (iter m) = dom m"

lemma orders_finite: "orders iter m \<Longrightarrow> finite (dom m)"
  unfolding orders_def using List.finite_set by metis

lemma card_dom_delete:
  "finite (dom m) \<Longrightarrow> m k = Some v \<Longrightarrow> card (dom (m(k := None))) + 1 = card (dom m)"
  by (metis Suc_eq_plus1 card.remove domI dom_fun_upd)

lemma card_dom_insert:
  "finite (dom m) \<Longrightarrow> m k = None \<Longrightarrow> card (dom (m(k \<mapsto> v))) = card (dom m) + 1"
  by (simp add: domIff)

lemma card_dom_overwrite: "m k = Some u \<Longrightarrow> card (dom (m(k \<mapsto> v))) = card (dom m)"
  by (simp add: domI insert_absorb)

lemma map_delete_le [simp]: "m(k := None) \<subseteq>\<^sub>m m"
  by (simp add: map_le_def)

text \<open>A log entry is a level, a message and the field that names a file or a cause.\<close>

type_synonym log_entry = "string \<times> string \<times> string"

subsection \<open>Running a sequence of operations\<close>

text \<open>
  \<open>run_all step s ops\<close> performs the operations in order, threading the state,
  and collects what each returned.
\<close>

fun run_all :: "('s \<Rightarrow> 'o \<Rightarrow> 'r \<times> 's) \<Rightarrow> 's \<Rightarrow> 'o list \<Rightarrow> 'r list \<times> 's" where
  "run_all step s [] = ([], s)"
| "run_all step s (x # xs) =
     (let (r, s') = step s x; (rs, t) = run_all step s' xs in (r # rs, t))"

lemma run_all_append:
  "run_all step s (xs @ ys) =
     (let (rs, t) = run_all step s xs; (us, u) = run_all step t ys in (rs @ us, u))"
  by (induction xs arbitrary: s) (auto simp: Let_def split: prod.splits)

lemma run_all_Cons:
  "run_all step s (x # xs) =
     (fst (step s x) # fst (run_all step (snd (step s x)) xs), snd (run_all step (snd (step s x)) xs))"
  by (simp add: Let_def split: prod.splits)

lemma run_all_invariant:
  assumes "\<And>s x. Q x \<Longrightarrow> P s \<Longrightarrow> P (snd (step s x))" and "P s" and "list_all Q xs"
  shows "P (snd (run_all step s xs))"
  using assms(2,3)
  by (induction xs arbitrary: s) (simp_all add: run_all_Cons assms(1) del: run_all.simps(2))

text \<open>
  A step function that simulates another one under an abstraction function runs to
  the abstraction of the other's run, with the same results.
\<close>

lemma run_all_refines:
  assumes sim: "\<And>s x. Q x \<Longrightarrow> I s \<Longrightarrow>
      fst (step s x) = fst (spec (alpha s) x) \<and> alpha (snd (step s x)) = snd (spec (alpha s) x)
        \<and> I (snd (step s x))"
    and "I s" and "list_all Q xs"
  shows "fst (run_all step s xs) = fst (run_all spec (alpha s) xs) \<and>
    alpha (snd (run_all step s xs)) = snd (run_all spec (alpha s) xs) \<and> I (snd (run_all step s xs))"
  using assms(2,3)
proof (induction xs arbitrary: s)
  case Nil
  then show ?case by simp
next
  case (Cons x xs)
  then have "Q x" "I s" "list_all Q xs" by auto
  with sim [of x s] Cons.IH [of "snd (step s x)"] show ?case
    by (simp add: run_all_Cons del: run_all.simps(2))
qed

end
