(* ===== verification/LimitMap.thy ===== *)
theory LimitMap
  imports Prelude
begin

text \<open>
  Package \<open>limitmap\<close> (src/limitmap/limitmap.go): a counter per key with a limit
  given at each increment.  The state is the Go map \<open>lmap\<close>; absent keys count
  as zero.  The contract of the package is the locale \<open>limiter\<close>: a client sees
  only \<open>Inc\<close>, \<open>Dec\<close> and \<open>Value\<close>, and the locale's lemmas say that a
  history of calls behaves like bounded counters.  \<open>LimitMap\<close> is shown to meet
  the contract at the end.
\<close>

record 'k limit_map =
  lmap :: "'k \<rightharpoonup> int"

definition New :: "'k limit_map" where
  "New = \<lparr>lmap = Map.empty\<rparr>"

definition Inc :: "'k limit_map \<Rightarrow> 'k \<Rightarrow> int \<Rightarrow> bool \<times> 'k limit_map" where
  "Inc s key limit =
     (let n = map_get 0 (lmap s) key; n' = wrap64 (n + 1)
      in if n' > limit then (False, s) else (True, s\<lparr>lmap := (lmap s)(key \<mapsto> n')\<rparr>))"

definition Dec :: "'k limit_map \<Rightarrow> 'k \<Rightarrow> int \<times> 'k limit_map" where
  "Dec s key =
     (let n = map_get 0 (lmap s) key; n' = (if n > 0 then n - 1 else n)
      in (n', if n' = 0 then s\<lparr>lmap := (lmap s)(key := None)\<rparr>
              else s\<lparr>lmap := (lmap s)(key \<mapsto> n')\<rparr>))"

definition Value :: "'k limit_map \<Rightarrow> 'k \<Rightarrow> int" where
  "Value s key = map_get 0 (lmap s) key"

text \<open>
  The representation invariant: only positive counters below the largest \<open>int\<close>
  are stored, so a key that is not counted takes no memory.
\<close>

definition lm_inv :: "'k limit_map \<Rightarrow> bool" where
  "lm_inv s \<longleftrightarrow> (\<forall>k n. lmap s k = Some n \<longrightarrow> 0 < n \<and> n < max_int64)"

subsection \<open>The contract\<close>

datatype 'k limit_op = IncOp 'k int | DecOp 'k

fun limit_step ::
  "('s \<Rightarrow> 'k \<Rightarrow> int \<Rightarrow> bool \<times> 's) \<Rightarrow> ('s \<Rightarrow> 'k \<Rightarrow> int \<times> 's) \<Rightarrow> 's \<Rightarrow> 'k limit_op \<Rightarrow> int \<times> 's" where
  "limit_step inc dec s (IncOp k l) = (case inc s k l of (b, s') \<Rightarrow> (if b then 1 else 0, s'))"
| "limit_step inc dec s (DecOp k) = dec s k"

text \<open>The specification: a function from keys to counts, with saturating operations.\<close>

fun spec_step :: "('k \<Rightarrow> nat) \<Rightarrow> 'k limit_op \<Rightarrow> int \<times> ('k \<Rightarrow> nat)" where
  "spec_step f (IncOp k l) = (if int (f k) < l then (1, f(k := Suc (f k))) else (0, f))"
| "spec_step f (DecOp k) = (int (f k - 1), f(k := f k - 1))"

fun op_below :: "int \<Rightarrow> 'k limit_op \<Rightarrow> bool" where
  "op_below m (IncOp k l) = (l < m)"
| "op_below m (DecOp k) = True"

fun op_keeps :: "'k \<Rightarrow> int \<Rightarrow> 'k limit_op \<Rightarrow> bool" where
  "op_keeps k m (IncOp j l) = (j = k \<longrightarrow> l \<le> m)"
| "op_keeps k m (DecOp j) = True"

locale limiter =
  fixes inc :: "'s \<Rightarrow> 'k \<Rightarrow> int \<Rightarrow> bool \<times> 's"
    and dec :: "'s \<Rightarrow> 'k \<Rightarrow> int \<times> 's"
    and count :: "'s \<Rightarrow> 'k \<Rightarrow> int"
    and inv :: "'s \<Rightarrow> bool"
    and top :: int
  assumes count_nonneg: "inv s \<Longrightarrow> 0 \<le> count s k"
    and inc_granted: "inv s \<Longrightarrow> l < top \<Longrightarrow> fst (inc s k l) = (count s k < l)"
    and count_inc: "inv s \<Longrightarrow> l < top \<Longrightarrow>
      count (snd (inc s k l)) j = (if j = k \<and> count s k < l then count s k + 1 else count s j)"
    and dec_result: "inv s \<Longrightarrow> fst (dec s k) = max 0 (count s k - 1)"
    and count_dec: "inv s \<Longrightarrow> count (snd (dec s k)) j = (if j = k then max 0 (count s k - 1) else count s j)"
    and inv_inc: "inv s \<Longrightarrow> l < top \<Longrightarrow> inv (snd (inc s k l))"
    and inv_dec: "inv s \<Longrightarrow> inv (snd (dec s k))"
begin

definition counts :: "'s \<Rightarrow> 'k \<Rightarrow> nat" where
  "counts s k = nat (count s k)"

lemma step_simulates:
  assumes "op_below top x" and "inv s"
  shows "fst (limit_step inc dec s x) = fst (spec_step (counts s) x) \<and>
    counts (snd (limit_step inc dec s x)) = snd (spec_step (counts s) x) \<and>
    inv (snd (limit_step inc dec s x))"
proof (cases x)
  case (IncOp k l)
  with assms have "l < top" by simp
  note facts = inc_granted [OF assms(2) this, of k] count_inc [OF assms(2) this, of k]
    inv_inc [OF assms(2) this, of k] count_nonneg [OF assms(2)]
  show ?thesis
    using facts IncOp by (cases "inc s k l") (auto simp: counts_def fun_eq_iff nat_add_distrib)
next
  case (DecOp k)
  then show ?thesis
    using dec_result [OF assms(2), of k] count_dec [OF assms(2), of k] inv_dec [OF assms(2), of k]
      count_nonneg [OF assms(2), of k]
    by (auto simp: counts_def fun_eq_iff max_def nat_diff_distrib)
qed

lemma history_refines:
  assumes "inv s" and "list_all (op_below top) xs"
  shows "fst (run_all (limit_step inc dec) s xs) = fst (run_all spec_step (counts s) xs) \<and>
    counts (snd (run_all (limit_step inc dec) s xs)) = snd (run_all spec_step (counts s) xs) \<and>
    inv (snd (run_all (limit_step inc dec) s xs))"
  using step_simulates assms
  by (intro run_all_refines [where Q = "op_below top" and I = inv and alpha = counts]) blast+

lemma history_bounded:
  assumes "inv s" and "count s k \<le> m" and "0 \<le> m"
    and "list_all (\<lambda>x. op_below top x \<and> op_keeps k m x) xs"
  shows "count (snd (run_all (limit_step inc dec) s xs)) k \<le> m"
proof -
  have "inv (snd (limit_step inc dec s x)) \<and> count (snd (limit_step inc dec s x)) k \<le> m"
    if "op_below top x \<and> op_keeps k m x" "inv s \<and> count s k \<le> m" for s x
  proof (cases x)
    case (IncOp j l)
    then show ?thesis
      using that count_inc [of s l j k] inv_inc [of s l j] by (cases "inc s j l") auto
  next
    case (DecOp j)
    then show ?thesis using that count_dec [of s j k] inv_dec [of s j] assms(3) by auto
  qed
  then show ?thesis
    using run_all_invariant [where P = "\<lambda>s. inv s \<and> count s k \<le> m" and step = "limit_step inc dec"
        and Q = "\<lambda>x. op_below top x \<and> op_keeps k m x"] assms by blast
qed

end

subsection \<open>LimitMap meets the contract\<close>

lemma lm_inv_New: "lm_inv New"
  by (simp add: lm_inv_def New_def)

lemma Value_range: "lm_inv s \<Longrightarrow> 0 \<le> Value s k \<and> Value s k < max_int64"
  unfolding lm_inv_def Value_def map_get_def max_int64_def
  by (cases "lmap s k") (auto dest: order_less_imp_le)

lemma Inc_cases:
  assumes "lm_inv s" and "limit < max_int64"
  shows "Inc s k limit = (if Value s k < limit
    then (True, s\<lparr>lmap := (lmap s)(k \<mapsto> Value s k + 1)\<rparr>) else (False, s))"
  using Value_range [OF assms(1), of k] wrap64_Suc [of "Value s k"]
  by (auto simp: Inc_def Let_def Value_def)

lemma Dec_cases:
  assumes "lm_inv s"
  shows "Dec s k = (let n = max 0 (Value s k - 1)
    in (n, s\<lparr>lmap := (if n = 0 then (lmap s)(k := None) else (lmap s)(k \<mapsto> n))\<rparr>))"
  using Value_range [OF assms, of k] by (auto simp: Dec_def Let_def Value_def max_def)

interpretation lm: limiter Inc Dec Value lm_inv max_int64
proof unfold_locales
  fix s :: "'k limit_map" and k j l
  assume s: "lm_inv s"
  show "0 \<le> Value s k" using Value_range [OF s] by simp
  show "fst (Dec s k) = max 0 (Value s k - 1)" by (simp add: Dec_cases [OF s] Let_def)
  show "Value (snd (Dec s k)) j = (if j = k then max 0 (Value s k - 1) else Value s j)"
    by (auto simp: Dec_cases [OF s] Let_def Value_def)
  show "lm_inv (snd (Dec s k))"
    using s Value_range [OF s, of k] by (auto simp: Dec_cases [OF s] Let_def lm_inv_def)
  assume l: "l < max_int64"
  show "fst (Inc s k l) = (Value s k < l)" by (simp add: Inc_cases [OF s l])
  show "Value (snd (Inc s k l)) j = (if j = k \<and> Value s k < l then Value s k + 1 else Value s j)"
    by (auto simp: Inc_cases [OF s l] Value_def)
  show "lm_inv (snd (Inc s k l))"
    using s l Value_range [OF s, of k] by (auto simp: Inc_cases [OF s l] lm_inv_def)
qed

subsection \<open>Properties\<close>

text \<open>
  C9: every history of \<open>Inc\<close> and \<open>Dec\<close> calls on a new map, with limits below
  the largest \<open>int\<close>, returns what the specification of saturating counters
  returns, and the map then holds exactly the specification's counters.
\<close>

theorem limitmap_history_refines:
  fixes ops :: "'k limit_op list"
  assumes "list_all (op_below max_int64) ops"
  shows "fst (run_all (limit_step Inc Dec) New ops) = fst (run_all spec_step (\<lambda>_. 0) ops) \<and>
    Value (snd (run_all (limit_step Inc Dec) New ops))
      = (\<lambda>k. int (snd (run_all spec_step (\<lambda>_. 0) ops) k))"
proof -
  have new: "lm.counts New = (\<lambda>_ :: 'k. 0)"
    by (simp add: lm.counts_def Value_def New_def fun_eq_iff)
  note h = lm.history_refines [OF lm_inv_New assms, unfolded new]
  let ?t = "snd (run_all (limit_step Inc Dec) New ops)"
  from h have "0 \<le> Value ?t k" for k by (simp add: lm.count_nonneg)
  then have "Value ?t = (\<lambda>k. int (lm.counts ?t k))" by (simp add: lm.counts_def fun_eq_iff)
  with h show ?thesis by simp
qed

theorem limitmap_history_refines_witness:
  "fst (run_all (limit_step Inc Dec) New [IncOp ''a'' 1, IncOp ''a'' 1, DecOp ''a'', IncOp ''a'' 1])
     = [1, 0, 0, 1]
   \<and> Value (snd (run_all (limit_step Inc Dec) New [IncOp ''a'' 1, IncOp ''a'' 1, DecOp ''a'', IncOp ''a'' 1])) ''a'' = 1"
  using limitmap_history_refines [of "[IncOp ''a'' 1, IncOp ''a'' 1, DecOp ''a'', IncOp ''a'' 1]"]
  by (simp add: max_int64_def)

end
