(* ===== verification/Memcache.thy ===== *)
theory Memcache
  imports Prelude
begin

text \<open>
  Package \<open>cache/memcache\<close> (src/cache/memcache/memcache.go): a memory cache with
  size-based eviction.  The state is \<open>cache\<close>: the maximal size, the accounted
  size in bytes and the Go map from keys to records.  Time is the argument
  \<open>now\<close> (Unix seconds, \<open>now i\<close> for the \<open>i\<close>-th reading of the clock in
  one call), the order in which Go ranges over the map is the argument \<open>iter\<close>.
  Sizes are bytes of memory and stay far below the largest \<open>int\<close>, so their sums
  are not wrapped; the use counter is.
\<close>

subsection \<open>Types and sizes\<close>

text \<open>
  \<open>reflect.TypeOf(v).Size()\<close> on a 64-bit platform, for the types the package
  measures: a record passed by value and a pointer to it.
\<close>

datatype go_type = TInterface | TString | TInt64 | TInt | TPtr | TStruct "go_type list"

fun type_size :: "go_type \<Rightarrow> int" where
  "type_size TInterface = 16"
| "type_size TString = 16"
| "type_size TInt64 = 8"
| "type_size TInt = 8"
| "type_size TPtr = 8"
| "type_size (TStruct ts) = sum_list (map type_size ts)"

record 'v cacheRec =
  Value :: 'v
  ContentType :: string
  AddedAt :: int
  UseCount :: int

definition cacheRec_type :: go_type where
  "cacheRec_type = TStruct [TInterface, TString, TInt64, TInt]"

record 'v cache =
  maxSize :: int
  size :: int
  storage :: "string \<rightharpoonup> 'v cacheRec"

definition keepFirst :: int where
  "keepFirst = 60 * 5"

definition valueSize :: "go_type \<Rightarrow> int" where
  "valueSize t = type_size t"

definition RecordSize :: int where
  "RecordSize = valueSize cacheRec_type"

subsection \<open>Operations\<close>

definition New :: "int \<Rightarrow> 'v cache" where
  "New sz = \<lparr>maxSize = sz, size = 0, storage = Map.empty\<rparr>"

definition Get :: "'v cache \<Rightarrow> string \<Rightarrow> ('v \<times> string) option \<times> 'v cache" where
  "Get c key = (case storage c key of
      Some v \<Rightarrow> (Some (Value v, ContentType v),
        c\<lparr>storage := (storage c)(key \<mapsto> v\<lparr>UseCount := wrap64 (UseCount v + 1)\<rparr>)\<rparr>)
    | None \<Rightarrow> (None, c))"

fun evict_scan :: "int \<Rightarrow> (string \<rightharpoonup> 'v cacheRec) \<Rightarrow> string list \<Rightarrow>
    (string \<times> 'v cacheRec) option \<Rightarrow> (string \<times> 'v cacheRec) option" where
  "evict_scan from m [] prey = prey"
| "evict_scan from m (k # ks) prey = (case m k of
      None \<Rightarrow> evict_scan from m ks prey
    | Some v \<Rightarrow> evict_scan from m ks
        (if AddedAt v < from \<and> (case prey of None \<Rightarrow> True | Some (_, p) \<Rightarrow> UseCount v < UseCount p)
         then Some (k, v) else prey))"

definition evict :: "(string, 'v cacheRec) map_order \<Rightarrow> int \<Rightarrow> 'v cache \<Rightarrow> bool \<times> 'v cache" where
  "evict iter now c = (case evict_scan (now - keepFirst) (storage c) (iter (storage c)) None of
      Some (k, prey) \<Rightarrow> (True, c\<lparr>size := size c - valueSize cacheRec_type, storage := (storage c)(k := None)\<rparr>)
    | None \<Rightarrow> (False, c))"

partial_function (option) set_loop ::
  "(string, 'v cacheRec) map_order \<Rightarrow> (nat \<Rightarrow> int) \<Rightarrow> int \<Rightarrow> nat \<Rightarrow> 'v cache \<Rightarrow> (bool \<times> 'v cache) option" where
  "set_loop iter now sz i c =
     (if size c + sz > maxSize c
      then (case evict iter (now i) c of (ok, c') \<Rightarrow>
        if ok then set_loop iter now sz (Suc i) c' else Some (False, c'))
      else Some (True, c))"

definition Set :: "(string, 'v cacheRec) map_order \<Rightarrow> (nat \<Rightarrow> int) \<Rightarrow>
    'v cache \<Rightarrow> string \<Rightarrow> 'v \<Rightarrow> string list \<Rightarrow> 'v cache option" where
  "Set iter now c key v contentType =
     (let ct = (case contentType of [] \<Rightarrow> '''' | x # _ \<Rightarrow> x);
          (useCount, addedAt, c') = (case storage c key of
             None \<Rightarrow> (0, now 0, c)
           | Some prec \<Rightarrow> (UseCount prec, AddedAt prec, c\<lparr>size := size c - valueSize cacheRec_type\<rparr>));
          rec = \<lparr>Value = v, ContentType = ct, AddedAt = addedAt, UseCount = wrap64 (useCount + 1)\<rparr>;
          sz = valueSize cacheRec_type
      in case set_loop iter now sz 1 c' of
           None \<Rightarrow> None
         | Some (False, d) \<Rightarrow> Some d
         | Some (True, d) \<Rightarrow> Some (d\<lparr>storage := (storage d)(key \<mapsto> rec), size := size d + sz\<rparr>))"

text \<open>\<open>Del\<close> measures the map's element, which is a pointer.\<close>

definition Del :: "'v cache \<Rightarrow> string \<Rightarrow> 'v cache" where
  "Del c key = (case storage c key of
      Some v \<Rightarrow> c\<lparr>size := size c - valueSize TPtr, storage := (storage c)(key := None)\<rparr>
    | None \<Rightarrow> c)"

definition Cleanup :: "'v cache \<Rightarrow> 'v cache" where
  "Cleanup c = c\<lparr>storage := Map.empty\<rparr>"

definition Size :: "'v cache \<Rightarrow> int" where
  "Size c = size c"

definition stale :: "int \<Rightarrow> 'v cache \<Rightarrow> string \<Rightarrow> 'v cache" where
  "stale now c key = (case storage c key of
      Some v \<Rightarrow> c\<lparr>storage := (storage c)(key \<mapsto>
        \<lparr>Value = Value v, ContentType = '''', AddedAt = now - keepFirst * 2, UseCount = UseCount v\<rparr>)\<rparr>
    | None \<Rightarrow> c)"

subsection \<open>Eviction\<close>

lemma RecordSize_48: "RecordSize = 48"
  by (simp add: RecordSize_def valueSize_def cacheRec_type_def)

lemma valueSize_rec [simp]: "valueSize cacheRec_type = 48"
  using RecordSize_48 by (simp add: RecordSize_def)

lemma valueSize_ptr [simp]: "valueSize TPtr = 8"
  by (simp add: valueSize_def)

text \<open>The records the eviction may remove at a given time, and the choice it must make.\<close>

definition evictable :: "int \<Rightarrow> (string \<rightharpoonup> 'v cacheRec) \<Rightarrow> string \<Rightarrow> bool" where
  "evictable now m k \<longleftrightarrow> (\<exists>v. m k = Some v \<and> AddedAt v < now - keepFirst)"

definition victim :: "int \<Rightarrow> (string \<rightharpoonup> 'v cacheRec) \<Rightarrow> string \<Rightarrow> bool" where
  "victim now m k \<longleftrightarrow> evictable now m k \<and>
     (\<forall>j. evictable now m j \<longrightarrow> UseCount (the (m k)) \<le> UseCount (the (m j)))"

definition prey_ok :: "int \<Rightarrow> (string \<rightharpoonup> 'v cacheRec) \<Rightarrow> string list \<Rightarrow> (string \<times> 'v cacheRec) option \<Rightarrow> bool" where
  "prey_ok from m ks prey \<longleftrightarrow> (case prey of
      None \<Rightarrow> (\<forall>k \<in> set ks. \<forall>v. m k = Some v \<longrightarrow> \<not> AddedAt v < from)
    | Some (k, p) \<Rightarrow> m k = Some p \<and> AddedAt p < from \<and>
        (\<forall>j \<in> set ks. \<forall>v. m j = Some v \<longrightarrow> AddedAt v < from \<longrightarrow> UseCount p \<le> UseCount v))"

lemma evict_scan_ok:
  "prey_ok from m seen prey \<Longrightarrow> prey_ok from m (seen @ ks) (evict_scan from m ks prey)"
proof (induction ks arbitrary: seen prey)
  case Nil
  then show ?case by simp
next
  case (Cons k ks)
  show ?case
  proof (cases "m k")
    case None
    with Cons.prems have "prey_ok from m (seen @ [k]) prey"
      by (auto simp: prey_ok_def split: option.splits)
    from Cons.IH [OF this] None show ?thesis by simp
  next
    case (Some v)
    let ?prey = "if AddedAt v < from \<and> (case prey of None \<Rightarrow> True | Some (_, p) \<Rightarrow> UseCount v < UseCount p)
      then Some (k, v) else prey"
    from Cons.prems Some have "prey_ok from m (seen @ [k]) ?prey"
      by (fastforce simp: prey_ok_def split: option.splits if_splits)
    from Cons.IH [OF this] Some show ?thesis by simp
  qed
qed

lemma evict_scan_orders:
  assumes "orders iter m"
  shows "case evict_scan (now - keepFirst) m (iter m) None of
      None \<Rightarrow> \<forall>k. \<not> evictable now m k
    | Some (k, p) \<Rightarrow> m k = Some p \<and> victim now m k"
proof -
  have "prey_ok (now - keepFirst) m [] None" by (simp add: prey_ok_def)
  from evict_scan_ok [OF this, of "iter m"] assms show ?thesis
    by (auto simp: prey_ok_def orders_def evictable_def victim_def dom_def split: option.splits)
qed

lemma evict_cases:
  assumes "orders iter (storage c)"
  obtains (none) "evict iter now c = (False, c)" and "\<forall>k. \<not> evictable now (storage c) k"
  | (some) k where "victim now (storage c) k"
      and "evict iter now c = (True, c\<lparr>size := size c - 48, storage := (storage c)(k := None)\<rparr>)"
  using evict_scan_orders [OF assms, of now]
  by (cases "evict_scan (now - keepFirst) (storage c) (iter (storage c)) None") (auto simp: evict_def)

lemma victim_present: "victim now m k \<Longrightarrow> \<exists>v. m k = Some v"
  by (auto simp: victim_def evictable_def)

subsection \<open>The accounting invariant\<close>

definition mc_inv :: "'v cache \<Rightarrow> bool" where
  "mc_inv c \<longleftrightarrow> finite (dom (storage c)) \<and> size c = 48 * int (card (dom (storage c))) \<and> size c \<le> maxSize c"

lemma mc_inv_New: "0 \<le> m \<Longrightarrow> mc_inv (New m)"
  by (simp add: mc_inv_def New_def)

lemma mc_inv_Get [inv_rules]: "mc_inv c \<Longrightarrow> mc_inv (snd (Get c k))"
  by (auto simp: mc_inv_def Get_def card_dom_overwrite insert_absorb domI split: option.splits)

lemma mc_inv_evict [inv_rules]:
  assumes "mc_inv c" and "orders iter (storage c)"
  shows "mc_inv (snd (evict iter now c))"
  using assms(2)
proof (cases rule: evict_cases [where now = now])
  case none
  then show ?thesis using assms(1) by simp
next
  case (some k)
  then obtain v where "storage c k = Some v" using victim_present by blast
  with card_dom_delete [of "storage c" k v] assms(1) some show ?thesis
    by (auto simp: mc_inv_def)
qed

text \<open>What \<open>Set\<close> writes for a key.\<close>

definition fresh_rec :: "(nat \<Rightarrow> int) \<Rightarrow> 'v cacheRec option \<Rightarrow> 'v \<Rightarrow> string list \<Rightarrow> 'v cacheRec" where
  "fresh_rec now old v cts =
     \<lparr>Value = v, ContentType = (case cts of [] \<Rightarrow> '''' | x # _ \<Rightarrow> x),
      AddedAt = (case old of None \<Rightarrow> now 0 | Some r \<Rightarrow> AddedAt r),
      UseCount = wrap64 ((case old of None \<Rightarrow> 0 | Some r \<Rightarrow> UseCount r) + 1)\<rparr>"

lemma set_loop_room: "size c + sz \<le> maxSize c \<Longrightarrow> set_loop iter now sz i c = Some (True, c)"
  by (subst set_loop.simps) simp

lemma set_loop_none:
  assumes "maxSize c < size c + sz" and "evict iter (now i) c = (False, c)"
  shows "set_loop iter now sz i c = Some (False, c)"
  using assms by (subst set_loop.simps) simp

lemma set_loop_one:
  assumes "maxSize c < size c + sz" and "evict iter (now i) c = (True, d)" and "size d + sz \<le> maxSize d"
  shows "set_loop iter now sz i c = Some (True, d)"
  using assms by (subst set_loop.simps) (simp add: set_loop_room)

lemma Set_present:
  assumes "storage c k = Some r" and "size c \<le> maxSize c"
  shows "Set iter now c k v cts = Some (c\<lparr>storage := (storage c)(k \<mapsto> fresh_rec now (Some r) v cts)\<rparr>)"
  using assms by (simp add: Set_def fresh_rec_def Let_def set_loop_room)

lemma Set_room:
  assumes "storage c k = None" and "size c + 48 \<le> maxSize c"
  shows "Set iter now c k v cts = Some (c\<lparr>storage := (storage c)(k \<mapsto> fresh_rec now None v cts), size := size c + 48\<rparr>)"
  using assms by (simp add: Set_def fresh_rec_def Let_def set_loop_room)

lemma Set_evict:
  assumes "storage c k = None" and "maxSize c < size c + 48" and "size c \<le> maxSize c"
    and "evict iter (now 1) c = (True, c\<lparr>size := size c - 48, storage := (storage c)(j := None)\<rparr>)"
  shows "Set iter now c k v cts =
    Some (c\<lparr>storage := (storage c)(j := None, k \<mapsto> fresh_rec now None v cts)\<rparr>)"
  using assms set_loop_one [where now = now and i = 1, OF assms(2,4)] by (simp add: Set_def fresh_rec_def Let_def)

lemma Set_full:
  assumes "storage c k = None" and "maxSize c < size c + 48" and "evict iter (now 1) c = (False, c)"
  shows "Set iter now c k v cts = Some c"
  using assms set_loop_none [where now = now and i = 1, OF assms(2,3)] by (simp add: Set_def Let_def)

subsection \<open>Properties\<close>

text \<open>
  C19: on a correctly accounted cache, \<open>Set\<close> always returns, and does one of four
  things: it overwrites a present key, keeping its age and use count plus one; it adds
  a new key where 48 bytes are free; it replaces exactly one entry, which is older than
  five minutes and least used among those; or it leaves the cache alone when the cache
  is full and every entry is younger than that.
\<close>

theorem Set_outcome:
  assumes "mc_inv c" and "orders iter (storage c)"
  shows "\<exists>d. Set iter now c k v cts = Some d \<and> maxSize d = maxSize c \<and>
    (if storage c k \<noteq> None \<or> size c + 48 \<le> maxSize c
     then storage d = (storage c)(k \<mapsto> fresh_rec now (storage c k) v cts)
     else if \<exists>j. evictable (now 1) (storage c) j
     then \<exists>j. victim (now 1) (storage c) j \<and>
       storage d = (storage c)(j := None, k \<mapsto> fresh_rec now None v cts)
     else d = c)"
proof (cases "storage c k")
  case None
  from assms(1) have le: "size c \<le> maxSize c" by (simp add: mc_inv_def)
  show ?thesis
  proof (cases "size c + 48 \<le> maxSize c")
    case True
    then show ?thesis using None by (simp add: Set_room)
  next
    case False
    then have full: "maxSize c < size c + 48" by simp
    from assms(2) show ?thesis
    proof (cases rule: evict_cases [where now = "now 1"])
      case none
      then show ?thesis using None full by (auto simp: Set_full)
    next
      case (some j)
      then show ?thesis using None full Set_evict [where now = now, OF None full le some(2)]
        by (auto simp: victim_def)
    qed
  qed
next
  case (Some r)
  then show ?thesis using assms(1) by (simp add: mc_inv_def Set_present)
qed

theorem Set_outcome_witness:
  "\<exists>d. Set (\<lambda>m. filter (\<lambda>k. m k \<noteq> None) [''a'']) (\<lambda>_. 1000)
      \<lparr>maxSize = 48, size = 48,
       storage = [''a'' \<mapsto> \<lparr>Value = (1::int), ContentType = '''', AddedAt = 10, UseCount = 1\<rparr>]\<rparr> ''b'' 2 [] = Some d
    \<and> storage d ''a'' = None \<and> (\<exists>r. storage d ''b'' = Some r \<and> Value r = 2)"
proof -
  let ?m = "[''a'' \<mapsto> \<lparr>Value = (1::int), ContentType = '''', AddedAt = 10, UseCount = 1\<rparr>]"
  let ?c = "\<lparr>maxSize = 48, size = 48, storage = ?m\<rparr>"
  let ?iter = "\<lambda>m. filter (\<lambda>k. m k \<noteq> None) [''a'']"
  have inv: "mc_inv ?c" by (simp add: mc_inv_def)
  have ord: "orders ?iter (storage ?c)" by (simp add: orders_def)
  have ev: "evictable 1000 ?m = (\<lambda>j. j = ''a'')"
    by (auto simp: evictable_def keepFirst_def fun_eq_iff)
  show ?thesis
    using Set_outcome [OF inv ord, of "\<lambda>_. 1000" "''b''" 2 "[]"]
    by (auto simp: ev victim_def fresh_rec_def)
qed

text \<open>
  C18: \<open>Set\<close>, \<open>Get\<close> and \<open>evict\<close> keep the accounting: after any of them the
  recorded size is 48 bytes per stored record and at most the maximal size.
\<close>

theorem Set_Get_keep_accounting:
  assumes "mc_inv c" and "orders iter (storage c)"
  shows "(\<forall>d. Set iter now c k v cts = Some d \<longrightarrow> mc_inv d) \<and> mc_inv (snd (Get c k)) \<and>
    mc_inv (snd (evict iter t c))"
proof -
  have fin: "finite (dom (storage c))" and le: "size c \<le> maxSize c"
    using assms(1) by (auto simp: mc_inv_def)
  have "mc_inv d" if d: "Set iter now c k v cts = Some d" for d
  proof (cases "storage c k")
    case (Some r)
    then show ?thesis using d assms(1) Set_present [OF Some le, of iter now v cts]
      by (auto simp: mc_inv_def insert_absorb domI)
  next
    case None
    note card_dom_insert [OF fin None, of "fresh_rec now None v cts"]
    note ins = this
    show ?thesis
    proof (cases "size c + 48 \<le> maxSize c")
      case True
      then show ?thesis using d None assms(1) ins by (auto simp: Set_room mc_inv_def)
    next
      case False
      then have full: "maxSize c < size c + 48" by simp
      from assms(2) show ?thesis
      proof (cases rule: evict_cases [where now = "now 1"])
        case none
        then show ?thesis using d None full assms(1) by (simp add: Set_full)
      next
        case (some j)
        then obtain u where u: "storage c j = Some u" using victim_present by blast
        with None have "j \<noteq> k" by auto
        then have "card (dom ((storage c)(j := None, k \<mapsto> fresh_rec now None v cts))) = card (dom (storage c))"
          using card_dom_insert [of "(storage c)(j := None)" k] card_dom_delete [OF fin u] fin None by simp
        then show ?thesis
          using d Set_evict [where now = now, OF None full le some(2), of v cts] assms(1) by (auto simp: mc_inv_def)
      qed
    qed
  qed
  then show ?thesis using assms by (auto intro: inv_rules)
qed

theorem Set_Get_keep_accounting_witness:
  "\<exists>d. Set (\<lambda>m. []) (\<lambda>_. 0) (New 96) ''a'' (7::int) [''x''] = Some d \<and> mc_inv d \<and> size d = 48"
proof -
  have "mc_inv (New 96 :: int cache)" by (rule mc_inv_New) simp
  moreover have "orders (\<lambda>m. []) (storage (New 96 :: int cache))" by (simp add: orders_def New_def)
  moreover have "Set (\<lambda>m. []) (\<lambda>_. 0) (New 96) ''a'' 7 [''x''] =
      Some ((New 96)\<lparr>storage := (storage (New 96))(''a'' \<mapsto> fresh_rec (\<lambda>_. 0) None (7::int) [''x'']),
        size := size (New 96 :: int cache) + 48\<rparr>)"
    by (rule Set_room) (simp_all add: New_def)
  ultimately show ?thesis
    using Set_Get_keep_accounting [of "New 96" "\<lambda>m. []" "\<lambda>_. 0" "''a''" "7::int" "[''x'']" 0]
    by (simp add: New_def)
qed

text \<open>
  \<open>Cleanup\<close> empties the map but not the accounted size, so a cache that was
  full stays full forever: it holds nothing and every later \<open>Set\<close> stores nothing.
\<close>

theorem Cleanup_full_cache_stays_unusable:
  assumes "orders iter Map.empty" and "maxSize c < size c + RecordSize"
  shows "Set iter now (Cleanup c) k v cts = Some (Cleanup c) \<and> fst (Get (Cleanup c) k) = None"
proof -
  have "evict iter (now 1) (Cleanup c) = (False, Cleanup c)"
    using assms(1) by (simp add: evict_def Cleanup_def orders_def)
  then show ?thesis using assms(2)
    by (auto simp: Set_full RecordSize_48 Cleanup_def Get_def)
qed

theorem Cleanup_full_cache_stays_unusable_witness:
  "mc_inv \<lparr>maxSize = 48, size = 48, storage = [''a'' \<mapsto> \<lparr>Value = 1, ContentType = '''', AddedAt = 10, UseCount = 1\<rparr>]\<rparr>
   \<and> Set (\<lambda>m. []) (\<lambda>_. 5)
      (Cleanup \<lparr>maxSize = 48, size = 48, storage = [''a'' \<mapsto> \<lparr>Value = (1::int), ContentType = '''', AddedAt = 10, UseCount = 1\<rparr>]\<rparr>)
      ''b'' 2 [] = Some \<lparr>maxSize = 48, size = 48, storage = Map.empty\<rparr>"
  using Cleanup_full_cache_stays_unusable [of "\<lambda>m. []"
      "\<lparr>maxSize = 48, size = 48, storage = [''a'' \<mapsto> \<lparr>Value = (1::int), ContentType = '''', AddedAt = 10, UseCount = 1\<rparr>]\<rparr>"
      "\<lambda>_. 5" "''b''" 2 "[]"]
  by (simp add: orders_def RecordSize_48 Cleanup_def mc_inv_def)

text \<open>
  \<open>Del\<close> subtracts the size of a pointer where \<open>Set\<close> added the size of a
  record, so every deletion of a present key leaves 40 bytes accounted that nothing
  uses.
\<close>

theorem Del_leaks_accounting:
  assumes "mc_inv c" and "storage c k = Some r"
  shows "storage (Del c k) k = None \<and> Size (Del c k) = RecordSize * int (card (dom (storage (Del c k)))) + 40"
  using assms card_dom_delete [of "storage c" k r]
  by (auto simp: mc_inv_def Del_def Size_def RecordSize_48)

theorem Del_leaks_accounting_witness:
  "Size (Del \<lparr>maxSize = 100, size = 48, storage = [''a'' \<mapsto> \<lparr>Value = (1::int), ContentType = '''', AddedAt = 10, UseCount = 1\<rparr>]\<rparr> ''a'') = 40"
  using Del_leaks_accounting [of "\<lparr>maxSize = 100, size = 48,
    storage = [''a'' \<mapsto> \<lparr>Value = (1::int), ContentType = '''', AddedAt = 10, UseCount = 1\<rparr>]\<rparr>" "''a''"]
  by (simp add: mc_inv_def Del_def)

end
