(* ===== verification/Retry.thy ===== *)
theory Retry
  imports Complex_Main Prelude
begin

text \<open>
  Package \<open>retry\<close> (src/retry/retry.go): a retry policy with exponential backoff.
  The function that is retried is an argument: it takes the caller's state and the
  attempt number and returns a pair of errors (retryable, fatal) and the new state.
  Durations are nanoseconds.  Floating point is a pair of arguments: \<open>fl\<close> rounds a
  real to the nearest \<open>float64\<close>, \<open>cv\<close> converts a \<open>float64\<close> to an
  \<open>int64\<close>; the language fixes \<open>cv\<close> only for values that fit
  (\<open>conversion cv\<close>).  \<open>rnd k\<close> is the random number drawn for the sleep after
  attempt \<open>k\<close>.
\<close>

record Policy =
  MaxAttempts :: int
  Backoff :: int
  Multiplier :: real
  MaxBackoff :: int
  Jitter :: int
  zeroJitter :: bool

definition defaultAttempts :: int where "defaultAttempts = 5"
definition defaultBackoff :: int where "defaultBackoff = 500 * 1000000"
definition defaultMultiplier :: real where "defaultMultiplier = 2"
definition defaultMaxBackoff :: int where "defaultMaxBackoff = 5 * 1000000000"
definition defaultJitter :: int where "defaultJitter = 200 * 1000000"

definition NoJitter :: "Policy \<Rightarrow> Policy" where
  "NoJitter p = p\<lparr>zeroJitter := True\<rparr>"

definition go_trunc :: "real \<Rightarrow> int" where
  "go_trunc x = (if x < 0 then \<lceil>x\<rceil> else \<lfloor>x\<rfloor>)"

definition conversion :: "(real \<Rightarrow> int) \<Rightarrow> bool" where
  "conversion cv \<longleftrightarrow> (\<forall>x. in_int64 (go_trunc x) \<longrightarrow> cv x = go_trunc x)"

definition calcSleepTime ::
  "(real \<Rightarrow> real) \<Rightarrow> (real \<Rightarrow> int) \<Rightarrow> (int \<Rightarrow> real) \<Rightarrow> Policy \<Rightarrow> int \<Rightarrow> int" where
  "calcSleepTime fl cv rnd p attempt =
     (let jitter = cv (fl (rnd attempt * fl (of_int (Jitter p))));
          sleepTime = wrap64 (cv (fl (fl (of_int (Backoff p)) * fl (Multiplier p ^ nat (attempt - 1)))) + jitter)
      in min sleepTime (MaxBackoff p))"

text \<open>The first part of \<open>Run\<close>: zero fields take their defaults, in place.\<close>

definition apply_defaults :: "Policy \<Rightarrow> Policy" where
  "apply_defaults p =
     (let p1 = (if MaxAttempts p = 0 then p\<lparr>MaxAttempts := defaultAttempts\<rparr> else p);
          p2 = (if Backoff p1 = 0 then p1\<lparr>Backoff := defaultBackoff\<rparr> else p1);
          p3 = (if Multiplier p2 = 0 then p2\<lparr>Multiplier := defaultMultiplier\<rparr> else p2);
          p4 = (if MaxBackoff p3 = 0 then p3\<lparr>MaxBackoff := defaultMaxBackoff\<rparr> else p3)
      in if Jitter p4 = 0 \<and> \<not> zeroJitter p4 then p4\<lparr>Jitter := defaultJitter\<rparr> else p4)"

text \<open>The loop of \<open>Run\<close>: the result, the final state and the durations slept.\<close>

function run_loop :: "(Policy \<Rightarrow> int \<Rightarrow> int) \<Rightarrow> Policy \<Rightarrow>
    ('s \<Rightarrow> int \<Rightarrow> ('e option \<times> 'e option) \<times> 's) \<Rightarrow> int \<Rightarrow> 's \<Rightarrow> 'e option \<times> 's \<times> int list" where
  "run_loop sleep p fn attempt0 s =
     (let attempt = attempt0 + 1; ((err, fatal), s') = fn s attempt
      in case fatal of
           Some e \<Rightarrow> (Some e, s', [])
         | None \<Rightarrow> (case err of
             None \<Rightarrow> (None, s', [])
           | Some e \<Rightarrow>
               if attempt < MaxAttempts p
               then (let (r, t, ds) = run_loop sleep p fn attempt s' in (r, t, sleep p attempt # ds))
               else (Some e, s', [])))"
  by pat_completeness auto
termination
  by (relation "measure (\<lambda>(_, p, _, a, _). nat (MaxAttempts p - a))") auto

declare run_loop.simps [simp del]

definition Run :: "(real \<Rightarrow> real) \<Rightarrow> (real \<Rightarrow> int) \<Rightarrow> (int \<Rightarrow> real) \<Rightarrow> Policy \<Rightarrow>
    ('s \<Rightarrow> int \<Rightarrow> ('e option \<times> 'e option) \<times> 's) \<Rightarrow> 's \<Rightarrow> ('e option \<times> 's \<times> int list) \<times> Policy" where
  "Run fl cv rnd p fn s =
     (let p' = apply_defaults p in (run_loop (calcSleepTime fl cv rnd) p' fn 0 s, p'))"

subsection \<open>What a run does\<close>

text \<open>The caller's state before the \<open>i\<close>-th call and the outcome of that call.\<close>

fun state_before :: "('s \<Rightarrow> int \<Rightarrow> 'r \<times> 's) \<Rightarrow> int \<Rightarrow> 's \<Rightarrow> nat \<Rightarrow> 's" where
  "state_before fn a s 0 = s"
| "state_before fn a s (Suc i) = state_before fn (a + 1) (snd (fn s (a + 1))) i"

definition outcome :: "('s \<Rightarrow> int \<Rightarrow> 'r \<times> 's) \<Rightarrow> int \<Rightarrow> 's \<Rightarrow> nat \<Rightarrow> 'r" where
  "outcome fn a s i = fst (fn (state_before fn a s i) (a + int i + 1))"

lemma outcome_Suc: "outcome fn a s (Suc i) = outcome fn (a + 1) (snd (fn s (a + 1))) i"
  by (simp add: outcome_def algebra_simps)

definition verdict :: "'e option \<times> 'e option \<Rightarrow> 'e option" where
  "verdict oc = (case oc of (_, Some f) \<Rightarrow> Some f | (e, None) \<Rightarrow> e)"

definition retryable :: "'e option \<times> 'e option \<Rightarrow> bool" where
  "retryable oc \<longleftrightarrow> fst oc \<noteq> None \<and> snd oc = None"

definition stopped_after :: "('s \<Rightarrow> int \<Rightarrow> ('e option \<times> 'e option) \<times> 's) \<Rightarrow> int \<Rightarrow> 's \<Rightarrow> nat \<Rightarrow> nat \<Rightarrow> bool" where
  "stopped_after fn a s budget n \<longleftrightarrow> n < budget \<and> (\<forall>i < n. retryable (outcome fn a s i)) \<and>
     (Suc n < budget \<longrightarrow> \<not> retryable (outcome fn a s n))"

lemma stopped_after_Suc:
  assumes "retryable (outcome fn a s 0)" and "stopped_after fn (a + 1) (snd (fn s (a + 1))) b n"
  shows "stopped_after fn a s (Suc b) (Suc n)"
  using assms by (auto simp: stopped_after_def outcome_Suc less_Suc_eq_0_disj)

lemma run_loop_unfold:
  assumes "fn s (a + 1) = (oc, s')"
  shows "run_loop sleep p fn a s =
    (if retryable oc \<and> a + 1 < MaxAttempts p
     then (case run_loop sleep p fn (a + 1) s' of (r, t, ds) \<Rightarrow> (r, t, sleep p (a + 1) # ds))
     else (verdict oc, s', []))"
  by (subst run_loop.simps) (use assms in \<open>cases oc; auto simp: verdict_def retryable_def Let_def split: option.splits\<close>)

lemma sleeps_Suc:
  "map (\<lambda>i. f (a + int i + 1)) [0..<Suc n] = f (a + 1) # map (\<lambda>i. f (a + 1 + int i + 1)) [0..<n]"
  unfolding upt_conv_Cons [OF zero_less_Suc] list.map map_Suc_upt [symmetric]
  by (simp add: algebra_simps)

lemma run_loop_stops:
  assumes "a < MaxAttempts p"
  shows "\<exists>n. stopped_after fn a s (nat (MaxAttempts p - a)) n \<and>
    run_loop sleep p fn a s = (verdict (outcome fn a s n), state_before fn a s (Suc n),
      map (\<lambda>i. sleep p (a + int i + 1)) [0..<n])"
  using assms
proof (induction "nat (MaxAttempts p - a)" arbitrary: a s)
  case 0
  then show ?case by simp
next
  case (Suc b)
  obtain oc s' where fn: "fn s (a + 1) = (oc, s')" by (cases "fn s (a + 1)") blast
  then have o0: "outcome fn a s 0 = oc" by (simp add: outcome_def)
  show ?case
  proof (cases "retryable oc \<and> a + 1 < MaxAttempts p")
    case True
    from Suc.hyps(2) have b: "b = nat (MaxAttempts p - (a + 1))" by simp
    from Suc.hyps(1) [OF b, of s'] True obtain n
      where n: "stopped_after fn (a + 1) s' b n"
        and run: "run_loop sleep p fn (a + 1) s' = (verdict (outcome fn (a + 1) s' n),
          state_before fn (a + 1) s' (Suc n), map (\<lambda>i. sleep p (a + 1 + int i + 1)) [0..<n])"
      unfolding b by blast
    have "stopped_after fn a s (Suc b) (Suc n)"
      by (rule stopped_after_Suc) (use True o0 n fn in auto)
    then show ?thesis using run True
      unfolding Suc.hyps(2) [symmetric] run_loop_unfold [of fn s a, OF fn]
      by (intro exI [of _ "Suc n"]) (simp only: sleeps_Suc outcome_Suc state_before.simps fn, simp)
  next
    case False
    then have "stopped_after fn a s (nat (MaxAttempts p - a)) 0"
      using Suc.prems o0 by (auto simp: stopped_after_def)
    then show ?thesis using fn o0 False
      by (intro exI [of _ 0]) (auto simp: run_loop_unfold [of fn s a, OF fn])
  qed
qed

lemma run_loop_single:
  assumes "MaxAttempts p \<le> a + 1"
  shows "run_loop sleep p fn a s = (verdict (outcome fn a s 0), state_before fn a s 1, [])"
proof -
  obtain oc s' where "fn s (a + 1) = (oc, s')" by (cases "fn s (a + 1)") blast
  with assms show ?thesis by (simp add: run_loop_unfold outcome_def)
qed

lemma Run_trace:
  "\<exists>n. stopped_after fn 0 s (nat (max 1 (MaxAttempts (apply_defaults p)))) n \<and>
     fst (Run fl cv rnd p fn s) = (verdict (outcome fn 0 s n), state_before fn 0 s (Suc n),
       map (\<lambda>i. calcSleepTime fl cv rnd (apply_defaults p) (int i + 1)) [0..<n])"
proof (cases "0 < MaxAttempts (apply_defaults p)")
  case True
  then have "nat (max 1 (MaxAttempts (apply_defaults p))) = nat (MaxAttempts (apply_defaults p) - 0)"
    by simp
  with run_loop_stops [OF True, of fn s "calcSleepTime fl cv rnd"] show ?thesis
    by (simp add: Run_def Let_def)
next
  case False
  then have "run_loop (calcSleepTime fl cv rnd) (apply_defaults p) fn 0 s
      = (verdict (outcome fn 0 s 0), state_before fn 0 s 1, [])"
    by (intro run_loop_single) simp
  with False show ?thesis
    by (intro exI [of _ 0]) (simp add: Run_def Let_def stopped_after_def)
qed

subsection \<open>Properties\<close>

text \<open>
  C20: \<open>Run\<close> returns for every policy and every function.  With \<open>N\<close> the number of
  attempts (5 if unset, one if negative) it calls the function \<open>n\<close> times,
  \<open>1 \<le> n \<le> N\<close>, where all but the last call gave a retryable error and the
  last one either did not or was the \<open>N\<close>-th; it returns the fatal error of the last
  call if there is one and its error otherwise, and it slept exactly \<open>n - 1\<close> times.
\<close>

theorem Run_calls:
  "\<exists>n. stopped_after fn 0 s (nat (max 1 (MaxAttempts (apply_defaults p)))) n \<and>
     fst (Run fl cv rnd p fn s) = (verdict (outcome fn 0 s n), state_before fn 0 s (Suc n),
       map (\<lambda>i. calcSleepTime fl cv rnd (apply_defaults p) (int i + 1)) [0..<n])"
  by (rule Run_trace)

text \<open>
  No sleep of a run is longer than the maximal backoff, whatever the jitter, the
  random numbers and the rounding, so a run sleeps at most \<open>N - 1\<close> times the
  maximal backoff.
\<close>

theorem Run_sleep_bound:
  assumes "fst (Run fl cv rnd p fn s) = (r, t, sleeps)" and "0 \<le> MaxBackoff (apply_defaults p)"
  shows "(\<forall>d \<in> set sleeps. d \<le> MaxBackoff (apply_defaults p)) \<and>
    sum_list sleeps \<le> (max 1 (MaxAttempts (apply_defaults p)) - 1) * MaxBackoff (apply_defaults p)"
proof -
  let ?p = "apply_defaults p"
  from Run_trace [of fn s p fl cv rnd] assms(1) obtain n
    where n: "stopped_after fn 0 s (nat (max 1 (MaxAttempts ?p))) n"
      and sl: "sleeps = map (\<lambda>i. calcSleepTime fl cv rnd ?p (int i + 1)) [0..<n]" by auto
  have each: "calcSleepTime fl cv rnd ?p k \<le> MaxBackoff ?p" for k
    by (simp add: calcSleepTime_def Let_def)
  have "sum_list sleeps \<le> int n * MaxBackoff ?p"
    unfolding sl by (induction n) (use each in \<open>auto simp: algebra_simps intro: add_mono\<close>)
  also have "\<dots> \<le> (max 1 (MaxAttempts ?p) - 1) * MaxBackoff ?p"
    using n assms(2) by (intro mult_right_mono) (auto simp: stopped_after_def)
  finally show ?thesis using each by (auto simp: sl)
qed

definition always_fails :: "unit \<Rightarrow> int \<Rightarrow> (string option \<times> string option) \<times> unit" where
  "always_fails s k = ((Some ''e'', None), s)"

theorem Run_sleep_bound_witness:
  "fst (Run id floor (\<lambda>_. 0) \<lparr>MaxAttempts = 3, Backoff = 0, Multiplier = 0, MaxBackoff = 0,
       Jitter = 0, zeroJitter = False\<rparr> always_fails ()) = (Some ''e'', (), [500000000, 1000000000])
     \<and> sum_list [500000000, 1000000000] \<le> (max 1 3 - 1) * (5000000000 :: int)"
proof -
  let ?p = "\<lparr>MaxAttempts = 3, Backoff = 0, Multiplier = 0, MaxBackoff = 0, Jitter = 0, zeroJitter = False\<rparr>"
  have d: "apply_defaults ?p = \<lparr>MaxAttempts = 3, Backoff = 500000000, Multiplier = 2,
      MaxBackoff = 5000000000, Jitter = 200000000, zeroJitter = False\<rparr>"
    by (simp add: apply_defaults_def defaultBackoff_def defaultMultiplier_def
        defaultMaxBackoff_def defaultJitter_def)
  have "fst (Run id floor (\<lambda>_. 0) ?p always_fails ()) = (Some ''e'', (), [500000000, 1000000000])"
    by (simp add: Run_def d Let_def always_fails_def run_loop.simps calcSleepTime_def wrap64_def)
  with Run_sleep_bound [OF this] show ?thesis by (simp add: d)
qed

text \<open>
  With exact arithmetic and no jitter the sleeps of a run are
  \<open>Backoff * Multiplier ^ k\<close> nanoseconds, rounded down and cut at the maximal
  backoff, for \<open>k = 0, 1, 2, \<dots>\<close>
\<close>

theorem Run_sleep_schedule:
  assumes "conversion cv" and "zeroJitter p" and "Jitter p = 0"
    and "fst (Run id cv rnd p fn s) = (r, t, sleeps)"
    and "0 \<le> Backoff p" and "0 \<le> Multiplier p"
    and "\<forall>k < length sleeps. \<lfloor>of_int (Backoff (apply_defaults p)) * Multiplier (apply_defaults p) ^ k\<rfloor> \<le> max_int64"
  shows "sleeps = map (\<lambda>k. min \<lfloor>of_int (Backoff (apply_defaults p)) * Multiplier (apply_defaults p) ^ k\<rfloor>
    (MaxBackoff (apply_defaults p))) [0..<length sleeps]"
proof -
  let ?p = "apply_defaults p"
  have j: "Jitter ?p = 0" using assms(2,3) by (simp add: apply_defaults_def Let_def)
  have nn: "0 \<le> Backoff ?p" "0 \<le> Multiplier ?p" using assms(5,6)
    by (simp_all add: apply_defaults_def Let_def defaultBackoff_def defaultMultiplier_def)
  from Run_trace [of fn s p id cv rnd] assms(4) obtain n
    where sl: "sleeps = map (\<lambda>i. calcSleepTime id cv rnd ?p (int i + 1)) [0..<n]" by auto
  have "calcSleepTime id cv rnd ?p (int k + 1) = min \<lfloor>of_int (Backoff ?p) * Multiplier ?p ^ k\<rfloor> (MaxBackoff ?p)"
    if "k < n" for k
  proof -
    let ?x = "of_int (Backoff ?p) * Multiplier ?p ^ k"
    have "0 \<le> ?x" using nn by simp
    then have tr: "go_trunc ?x = \<lfloor>?x\<rfloor>" and "0 \<le> \<lfloor>?x\<rfloor>" by (auto simp: go_trunc_def)
    moreover have "\<lfloor>?x\<rfloor> \<le> max_int64" using assms(7) that sl by simp
    ultimately have "in_int64 \<lfloor>?x\<rfloor>" by (simp add: in_int64_def min_int64_def)
    moreover have "go_trunc 0 = 0" and "in_int64 0" by (simp_all add: go_trunc_def in_int64_def min_int64_def max_int64_def)
    ultimately have "cv ?x = \<lfloor>?x\<rfloor>" and "cv 0 = 0" using assms(1) tr by (auto simp: conversion_def)
    with \<open>in_int64 \<lfloor>?x\<rfloor>\<close> j show ?thesis
      by (simp add: calcSleepTime_def Let_def wrap64_id)
  qed
  then show ?thesis by (simp add: sl)
qed

theorem Run_sleep_schedule_witness:
  "fst (Run id floor (\<lambda>_. 0) (NoJitter \<lparr>MaxAttempts = 4, Backoff = 0, Multiplier = 0, MaxBackoff = 1500000000,
       Jitter = 0, zeroJitter = False\<rparr>) always_fails ()) = (Some ''e'', (), [500000000, 1000000000, 1500000000])
   \<and> [500000000, 1000000000, 1500000000] =
     map (\<lambda>k. min \<lfloor>of_int 500000000 * (2::real) ^ k\<rfloor> 1500000000) [0..<3]"
proof -
  let ?p = "NoJitter \<lparr>MaxAttempts = 4, Backoff = 0, Multiplier = 0, MaxBackoff = 1500000000,
    Jitter = 0, zeroJitter = False\<rparr>"
  have d: "apply_defaults ?p = \<lparr>MaxAttempts = 4, Backoff = 500000000, Multiplier = 2,
      MaxBackoff = 1500000000, Jitter = 0, zeroJitter = True\<rparr>"
    by (simp add: apply_defaults_def NoJitter_def defaultBackoff_def defaultMultiplier_def)
  define cv where "cv = (\<lambda>x :: real. go_trunc x)"
  have run: "fst (Run id cv (\<lambda>_. 0) ?p always_fails ()) = (Some ''e'', (), [500000000, 1000000000, 1500000000])"
    by (simp add: Run_def d Let_def always_fails_def run_loop.simps calcSleepTime_def wrap64_def cv_def go_trunc_def)
  have "conversion cv" by (simp add: conversion_def cv_def)
  note Run_sleep_schedule [OF this _ _ run]
  moreover have "fst (Run id floor (\<lambda>_. 0) ?p always_fails ()) = (Some ''e'', (), [500000000, 1000000000, 1500000000])"
    by (simp add: Run_def d Let_def always_fails_def run_loop.simps calcSleepTime_def wrap64_def)
  ultimately show ?thesis
    by (simp add: d NoJitter_def less_Suc_eq numeral_eq_Suc max_int64_def)
qed

end
