(* ===== verification/Http.thy ===== *)
theory Http
  imports GoStrings
begin

text \<open>
  The part of \<open>net/http\<close> that the packages stand on: header maps with canonical
  keys, requests, and the response writer with the rules of the server's own
  implementation (the first \<open>WriteHeader\<close> wins and fixes the headers, an invalid
  code panics, a body is cut off by the status and by a declared length).
  A handler takes a request, a writer and the state of the server and either returns
  or panics.
\<close>

subsection \<open>Headers\<close>

type_synonym header = "string \<rightharpoonup> string list"

definition to_lower :: "char \<Rightarrow> char" where
  "to_lower c = (if CHR ''A'' \<le> c \<and> c \<le> CHR ''Z'' then char_of (of_char c + 32 :: nat) else c)"

definition token_char :: "char \<Rightarrow> bool" where
  "token_char c \<longleftrightarrow> is_digit c \<or> (CHR ''a'' \<le> c \<and> c \<le> CHR ''z'') \<or> (CHR ''A'' \<le> c \<and> c \<le> CHR ''Z'')
     \<or> c \<in> set ''!#$%&*+-.^_|~''"

fun canon_from :: "bool \<Rightarrow> string \<Rightarrow> string" where
  "canon_from up [] = []"
| "canon_from up (c # s) = (if up then to_upper c else to_lower c) # canon_from (c = CHR ''-'') s"

definition CanonicalHeaderKey :: "string \<Rightarrow> string" where
  "CanonicalHeaderKey s = (if list_all token_char s then canon_from True s else s)"

definition Header_Get :: "header \<Rightarrow> string \<Rightarrow> string" where
  "Header_Get h k = (case h (CanonicalHeaderKey k) of Some (v # _) \<Rightarrow> v | _ \<Rightarrow> '''')"

definition Header_Set :: "header \<Rightarrow> string \<Rightarrow> string \<Rightarrow> header" where
  "Header_Set h k v = h(CanonicalHeaderKey k \<mapsto> [v])"

definition Header_Del :: "header \<Rightarrow> string \<Rightarrow> header" where
  "Header_Del h k = h(CanonicalHeaderKey k := None)"

subsection \<open>Requests\<close>

text \<open>
  The request context carries what the framework stores there: the request
  identifier, the session data and the fields of the context logger.  The cookies and
  the form are kept as parsed by \<open>net/http\<close>.
\<close>

record 'd http_ctx =
  ctx_requestID :: "string option"
  ctx_session :: "'d option"
  ctx_logger :: "(string \<times> string) list option"

record 'd http_request =
  Method :: string
  RequestURI :: string
  Header :: header
  RemoteAddr :: string
  Cookies :: "(string \<times> string) list"
  Form :: header
  Context :: "'d http_ctx"

subsection \<open>The response writer\<close>

record writer =
  hdr :: header
  status :: "int option"
  sent :: header
  declared :: "int option"
  written :: int
  body :: string

definition new_writer :: writer where
  "new_writer = \<lparr>hdr = Map.empty, status = None, sent = Map.empty, declared = None, written = 0, body = []\<rparr>"

definition content_length :: "header \<Rightarrow> int option" where
  "content_length h = (let cl = Header_Get h ''Content-Length'' in
     if cl = '''' then None
     else case ParseInt cl of (v, None) \<Rightarrow> if 0 \<le> v then Some v else None | _ \<Rightarrow> None)"

definition bodyAllowed :: "int \<Rightarrow> bool" where
  "bodyAllowed st \<longleftrightarrow> \<not> (100 \<le> st \<and> st \<le> 199) \<and> st \<noteq> 204 \<and> st \<noteq> 304"

text \<open>The headers that the server does not send with a code that forbids a body.\<close>

definition suppressedHeaders :: "int \<Rightarrow> string list" where
  "suppressedHeaders st =
     (if st = 304 then [''Content-Type'', ''Content-Length'', ''Transfer-Encoding'']
      else if \<not> bodyAllowed st then [''Content-Length'', ''Transfer-Encoding''] else [])"

definition sent_headers :: "int \<Rightarrow> header \<Rightarrow> header" where
  "sent_headers st h = fold (\<lambda>k g. g(k := None)) (suppressedHeaders st) h"

text \<open>\<open>None\<close> is the panic of an invalid code; an informational code is not final.\<close>

definition WriteHeader :: "int \<Rightarrow> writer \<Rightarrow> writer option" where
  "WriteHeader code w =
     (if status w \<noteq> None then Some w
      else if code < 100 \<or> 999 < code then None
      else if code \<le> 199 \<and> code \<noteq> 101 then Some w
      else Some (w\<lparr>status := Some code, sent := sent_headers code (hdr w), declared := content_length (hdr w)\<rparr>))"

definition Write :: "string \<Rightarrow> writer \<Rightarrow> writer" where
  "Write bs w0 =
     (let w = (case WriteHeader 200 w0 of Some w \<Rightarrow> w | None \<Rightarrow> w0)
      in if bs = [] then w
         else if \<not> bodyAllowed (the (status w)) then w
         else let w' = w\<lparr>written := written w + int (length bs)\<rparr>
           in if (case declared w of None \<Rightarrow> False | Some n \<Rightarrow> written w' > n) then w'
              else w'\<lparr>body := body w @ bs\<rparr>)"

definition StatusText :: "int \<Rightarrow> string" where
  "StatusText code =
     (if code = 429 then ''Too Many Requests'' else if code = 401 then ''Unauthorized''
      else if code = 500 then ''Internal Server Error'' else if code = 405 then ''Method Not Allowed'' else '''')"

text \<open>\<open>http.Error\<close> with one of the codes the middlewares use.\<close>

definition http_Error :: "writer \<Rightarrow> string \<Rightarrow> int \<Rightarrow> writer" where
  "http_Error w msg code =
     (let h = Header_Set (Header_Set (Header_Del (hdr w) ''Content-Length'')
                ''Content-Type'' ''text/plain; charset=utf-8'') ''X-Content-Type-Options'' ''nosniff'';
          w' = w\<lparr>hdr := h\<rparr>
      in case WriteHeader code w' of None \<Rightarrow> w' | Some w'' \<Rightarrow> Write (msg @ [CHR 0x0A]) w'')"

subsection \<open>Handlers\<close>

datatype panic_val = PanicError string | PanicOther

datatype 's handler_result = Returned writer 's | Panicked panic_val writer 's

type_synonym ('d, 's) http_handler = "'d http_request \<Rightarrow> writer \<Rightarrow> 's \<Rightarrow> 's handler_result"

fun result_writer :: "'s handler_result \<Rightarrow> writer" where
  "result_writer (Returned w s) = w"
| "result_writer (Panicked e w s) = w"

fun result_state :: "'s handler_result \<Rightarrow> 's" where
  "result_state (Returned w s) = s"
| "result_state (Panicked e w s) = s"

subsection \<open>Facts about the writer\<close>

lemma header_keys [simp]:
  "CanonicalHeaderKey ''Content-Type'' = ''Content-Type''"
  "CanonicalHeaderKey ''Content-Length'' = ''Content-Length''"
  "CanonicalHeaderKey ''X-Content-Type-Options'' = ''X-Content-Type-Options''"
  "CanonicalHeaderKey ''Api-Token'' = ''Api-Token''"
  by code_simp+

lemma sent_headers_get:
  "Header_Get (sent_headers st h) k = (if CanonicalHeaderKey k \<in> set (suppressedHeaders st) then '''' else Header_Get h k)"
  by (auto simp: sent_headers_def suppressedHeaders_def Header_Get_def)

lemma WriteHeader_first:
  assumes "status w = None" and "200 \<le> code" and "code \<le> 999"
  shows "WriteHeader code w = Some (w\<lparr>status := Some code, sent := sent_headers code (hdr w), declared := content_length (hdr w)\<rparr>)"
  using assms by (simp add: WriteHeader_def)

lemma WriteHeader_again: "status w = Some st \<Longrightarrow> WriteHeader code w = Some w"
  by (simp add: WriteHeader_def)

lemma Write_status: "status w = Some st \<Longrightarrow> status (Write bs w) = Some st"
  by (simp add: Write_def WriteHeader_again Let_def split: option.splits)

lemma Write_sent: "status w = Some st \<Longrightarrow> sent (Write bs w) = sent w"
  by (simp add: Write_def WriteHeader_again Let_def split: option.splits)

lemma Write_body:
  assumes "status w = Some st" and "bodyAllowed st" and "declared w = None \<or> declared w = Some (written w + int (length bs))"
  shows "body (Write bs w) = body w @ bs"
  using assms by (auto simp: Write_def WriteHeader_again Let_def)

lemma Write_body_cut:
  assumes "status w = Some st" and "declared w = Some n" and "n \<le> written w"
  shows "body (Write bs w) = body w"
  using assms by (cases bs) (auto simp: Write_def WriteHeader_again Let_def)

lemma Write_no_body:
  assumes "status w = Some st" and "\<not> bodyAllowed st"
  shows "Write bs w = w"
  using assms by (auto simp: Write_def WriteHeader_again Let_def)

lemma ParseInt_Itoa: "in_int64 i \<Longrightarrow> ParseInt (Itoa i) = (i, None)"
  using Atoi_Itoa by (simp add: Atoi_def)

lemma Itoa_nonempty [simp]: "Itoa i \<noteq> []"
  using show_nat_digits [of "nat i"] by (simp add: Itoa_def all_digits_def)

end
