(* ===== verification/HttpReply.thy ===== *)
theory HttpReply
  imports Http
begin

text \<open>
  Package \<open>httpreply\<close> (src/httpreply/common.go): the replies a service handler
  writes.  Every function returns the code it was given and no error; the model
  returns the writer and the code, with \<open>None\<close> for the panic that
  \<open>WriteHeader\<close> raises on a code outside 100..999.  \<open>json.Marshal\<close> is the
  argument \<open>marshal\<close>; its error is ignored by the code, which then sends an empty
  body.
\<close>

definition Reply :: "writer \<Rightarrow> int \<Rightarrow> string \<Rightarrow> string \<Rightarrow> writer \<times> int option" where
  "Reply w code contentType content =
     (let w1 = (if contentType \<noteq> '''' then w\<lparr>hdr := Header_Set (hdr w) ''Content-Type'' contentType\<rparr> else w);
          w2 = (if length content > 0
                then w1\<lparr>hdr := Header_Set (hdr w1) ''Content-Length'' (Itoa (int (length content)))\<rparr> else w1)
      in case WriteHeader code w2 of
           None \<Rightarrow> (w2, None)
         | Some w3 \<Rightarrow> (Write content w3, Some code))"

definition OK :: "writer \<Rightarrow> writer \<times> int option" where
  "OK w = Reply w 200 '''' []"

definition Created :: "writer \<Rightarrow> writer \<times> int option" where
  "Created w = Reply w 201 '''' []"

definition NoContent :: "writer \<Rightarrow> writer \<times> int option" where
  "NoContent w = Reply w 204 '''' []"

text \<open>\<open>fmt.Sprintf("%s", err)\<close> prints a nil error as \<open>%!s(<nil>)\<close>.\<close>

definition err_text :: "string option \<Rightarrow> string" where
  "err_text err = (case err of None \<Rightarrow> ''%!s(<nil>)'' | Some m \<Rightarrow> m)"

definition Error :: "writer \<Rightarrow> string option \<Rightarrow> int \<Rightarrow> writer \<times> int option" where
  "Error w err code = Reply w code ''application/json''
     ([CHR ''{'', CHR 0x22] @ ''error'' @ [CHR 0x22, CHR '':'', CHR 0x22] @ err_text err @ [CHR 0x22, CHR ''}''])"

definition JSONCode :: "writer \<Rightarrow> string \<Rightarrow> int \<Rightarrow> writer \<times> int option" where
  "JSONCode w str code = Reply w code ''application/json'' str"

definition JSON :: "writer \<Rightarrow> string \<Rightarrow> writer \<times> int option" where
  "JSON w str = JSONCode w str 200"

definition marshalled :: "('o \<Rightarrow> string option) \<Rightarrow> 'o \<Rightarrow> string" where
  "marshalled marshal obj = (case marshal obj of None \<Rightarrow> [] | Some b \<Rightarrow> b)"

definition Object :: "('o \<Rightarrow> string option) \<Rightarrow> writer \<Rightarrow> 'o \<Rightarrow> writer \<times> int option" where
  "Object marshal w obj = Reply w 200 ''application/json'' (marshalled marshal obj)"

definition ObjectCode :: "('o \<Rightarrow> string option) \<Rightarrow> writer \<Rightarrow> 'o \<Rightarrow> int \<Rightarrow> writer \<times> int option" where
  "ObjectCode marshal w obj code = Reply w code ''application/json'' (marshalled marshal obj)"

definition String :: "writer \<Rightarrow> string \<Rightarrow> writer \<times> int option" where
  "String w str = Reply w 200 ''text/plain'' str"

subsection \<open>Facts\<close>

text \<open>A writer to which nothing was written yet; headers may be set.\<close>

definition unsent :: "writer \<Rightarrow> bool" where
  "unsent w \<longleftrightarrow> status w = None \<and> written w = 0 \<and> body w = [] \<and> Header_Get (hdr w) ''Content-Length'' = ''''"

lemma unsent_new [simp]: "unsent new_writer"
  by (simp add: unsent_def new_writer_def Header_Get_def)

lemma Header_Get_Set: "Header_Get (Header_Set h k v) j =
    (if CanonicalHeaderKey j = CanonicalHeaderKey k then v else Header_Get h j)"
  by (simp add: Header_Get_def Header_Set_def)

lemma content_length_set:
  assumes "0 \<le> n" and "in_int64 n"
  shows "content_length (Header_Set h ''Content-Length'' (Itoa n)) = Some n"
  using assms by (simp add: content_length_def Header_Get_Set ParseInt_Itoa)

lemma content_length_none: "Header_Get h ''Content-Length'' = '''' \<Longrightarrow> content_length h = None"
  by (simp add: content_length_def)

definition reply_headers :: "header \<Rightarrow> string \<Rightarrow> string \<Rightarrow> header" where
  "reply_headers h ct content =
     (let h1 = (if ct \<noteq> '''' then Header_Set h ''Content-Type'' ct else h)
      in if content \<noteq> [] then Header_Set h1 ''Content-Length'' (Itoa (int (length content))) else h1)"

lemma content_length_reply:
  assumes "Header_Get h ''Content-Length'' = ''''" and "int (length content) \<le> max_int64"
  shows "content_length (reply_headers h ct content) = (if content = [] then None else Some (int (length content)))"
  using assms by (auto simp: reply_headers_def Let_def content_length_set content_length_none
      Header_Get_Set in_int64_def min_int64_def)

lemma Reply_unfold:
  "Reply w code ct content = (let w2 = w\<lparr>hdr := reply_headers (hdr w) ct content\<rparr> in
     case WriteHeader code w2 of None \<Rightarrow> (w2, None) | Some w3 \<Rightarrow> (Write content w3, Some code))"
  by (cases w) (simp add: Reply_def reply_headers_def Let_def split: option.split)

lemma Reply_fresh:
  assumes "unsent w" and "200 \<le> code" and "code \<le> 999" and "int (length content) \<le> max_int64"
  shows "status (fst (Reply w code ct content)) = Some code \<and> snd (Reply w code ct content) = Some code \<and>
    sent (fst (Reply w code ct content)) = sent_headers code (reply_headers (hdr w) ct content) \<and>
    body (fst (Reply w code ct content)) = (if bodyAllowed code then content else [])"
proof -
  let ?w = "w\<lparr>hdr := reply_headers (hdr w) ct content, status := Some code,
    sent := sent_headers code (reply_headers (hdr w) ct content), declared := content_length (reply_headers (hdr w) ct content)\<rparr>"
  have cl: "content_length (reply_headers (hdr w) ct content) = (if content = [] then None else Some (int (length content)))"
    using assms(1,4) by (intro content_length_reply) (auto simp: unsent_def)
  have st: "status ?w = Some code" by simp
  have "Reply w code ct content = (Write content ?w, Some code)"
    using assms by (simp add: Reply_unfold Let_def WriteHeader_first unsent_def)
  moreover have "body (Write content ?w) = (if bodyAllowed code then content else [])"
  proof (cases "bodyAllowed code")
    case True
    then show ?thesis using Write_body [OF st True, of content] cl assms(1) by (auto simp: unsent_def)
  next
    case False
    then show ?thesis using Write_no_body [OF st False] assms(1) by (simp add: unsent_def)
  qed
  ultimately show ?thesis using Write_status [OF st, of content] Write_sent [OF st, of content] by simp
qed

text \<open>The text of an error is not escaped: one with quotes adds members to the object.\<close>

lemma error_text_adds_members:
  "Error w (Some (x @ [CHR 0x22, CHR '','', CHR 0x22] @ k @ [CHR 0x22, CHR '':'', CHR 0x22] @ y)) code =
     JSONCode w ([CHR ''{'', CHR 0x22] @ ''error'' @ [CHR 0x22, CHR '':'', CHR 0x22] @ x @ [CHR 0x22, CHR '','', CHR 0x22] @ k @
       [CHR 0x22, CHR '':'', CHR 0x22] @ y @ [CHR 0x22, CHR ''}'']) code"
  by (simp add: Error_def JSONCode_def err_text_def)

subsection \<open>Properties\<close>

text \<open>
  C27: on a writer to which nothing was sent, \<open>Reply\<close> sends the given code and returns
  it.  With a code that allows a body, the content type is sent if it is not empty, a
  \<open>Content-Length\<close> equal to the length of the content if there is content, and the
  content as the body; with 204 and 304 the body and the length are not sent, and with 304
  the content type neither.
\<close>

theorem Reply_sends:
  assumes "unsent w" and "200 \<le> code" and "code \<le> 999" and "int (length content) \<le> max_int64"
  shows "status (fst (Reply w code ct content)) = Some code \<and> snd (Reply w code ct content) = Some code \<and>
    body (fst (Reply w code ct content)) = (if bodyAllowed code then content else []) \<and>
    (ct \<noteq> '''' \<longrightarrow> Header_Get (sent (fst (Reply w code ct content))) ''Content-Type'' = (if code = 304 then '''' else ct)) \<and>
    (content \<noteq> [] \<longrightarrow> (if bodyAllowed code
       then Atoi (Header_Get (sent (fst (Reply w code ct content))) ''Content-Length'') = (int (length content), None)
       else Header_Get (sent (fst (Reply w code ct content))) ''Content-Length'' = ''''))"
proof -
  have "bodyAllowed 304 = False" by (simp add: bodyAllowed_def)
  then show ?thesis
    using Reply_fresh [OF assms, of ct] assms(4)
    by (auto simp: sent_headers_get suppressedHeaders_def reply_headers_def Let_def Header_Get_Set Atoi_Itoa in_int64_def min_int64_def)
qed

theorem Reply_sends_witness:
  "body (fst (Reply new_writer 200 ''text/plain'' ''hi'')) = ''hi'' \<and>
   Header_Get (sent (fst (Reply new_writer 200 ''text/plain'' ''hi''))) ''Content-Type'' = ''text/plain'' \<and>
   Header_Get (sent (fst (Reply new_writer 204 ''text/plain'' ''hi''))) ''Content-Length'' = ''''"
  using Reply_sends [of new_writer 200 "''hi''" "''text/plain''"] Reply_sends [of new_writer 204 "''hi''" "''text/plain''"]
  by (simp add: max_int64_def bodyAllowed_def)

text \<open>
  A second reply on the same writer, such as the error reply of the framework
  after a handler that already answered with content and then returned an error, has no
  effect the client can see: status, headers and body stay those of the first.
\<close>

theorem Reply_twice:
  assumes "unsent w" and "200 \<le> code" and "code \<le> 999" and "0 < length content"
    and "int (length content) \<le> max_int64" and "bodyAllowed code"
  shows "status (fst (Error (fst (Reply w code ct content)) err code2)) = Some code \<and>
    sent (fst (Error (fst (Reply w code ct content)) err code2)) = sent (fst (Reply w code ct content)) \<and>
    body (fst (Error (fst (Reply w code ct content)) err code2)) = content"
proof -
  let ?v = "fst (Reply w code ct content)"
  let ?h = "reply_headers (hdr w) ct content"
  have st: "status ?v = Some code" and b: "body ?v = content"
    using Reply_fresh [OF assms(1,2,3,5), of ct] assms(6) by simp_all
  have cl: "content_length ?h = Some (int (length content))"
    using content_length_reply [of "hdr w" content ct] assms(1,4,5) by (auto simp: unsent_def)
  have v: "?v = Write content (w\<lparr>hdr := ?h, status := Some code, sent := sent_headers code ?h, declared := content_length ?h\<rparr>)"
    using assms by (simp add: Reply_unfold Let_def WriteHeader_first unsent_def)
  have "declared ?v = Some (int (length content))" and "written ?v = int (length content)"
    using assms(1,4,6) unfolding v
    by (auto simp: Write_def WriteHeader_again Let_def cl unsent_def split: option.splits)
  then have "body (Write bs (?v\<lparr>hdr := h\<rparr>)) = body ?v" for bs h
    using Write_body_cut [of "?v\<lparr>hdr := h\<rparr>" code "int (length content)" bs] st by simp
  then show ?thesis using st b
    by (simp add: Error_def Reply_unfold Let_def WriteHeader_again Write_status Write_sent)
qed

theorem Reply_twice_witness:
  "body (fst (Error (fst (Reply new_writer 200 ''text/plain'' ''hi'')) (Some ''late'') 500)) = ''hi''
   \<and> status (fst (Error (fst (Reply new_writer 200 ''text/plain'' ''hi'')) (Some ''late'') 500)) = Some 200"
  using Reply_twice [of new_writer 200 "''hi''" "''text/plain''" "Some ''late''" 500]
  by (simp add: max_int64_def bodyAllowed_def)

end
