(* ===== verification/Connections.thy ===== *)
theory Connections
  imports GoStrings
begin

text \<open>
  The two connection counters of the repository: the server-side
  \<open>ConnectionWatcher\<close> (src/httpserver/connection\_watcher.go), driven by the
  connection states of \<open>net/http\<close>, and the client-side counting transport
  (src/conncount/transport.go), which wraps dialers and connections.  Their methods run on
  many goroutines without a lock, so a method is here the list of its atomic operations -
  one atomic addition or load, one call of a metric, the callback or the logger - and a
  step relation interleaves those of all connections.  What both promise is the locale
  \<open>conn_counter\<close>: the counter is what the phases of the connections say, up to the
  operations that are still to be done.  Connection numbers stay far below the largest
  \<open>int64\<close>, so the counters are not wrapped.
\<close>

subsection \<open>Interleaved calls\<close>

text \<open>
  A connection is unseen, then open, then gone.  The state of all goroutines is the shared
  state, the phase of every connection, the operations that the call on it has still to do,
  and the local variable of that call.
\<close>

datatype conn_phase = Unseen | Open | Gone

record ('s, 'c, 'o) pool =
  shared :: 's
  phase_of :: "'c \<Rightarrow> conn_phase"
  todo :: "'c \<Rightarrow> 'o list"
  local_var :: "'c \<Rightarrow> int"

definition pool_start :: "'s \<Rightarrow> ('s, 'c, 'o) pool" where
  "pool_start s = \<lparr>shared = s, phase_of = (\<lambda>_. Unseen), todo = (\<lambda>_. []), local_var = (\<lambda>_. 0)\<rparr>"

text \<open>
  \<open>exec\<close> does one operation on the shared state and the local variable, \<open>life\<close> says which
  calls may happen in a phase and what phase they lead to, \<open>prog\<close> are the operations of a
  call.  The calls on one connection follow one another; those on different ones overlap.
\<close>

inductive pool_step :: "('o \<Rightarrow> 's \<times> int \<Rightarrow> 's \<times> int) \<Rightarrow> (conn_phase \<Rightarrow> 'e \<Rightarrow> conn_phase option) \<Rightarrow>
    (conn_phase \<Rightarrow> 'c \<Rightarrow> 'e \<Rightarrow> 'o list) \<Rightarrow> ('s, 'c, 'o) pool \<Rightarrow> ('s, 'c, 'o) pool \<Rightarrow> bool" for exec life prog where
  called: "\<lbrakk>todo p c = []; life (phase_of p c) e = Some ph\<rbrakk> \<Longrightarrow>
    pool_step exec life prog p (p\<lparr>phase_of := (phase_of p)(c := ph), todo := (todo p)(c := prog (phase_of p c) c e)\<rparr>)"
| atomic: "\<lbrakk>todo p c = op # ops; exec op (shared p, local_var p c) = (s, n)\<rbrakk> \<Longrightarrow>
    pool_step exec life prog p (p\<lparr>shared := s, local_var := (local_var p)(c := n), todo := (todo p)(c := ops)\<rparr>)"

definition quiet :: "('s, 'c, 'o) pool \<Rightarrow> bool" where
  "quiet p \<longleftrightarrow> (\<forall>c. todo p c = [])"

definition seen :: "('s, 'c, 'o) pool \<Rightarrow> 'c set" where
  "seen p = {c. phase_of p c \<noteq> Unseen \<or> todo p c \<noteq> []}"

definition open_conns :: "('s, 'c, 'o) pool \<Rightarrow> 'c set" where
  "open_conns p = {c. phase_of p c = Open}"

text \<open>A call that no other one interrupts, and a run along a given schedule.\<close>

definition run_alone :: "('o \<Rightarrow> 's \<times> int \<Rightarrow> 's \<times> int) \<Rightarrow> 'o list \<Rightarrow> 's \<Rightarrow> 's" where
  "run_alone exec ops s = fst (fold exec ops (s, 0))"

fun schedule :: "('o \<Rightarrow> 's \<times> int \<Rightarrow> 's \<times> int) \<Rightarrow> (conn_phase \<Rightarrow> 'e \<Rightarrow> conn_phase option) \<Rightarrow>
    (conn_phase \<Rightarrow> 'c \<Rightarrow> 'e \<Rightarrow> 'o list) \<Rightarrow> ('s, 'c, 'o) pool \<Rightarrow> ('c \<times> 'e option) list \<Rightarrow> ('s, 'c, 'o) pool option" where
  "schedule exec life prog p [] = Some p"
| "schedule exec life prog p ((c, Some e) # es) =
     (if todo p c = [] then
        (case life (phase_of p c) e of
           None \<Rightarrow> None
         | Some ph \<Rightarrow> schedule exec life prog
             (p\<lparr>phase_of := (phase_of p)(c := ph), todo := (todo p)(c := prog (phase_of p c) c e)\<rparr>) es)
      else None)"
| "schedule exec life prog p ((c, None) # es) = (case todo p c of
     [] \<Rightarrow> None
   | op # ops \<Rightarrow> (case exec op (shared p, local_var p c) of (s, n) \<Rightarrow>
       schedule exec life prog (p\<lparr>shared := s, local_var := (local_var p)(c := n), todo := (todo p)(c := ops)\<rparr>) es))"

lemma schedule_reachable:
  "schedule exec life prog p es = Some q \<Longrightarrow> (pool_step exec life prog)\<^sup>*\<^sup>* p q"
proof (induction exec life prog p es rule: schedule.induct)
  case (2 exec life prog p c e es)
  then obtain ph where h: "todo p c = []" "life (phase_of p c) e = Some ph"
    and q: "schedule exec life prog (p\<lparr>phase_of := (phase_of p)(c := ph), todo := (todo p)(c := prog (phase_of p c) c e)\<rparr>) es = Some q"
    by (auto split: if_splits option.splits)
  from "2.IH" [OF h q] pool_step.called [where life = life and exec = exec and prog = prog, OF h] show ?case by (meson converse_rtranclp_into_rtranclp)
next
  case (3 exec life prog p c es)
  then obtain op ops s n where h: "todo p c = op # ops" "exec op (shared p, local_var p c) = (s, n)"
    and q: "schedule exec life prog (p\<lparr>shared := s, local_var := (local_var p)(c := n), todo := (todo p)(c := ops)\<rparr>) es = Some q"
    by (auto split: list.splits prod.splits)
  from "3.IH" [OF h(1) h(2) [symmetric] q] pool_step.atomic [where exec = exec and life = life and prog = prog, OF h] show ?case
    by (meson converse_rtranclp_into_rtranclp)
qed simp

subsection \<open>The contract\<close>

text \<open>
  A figure \<open>count\<close> of the shared state, what each operation adds to it, and how much a
  connection in a phase contributes.
\<close>

locale conn_counter =
  fixes exec :: "'o \<Rightarrow> 's \<times> int \<Rightarrow> 's \<times> int"
    and life :: "conn_phase \<Rightarrow> 'e \<Rightarrow> conn_phase option"
    and prog :: "conn_phase \<Rightarrow> 'c \<Rightarrow> 'e \<Rightarrow> 'o list"
    and count :: "'s \<Rightarrow> int"
    and delta :: "'o \<Rightarrow> int"
    and weight :: "conn_phase \<Rightarrow> int"
  assumes exec_counts: "exec op (s, n) = (s', n') \<Longrightarrow> count s' = count s + delta op"
    and prog_counts: "life ph e = Some ph' \<Longrightarrow> sum_list (map delta (prog ph c e)) = weight ph' - weight ph"
    and weight_unseen: "weight Unseen = 0"
begin

definition share :: "('s, 'c, 'o) pool \<Rightarrow> 'c \<Rightarrow> int" where
  "share p c = weight (phase_of p c) - sum_list (map delta (todo p c))"

definition accounts :: "('s, 'c, 'o) pool \<Rightarrow> bool" where
  "accounts p \<longleftrightarrow> finite (seen p) \<and> count (shared p) = sum (share p) (seen p)"

lemma share_unseen: "c \<notin> seen p \<Longrightarrow> share p c = 0"
  by (simp add: seen_def share_def weight_unseen)

lemma accounts_step:
  assumes "pool_step exec life prog p q" and "accounts p"
  shows "accounts q"
proof -
  from assms(2) have fin: "finite (insert c (seen p))" for c by (simp add: accounts_def)
  have old: "sum (share p) (insert c (seen p)) = count (shared p)" for c
    using assms(2) share_unseen [of c p] by (cases "c \<in> seen p") (auto simp: accounts_def insert_absorb)
  have widen: "accounts q" if "seen q \<subseteq> insert c (seen p)" "sum (share q) (insert c (seen p)) = count (shared q)" for c
    using that fin [of c] sum.mono_neutral_left [OF fin that(1), of "share q"] share_unseen [of _ q]
    by (auto simp: accounts_def intro: finite_subset)
  from assms(1) show ?thesis
  proof (cases rule: pool_step.cases)
    case (called c e ph)
    have "share q = share p"
      using called prog_counts [OF called(3), of c] by (auto simp: share_def fun_eq_iff)
    then show ?thesis using called(1) old [of c] by (intro widen [of c]) (auto simp: seen_def)
  next
    case (atomic c op ops s n)
    have "sum (share q) (seen p - {c}) = sum (share p) (seen p - {c})"
      using atomic(1) by (intro sum.cong) (auto simp: share_def)
    moreover have "share q c = share p c + delta op" using atomic by (simp add: share_def)
    ultimately have "sum (share q) (insert c (seen p)) = sum (share p) (insert c (seen p)) + delta op"
      using fin [of c] by (simp add: sum.insert_remove)
    then show ?thesis using atomic(1,2) old [of c] exec_counts [OF atomic(3)]
      by (intro widen [of c]) (auto simp: seen_def)
  qed
qed

lemma accounts_reachable:
  assumes "(pool_step exec life prog)\<^sup>*\<^sup>* (pool_start s) p" and "count s = 0"
  shows "accounts p"
  using assms(1)
proof (induction rule: rtranclp_induct)
  case base
  then show ?case using assms(2) by (simp add: accounts_def pool_start_def seen_def)
qed (rule accounts_step)

lemma quiet_count:
  assumes "(pool_step exec life prog)\<^sup>*\<^sup>* (pool_start s) p" and "count s = 0" and "quiet p"
  shows "finite {c. phase_of p c \<noteq> Unseen} \<and> count (shared p) = (\<Sum>c | phase_of p c \<noteq> Unseen. weight (phase_of p c))"
  using accounts_reachable [OF assms(1,2)] assms(3) by (simp add: accounts_def share_def quiet_def seen_def)

end

text \<open>A counter of open connections: at every moment a connection has been counted once or not at all.\<close>

locale open_counter = conn_counter +
  assumes weight_open: "weight ph = of_bool (ph = Open)"
    and prog_once: "life ph e = Some ph' \<Longrightarrow> 0 \<le> weight ph' - sum_list (map delta (drop k (prog ph c e)))"
begin

lemma todo_once:
  assumes "(pool_step exec life prog)\<^sup>*\<^sup>* (pool_start s) p"
  shows "0 \<le> weight (phase_of p c) - sum_list (map delta (drop k (todo p c)))"
  using assms
proof (induction arbitrary: c k rule: rtranclp_induct)
  case base
  then show ?case by (simp add: pool_start_def weight_open)
next
  case (step p q)
  from step(2) show ?case
  proof (cases rule: pool_step.cases)
    case (called d e ph)
    then show ?thesis using step.IH [of c k] prog_once [OF called(3), of k d] by auto
  next
    case (atomic d op ops s n)
    then show ?thesis using step.IH [of c k] step.IH [of d "Suc k"] by auto
  qed
qed

text \<open>Every settled open connection is counted, whatever the other goroutines are doing.\<close>

lemma settled_counted:
  assumes "(pool_step exec life prog)\<^sup>*\<^sup>* (pool_start s) p" and "count s = 0"
  shows "finite (open_conns p) \<and> int (card {c. phase_of p c = Open \<and> todo p c = []}) \<le> count (shared p)"
proof -
  note ac = accounts_reachable [OF assms]
  let ?S = "{c. phase_of p c = Open \<and> todo p c = []}"
  have sub: "?S \<subseteq> seen p" and fin: "finite (seen p)" using ac by (auto simp: seen_def accounts_def)
  have "int (card ?S) = sum (share p) ?S" by (simp add: share_def weight_open)
  also have "\<dots> \<le> sum (share p) (seen p)"
    using todo_once [OF assms(1), of _ 0] by (intro sum_mono2 fin sub) (simp add: share_def)
  finally show ?thesis using ac fin by (auto simp: accounts_def seen_def open_conns_def elim: rev_finite_subset)
qed

lemma quiet_open:
  assumes "(pool_step exec life prog)\<^sup>*\<^sup>* (pool_start s) p" and "count s = 0" and "quiet p"
  shows "count (shared p) = int (card (open_conns p))"
proof -
  have "{c. phase_of p c \<noteq> Unseen} \<inter> {c. phase_of p c = Open} = open_conns p" by (auto simp: open_conns_def)
  then show ?thesis using quiet_count [OF assms] by (simp add: weight_open)
qed

end

subsection \<open>ConnectionWatcher\<close>

datatype ConnState = StateNew | StateActive | StateIdle | StateHijacked | StateClosed

record ConnectionWatcher =
  currentlyOpen :: int
  incomingConnectionsGauge :: int
  incomingConnectionsOpened :: int
  incomingConnectionsClosed :: int
  watcher_log :: "string list"

definition NewConnectionWatcher :: ConnectionWatcher where
  "NewConnectionWatcher = \<lparr>currentlyOpen = 0, incomingConnectionsGauge = 0,
     incomingConnectionsOpened = 0, incomingConnectionsClosed = 0, watcher_log = []\<rparr>"

text \<open>
  The atomic operations of the watcher: the addition, whose result is the local variable,
  the metrics, the logger.
\<close>

datatype watch_op = AddInt64 int | GaugeSet | OpenedInc | ClosedInc | DebugLog string

fun watch_exec :: "watch_op \<Rightarrow> ConnectionWatcher \<times> int \<Rightarrow> ConnectionWatcher \<times> int" where
  "watch_exec (AddInt64 d) (cw, n) = (cw\<lparr>currentlyOpen := currentlyOpen cw + d\<rparr>, currentlyOpen cw + d)"
| "watch_exec GaugeSet (cw, n) = (cw\<lparr>incomingConnectionsGauge := n\<rparr>, n)"
| "watch_exec OpenedInc (cw, n) = (cw\<lparr>incomingConnectionsOpened := incomingConnectionsOpened cw + 1\<rparr>, n)"
| "watch_exec ClosedInc (cw, n) = (cw\<lparr>incomingConnectionsClosed := incomingConnectionsClosed cw + 1\<rparr>, n)"
| "watch_exec (DebugLog t) (cw, n) = (cw\<lparr>watcher_log := watcher_log cw @ [t]\<rparr>, n)"

definition OnStateChange :: "string \<Rightarrow> ConnState \<Rightarrow> watch_op list" where
  "OnStateChange remote st = (case st of
      StateNew \<Rightarrow> [AddInt64 1, GaugeSet, OpenedInc, DebugLog (''new incoming connection opened from '' @ remote)]
    | StateHijacked \<Rightarrow> [AddInt64 (-1), GaugeSet, ClosedInc, DebugLog (''incoming connection closed from '' @ remote)]
    | StateClosed \<Rightarrow> [AddInt64 (-1), GaugeSet, ClosedInc, DebugLog (''incoming connection closed from '' @ remote)]
    | StateActive \<Rightarrow> []
    | StateIdle \<Rightarrow> [])"

definition Count :: "ConnectionWatcher \<Rightarrow> int" where
  "Count cw = currentlyOpen cw"

text \<open>
  The states of a connection as \<open>net/http\<close> reports them, one after the other: new first,
  then active or idle any number of times, then one of the two final states.  A connection
  is named by its remote address and a serial number.
\<close>

type_synonym conn_id = "string \<times> nat"

fun server_life :: "conn_phase \<Rightarrow> ConnState \<Rightarrow> conn_phase option" where
  "server_life Unseen StateNew = Some Open"
| "server_life Open StateActive = Some Open"
| "server_life Open StateIdle = Some Open"
| "server_life Open StateHijacked = Some Gone"
| "server_life Open StateClosed = Some Gone"
| "server_life _ _ = None"

abbreviation watching :: "(ConnectionWatcher, conn_id, watch_op) pool \<Rightarrow> (ConnectionWatcher, conn_id, watch_op) pool \<Rightarrow> bool" where
  "watching \<equiv> pool_step watch_exec server_life (\<lambda>_ c st. OnStateChange (fst c) st)"

fun open_delta :: "watch_op \<Rightarrow> int" where
  "open_delta (AddInt64 d) = d"
| "open_delta _ = 0"

fun total_delta :: "watch_op \<Rightarrow> int" where
  "total_delta OpenedInc = 1"
| "total_delta ClosedInc = -1"
| "total_delta _ = 0"

lemma server_life_cases:
  assumes "server_life ph st = Some ph'"
  obtains "ph = Unseen" "st = StateNew" "ph' = Open" | "ph = Open" "st = StateActive" "ph' = Open" | "ph = Open" "st = StateIdle" "ph' = Open"
    | "ph = Open" "st = StateHijacked" "ph' = Gone" | "ph = Open" "st = StateClosed" "ph' = Gone"
  using assms by (cases "(ph, st)" rule: server_life.cases) auto

lemma watch_exec_deltas:
  assumes "watch_exec op (cw, n) = (cw', n')"
  shows "Count cw' = Count cw + open_delta op"
    "incomingConnectionsOpened cw' - incomingConnectionsClosed cw' = incomingConnectionsOpened cw - incomingConnectionsClosed cw + total_delta op"
  using assms by (cases op; auto simp: Count_def)+

interpretation watcher: open_counter watch_exec server_life "\<lambda>_ c st. OnStateChange (fst (c :: conn_id)) st" Count open_delta
  "\<lambda>ph. of_bool (ph = Open)"
proof
  fix ph ph' :: conn_phase and st :: ConnState and c :: conn_id and k :: nat
  assume "server_life ph st = Some ph'"
  then show "0 \<le> of_bool (ph' = Open) - sum_list (map open_delta (drop k (OnStateChange (fst c) st)))"
    by (cases rule: server_life_cases) (auto simp: OnStateChange_def drop_Cons split: nat.split)
qed (auto simp: watch_exec_deltas OnStateChange_def elim: server_life_cases)

interpretation totals: conn_counter watch_exec server_life "\<lambda>_ c st. OnStateChange (fst (c :: conn_id)) st"
  "\<lambda>cw. incomingConnectionsOpened cw - incomingConnectionsClosed cw" total_delta "\<lambda>ph. of_bool (ph = Open)"
  by unfold_locales (auto simp: watch_exec_deltas OnStateChange_def elim: server_life_cases)

subsection \<open>The counting transport\<close>

text \<open>
  A dialer is a function that may be absent in the wrapped transport; what a dial gives is
  an error or a connection.  \<open>tr_calls\<close> records the values passed to the callback.
\<close>

record Transport =
  connCounter :: int
  tr_calls :: "int list"
  tr_log :: "string list"

datatype tran_op = AddCounter int | LoadCounter | Callback | LogConn string

fun tran_exec :: "tran_op \<Rightarrow> Transport \<times> int \<Rightarrow> Transport \<times> int" where
  "tran_exec (AddCounter d) (t, n) = (t\<lparr>connCounter := connCounter t + d\<rparr>, n)"
| "tran_exec LoadCounter (t, n) = (t, connCounter t)"
| "tran_exec Callback (t, n) = (t\<lparr>tr_calls := tr_calls t @ [n]\<rparr>, n)"
| "tran_exec (LogConn l) (t, n) = (t\<lparr>tr_log := tr_log t @ [l]\<rparr>, n)"

record ('a, 'e, 'c) http_transport =
  DialContext :: "('a \<Rightarrow> 'e + 'c) option"
  Dial :: "('a \<Rightarrow> 'e + 'c) option"
  DialTLSContext :: "('a \<Rightarrow> 'e + 'c) option"
  DialTLS :: "('a \<Rightarrow> 'e + 'c) option"

definition getPreviousDialer :: "('a \<Rightarrow> 'e + 'c) \<Rightarrow> ('a, 'e, 'c) http_transport \<Rightarrow> ('a \<Rightarrow> 'e + 'c) option" where
  "getPreviousDialer dflt t = (case DialContext t of
      Some d \<Rightarrow> Some d
    | None \<Rightarrow> (case Dial t of Some d \<Rightarrow> Some d | None \<Rightarrow> Some dflt))"

definition getPreviousTLSDialer :: "('a, 'e, 'c) http_transport \<Rightarrow> ('a \<Rightarrow> 'e + 'c) option" where
  "getPreviousTLSDialer t = (case DialTLSContext t of
      Some d \<Rightarrow> Some d
    | None \<Rightarrow> (case DialTLS t of Some d \<Rightarrow> Some d | None \<Rightarrow> None))"

text \<open>The closure that \<open>dialWithCounter\<close> returns: its result and its operations.\<close>

definition counted_dial :: "('a \<Rightarrow> 'e + 'c) \<Rightarrow> 'a \<Rightarrow> ('e + 'c) \<times> tran_op list" where
  "counted_dial prev addr = (case prev addr of
      Inl err \<Rightarrow> (Inl err, [LogConn ''connection open''])
    | Inr conn \<Rightarrow> (Inr conn, [LogConn ''connection open'', AddCounter 1, LoadCounter, Callback]))"

definition dialWithCounter :: "('a \<Rightarrow> 'e + 'c) option \<Rightarrow> ('a \<Rightarrow> ('e + 'c) \<times> tran_op list) option" where
  "dialWithCounter prev = (case prev of None \<Rightarrow> None | Some d \<Rightarrow> Some (counted_dial d))"

definition NewTransport :: "('a \<Rightarrow> 'e + 'c) \<Rightarrow> ('a, 'e, 'c) http_transport \<Rightarrow> Transport \<times>
    ('a \<Rightarrow> ('e + 'c) \<times> tran_op list) option \<times> ('a \<Rightarrow> ('e + 'c) \<times> tran_op list) option" where
  "NewTransport dflt prev =
     (\<lparr>connCounter = 0, tr_calls = [], tr_log = []\<rparr>,
      dialWithCounter (getPreviousDialer dflt prev), dialWithCounter (getPreviousTLSDialer prev))"

text \<open>
  \<open>Close\<close> counts down once per connection, whatever the wrapped \<open>Close\<close> returns; \<open>closed\<close>
  says that \<open>closeOnce\<close> has run.  A second call waits for the first one to leave it.
\<close>

definition Close :: "'e option \<Rightarrow> bool \<Rightarrow> 'e option \<times> tran_op list" where
  "Close err closed =
     (err, if closed then [] else [AddCounter (- 1), LoadCounter, Callback, LogConn ''connection closed''])"

text \<open>
  The calls of a client: a dial whose wrapped dialer fails or gives the connection, and any
  number of calls of \<open>Close\<close> on a connection, with what the wrapped \<open>Close\<close> returns.
\<close>

datatype 'e client_call = Dialled "'e option" | CloseCalled "'e option"

fun client_life :: "conn_phase \<Rightarrow> 'e client_call \<Rightarrow> conn_phase option" where
  "client_life Unseen (Dialled None) = Some Open"
| "client_life Unseen (Dialled (Some err)) = Some Unseen"
| "client_life Open (CloseCalled err) = Some Gone"
| "client_life Gone (CloseCalled err) = Some Gone"
| "client_life _ _ = None"

fun client_ops :: "conn_phase \<Rightarrow> 'c \<Rightarrow> 'e client_call \<Rightarrow> tran_op list" where
  "client_ops ph c (Dialled r) = snd (counted_dial (\<lambda>_ :: unit. case r of None \<Rightarrow> Inr c | Some err \<Rightarrow> Inl err) ())"
| "client_ops ph c (CloseCalled err) = snd (Close err (ph = Gone))"

abbreviation dialing :: "'e itself \<Rightarrow> (Transport, 'c, tran_op) pool \<Rightarrow> (Transport, 'c, tran_op) pool \<Rightarrow> bool" where
  "dialing TYPE('e) \<equiv> pool_step tran_exec (client_life :: conn_phase \<Rightarrow> 'e client_call \<Rightarrow> _) client_ops"

fun counter_delta :: "tran_op \<Rightarrow> int" where
  "counter_delta (AddCounter d) = d"
| "counter_delta _ = 0"

fun call_delta :: "tran_op \<Rightarrow> int" where
  "call_delta Callback = 1"
| "call_delta _ = 0"

fun call_weight :: "conn_phase \<Rightarrow> int" where
  "call_weight Unseen = 0"
| "call_weight Open = 1"
| "call_weight Gone = 2"

lemma client_life_cases:
  assumes "client_life ph e = Some ph'"
  obtains "ph = Unseen" "e = Dialled None" "ph' = Open" | err where "ph = Unseen" "e = Dialled (Some err)" "ph' = Unseen"
    | err where "ph = Open" "e = CloseCalled err" "ph' = Gone" | err where "ph = Gone" "e = CloseCalled err" "ph' = Gone"
  using assms by (cases "(ph, e)" rule: client_life.cases) auto

lemma tran_exec_deltas:
  assumes "tran_exec op (t, n) = (t', n')"
  shows "connCounter t' = connCounter t + counter_delta op"
    "int (length (tr_calls t')) = int (length (tr_calls t)) + call_delta op"
  using assms by (cases op; auto)+

interpretation transport: open_counter tran_exec "client_life :: conn_phase \<Rightarrow> 'e client_call \<Rightarrow> conn_phase option"
  "client_ops :: conn_phase \<Rightarrow> 'c \<Rightarrow> 'e client_call \<Rightarrow> tran_op list" connCounter counter_delta "\<lambda>ph. of_bool (ph = Open)"
proof
  fix ph ph' :: conn_phase and e :: "'e client_call" and c :: 'c and k :: nat
  assume "client_life ph e = Some ph'"
  then show "0 \<le> of_bool (ph' = Open) - sum_list (map counter_delta (drop k (client_ops ph c e)))"
    by (cases rule: client_life_cases) (auto simp: counted_dial_def Close_def drop_Cons split: nat.split)
qed (auto simp: tran_exec_deltas counted_dial_def Close_def elim: client_life_cases)

interpretation callbacks: conn_counter tran_exec "client_life :: conn_phase \<Rightarrow> 'e client_call \<Rightarrow> conn_phase option"
  "client_ops :: conn_phase \<Rightarrow> 'c \<Rightarrow> 'e client_call \<Rightarrow> tran_op list" "\<lambda>t. int (length (tr_calls t))" call_delta call_weight
  by unfold_locales (auto simp: tran_exec_deltas counted_dial_def Close_def elim: client_life_cases)

subsection \<open>Properties\<close>

lemma gauge_alone:
  assumes "st \<in> {StateNew, StateHijacked, StateClosed}"
  shows "incomingConnectionsGauge (run_alone watch_exec (OnStateChange remote st) cw) =
    Count (run_alone watch_exec (OnStateChange remote st) cw)"
  using assms by (auto simp: run_alone_def OnStateChange_def Count_def)

text \<open>
  C21: in every state that the interleaved state changes of any connections lead to, each
  in its own sequence of new, active, idle, hijacked or closed, the watcher's count is at
  least the number of open connections whose last change is done; when no change is under
  way it is the number of open connections exactly, and so is the difference of the two
  totals; and a change that no other one interrupts leaves the gauge at the count.
\<close>

theorem watcher_counts_open:
  assumes "watching\<^sup>*\<^sup>* (pool_start NewConnectionWatcher) p"
  shows "int (card {c. phase_of p c = Open \<and> todo p c = []}) \<le> Count (shared p) \<and>
    (quiet p \<longrightarrow> Count (shared p) = int (card (open_conns p)) \<and>
       incomingConnectionsOpened (shared p) - incomingConnectionsClosed (shared p) = int (card (open_conns p))) \<and>
    (\<forall>remote st. st \<in> {StateNew, StateHijacked, StateClosed} \<longrightarrow>
       incomingConnectionsGauge (run_alone watch_exec (OnStateChange remote st) (shared p)) =
       Count (run_alone watch_exec (OnStateChange remote st) (shared p)))"
proof -
  have z: "Count NewConnectionWatcher = 0" "incomingConnectionsOpened NewConnectionWatcher - incomingConnectionsClosed NewConnectionWatcher = 0"
    by (simp_all add: Count_def NewConnectionWatcher_def)
  have "{c. phase_of p c \<noteq> Unseen} \<inter> {c. phase_of p c = Open} = open_conns p" by (auto simp: open_conns_def)
  then have "quiet p \<Longrightarrow> incomingConnectionsOpened (shared p) - incomingConnectionsClosed (shared p) = int (card (open_conns p))"
    using totals.quiet_count [OF assms z(2)] by simp
  then show ?thesis using watcher.settled_counted [OF assms z(1)] watcher.quiet_open [OF assms z(1)] gauge_alone by simp
qed

definition sample_changes :: "(conn_id \<times> ConnState option) list" where
  "sample_changes = (let a = (''1.2.3.4'', 0); b = (''1.2.3.4'', 1); d = (''5.6.7.8'', 0) in
     [(a, Some StateNew), (b, Some StateNew), (b, None), (a, None), (a, None), (b, None), (a, None), (b, None), (a, None), (b, None),
      (a, Some StateActive), (b, Some StateIdle), (a, Some StateIdle), (a, Some StateClosed), (d, Some StateNew), (a, None), (d, None),
      (a, None), (a, None), (d, None), (a, None), (d, None), (d, None), (b, Some StateHijacked), (b, None), (b, None), (b, None), (b, None)])"

definition sample_watched :: "(ConnectionWatcher, conn_id, watch_op) pool" where
  "sample_watched = (case schedule watch_exec server_life (\<lambda>_ c st. OnStateChange (fst c) st) (pool_start NewConnectionWatcher) sample_changes
     of None \<Rightarrow> pool_start NewConnectionWatcher | Some p \<Rightarrow> p)"

lemma sample_watched_reached:
  "schedule watch_exec server_life (\<lambda>_ c st. OnStateChange (fst c) st) (pool_start NewConnectionWatcher) sample_changes = Some sample_watched"
  unfolding sample_watched_def sample_changes_def
  by (simp add: pool_start_def OnStateChange_def NewConnectionWatcher_def Let_def)

lemma sample_watched_state:
  "quiet sample_watched \<and> open_conns sample_watched = {(''5.6.7.8'', 0)} \<and> incomingConnectionsGauge (shared sample_watched) = 1"
  unfolding sample_watched_def sample_changes_def
  by (auto simp: pool_start_def OnStateChange_def NewConnectionWatcher_def Let_def quiet_def open_conns_def split: if_splits)

theorem watcher_counts_open_witness:
  "quiet sample_watched \<and> Count (shared sample_watched) = 1"
  using watcher_counts_open [OF schedule_reachable [OF sample_watched_reached]] sample_watched_state by simp

text \<open>
  The gauge itself may stay wrong: two connections are opened, and the gauge is set to
  their numbers in the other order than they were counted.
\<close>

definition gauge_race_changes :: "(conn_id \<times> ConnState option) list" where
  "gauge_race_changes = (let a = (''1.2.3.4'', 0); b = (''1.2.3.4'', 1) in
     [(a, Some StateNew), (b, Some StateNew), (a, None), (b, None), (b, None), (a, None), (a, None), (a, None), (b, None), (b, None)])"

lemma gauge_race:
  "\<exists>p. watching\<^sup>*\<^sup>* (pool_start NewConnectionWatcher) p \<and> quiet p \<and> Count (shared p) = 2 \<and> incomingConnectionsGauge (shared p) = 1"
proof -
  have "\<exists>p. schedule watch_exec server_life (\<lambda>_ c st. OnStateChange (fst c) st) (pool_start NewConnectionWatcher) gauge_race_changes = Some p \<and>
      quiet p \<and> Count (shared p) = 2 \<and> incomingConnectionsGauge (shared p) = 1"
    unfolding gauge_race_changes_def
    by (auto simp: pool_start_def OnStateChange_def NewConnectionWatcher_def Let_def quiet_def Count_def)
  then show ?thesis using schedule_reachable by blast
qed

lemma seen_phase: "ph \<noteq> Unseen \<longleftrightarrow> ph = Open \<or> ph = Gone"
  by (cases ph) auto

lemma callback_alone:
  assumes "client_life ph e = Some ph'" and "ph' \<noteq> ph"
  shows "\<exists>n. tr_calls (run_alone tran_exec (client_ops ph c e) t) = tr_calls t @ [n] \<and>
    n = connCounter (run_alone tran_exec (client_ops ph c e) t)"
  using assms by (cases rule: client_life_cases) (auto simp: run_alone_def counted_dial_def Close_def)

text \<open>
  C22: in every state that the interleaved dials and closes of a counting transport's
  clients lead to - dials that fail or give a connection, and each connection closed any
  number of times - the counter is at least the number of open connections whose dial is
  done; when no call is under way it is the number of connections dialled and not closed
  exactly, and the callback was called once for each of them and twice for each closed
  one; and a dial or a first close that no other call interrupts hands the new counter to
  the callback.
\<close>

theorem transport_counts_open:
  fixes p :: "(Transport, 'c, tran_op) pool" and prev :: "('a, 'e, 'c) http_transport"
  assumes "(dialing TYPE('e))\<^sup>*\<^sup>* (pool_start (fst (NewTransport dflt prev))) p"
  shows "int (card {c. phase_of p c = Open \<and> todo p c = []}) \<le> connCounter (shared p) \<and>
    (quiet p \<longrightarrow> connCounter (shared p) = int (card (open_conns p)) \<and>
       length (tr_calls (shared p)) = card (open_conns p) + 2 * card {c. phase_of p c = Gone}) \<and>
    (\<forall>c (e :: 'e client_call) ph. client_life (phase_of p c) e = Some ph \<and> ph \<noteq> phase_of p c \<longrightarrow>
       (\<exists>n. tr_calls (run_alone tran_exec (client_ops (phase_of p c) c e) (shared p)) = tr_calls (shared p) @ [n] \<and>
            n = connCounter (run_alone tran_exec (client_ops (phase_of p c) c e) (shared p))))"
proof -
  have z: "connCounter (fst (NewTransport dflt prev)) = 0" "int (length (tr_calls (fst (NewTransport dflt prev)))) = 0"
    by (simp_all add: NewTransport_def)
  have "length (tr_calls (shared p)) = card (open_conns p) + 2 * card {c. phase_of p c = Gone}" if "quiet p"
  proof -
    have fin: "finite {c. phase_of p c \<noteq> Unseen}"
      and n: "int (length (tr_calls (shared p))) = (\<Sum>c | phase_of p c \<noteq> Unseen. call_weight (phase_of p c))"
      using callbacks.quiet_count [OF assms z(2) that] by auto
    have parts: "{c. phase_of p c \<noteq> Unseen} = open_conns p \<union> {c. phase_of p c = Gone}" "open_conns p \<inter> {c. phase_of p c = Gone} = {}"
      by (auto simp: open_conns_def seen_phase)
    then have "(\<Sum>c | phase_of p c \<noteq> Unseen. call_weight (phase_of p c)) =
        (\<Sum>c\<in>open_conns p. call_weight (phase_of p c)) + (\<Sum>c | phase_of p c = Gone. call_weight (phase_of p c))"
      using fin by (simp add: sum.union_disjoint)
    then show ?thesis using n by (simp add: open_conns_def)
  qed
  then show ?thesis
    using transport.settled_counted [OF assms z(1), THEN conjunct2] transport.quiet_open [OF assms z(1)]
    by (intro conjI allI impI) (assumption | erule conjE, rule callback_alone | simp)+
qed

definition sample_calls :: "(nat \<times> string client_call option) list" where
  "sample_calls =
     [(0, Some (Dialled (Some ''refused''))), (1, Some (Dialled None)), (2, Some (Dialled None)), (0, None), (1, None), (2, None), (2, None),
      (1, None), (1, None), (2, None), (2, None), (1, None), (1, Some (CloseCalled None)), (1, None), (1, None), (1, None), (1, None),
      (1, Some (CloseCalled (Some ''closed'')))]"

definition sample_dialled :: "(Transport, nat, tran_op) pool" where
  "sample_dialled = (case schedule tran_exec client_life client_ops (pool_start \<lparr>connCounter = 0, tr_calls = [], tr_log = []\<rparr>) sample_calls
     of None \<Rightarrow> pool_start \<lparr>connCounter = 0, tr_calls = [], tr_log = []\<rparr> | Some p \<Rightarrow> p)"

lemma sample_dialled_reached:
  "schedule tran_exec client_life client_ops (pool_start \<lparr>connCounter = 0, tr_calls = [], tr_log = []\<rparr>) sample_calls = Some sample_dialled"
  unfolding sample_dialled_def sample_calls_def by (simp add: pool_start_def counted_dial_def Close_def)

lemma sample_dialled_state:
  "quiet sample_dialled \<and> open_conns sample_dialled = {2} \<and> {c. phase_of sample_dialled c = Gone} = {1} \<and>
   tr_calls (shared sample_dialled) = [2, 2, 1]"
  unfolding sample_dialled_def sample_calls_def
  by (auto simp: pool_start_def counted_dial_def Close_def quiet_def open_conns_def split: if_splits)

theorem transport_counts_open_witness:
  "quiet sample_dialled \<and> connCounter (shared sample_dialled) = 1 \<and> length (tr_calls (shared sample_dialled)) = 3"
  using transport_counts_open [of "\<lambda>_ :: unit. Inl ''x'' :: string + nat"
      "\<lparr>DialContext = None, Dial = None, DialTLSContext = None, DialTLS = None\<rparr>" sample_dialled]
    schedule_reachable [OF sample_dialled_reached] sample_dialled_state
  by (simp add: NewTransport_def)

text \<open>
  Concurrent calls may leave the callback with an old value: two dials, the first loads
  the counter before the second adds to it and calls back after it.
\<close>

definition callback_race_calls :: "(nat \<times> string client_call option) list" where
  "callback_race_calls =
     [(1, Some (Dialled None)), (2, Some (Dialled None)), (1, None), (1, None), (1, None), (2, None), (2, None), (2, None), (2, None), (1, None)]"

lemma callback_race:
  fixes prev :: "('a, string, nat) http_transport"
  shows "\<exists>p :: (Transport, nat, tran_op) pool. (dialing TYPE(string))\<^sup>*\<^sup>* (pool_start (fst (NewTransport dflt prev))) p \<and> quiet p \<and>
     connCounter (shared p) = 2 \<and> last (tr_calls (shared p)) = 1"
proof -
  have "\<exists>p. schedule tran_exec client_life client_ops (pool_start (fst (NewTransport dflt prev))) callback_race_calls = Some p \<and>
      quiet p \<and> connCounter (shared p) = 2 \<and> last (tr_calls (shared p)) = 1"
    unfolding callback_race_calls_def by (auto simp: pool_start_def NewTransport_def counted_dial_def Close_def quiet_def)
  then show ?thesis using schedule_reachable by blast
qed

end
