(* ===== verification/Middleware.thy ===== *)
theory Middleware
  imports Complex_Main HttpReply Connections
begin

text \<open>
  The request path of the HTTP server: the middlewares of
  src/httpserver/middleware.go, the token authentication of src/apiauth, and the
  per-endpoint metrics of src/httpserver/metrics.go.  The server state holds the
  connection watcher, the rate limiter, the metrics, what was logged and the state of
  the services.  Third-party code is a parameter: \<open>allow\<close> is the limiter's
  \<open>Allow\<close>, \<open>sentry\<close> the Sentry handler wrapper, \<open>newUUID\<close> the request
  identifier, \<open>parseForm\<close> the form parser of \<open>net/http\<close>.
\<close>

subsection \<open>State\<close>

text \<open>\<open>LogMain\<close> is a call that carries the field \<open>log.MainMessage()\<close>.\<close>

datatype log_call = LogCall string string "(string \<times> string) list" | LogMain string string "(string \<times> string) list" | LogFlush

record serviceMetrics =
  errorsCounter :: "string \<times> string \<Rightarrow> nat"
  latency :: "string \<times> string \<Rightarrow> int list"
  latency_buckets :: "real list"

record ('l, 'a) srv =
  watcher :: ConnectionWatcher
  limiter :: 'l
  metrics :: serviceMetrics
  logs :: "log_call list"
  app :: 'a

definition add_log :: "log_call list \<Rightarrow> ('l, 'a) srv \<Rightarrow> ('l, 'a) srv" where
  "add_log ls s = s\<lparr>logs := logs s @ ls\<rparr>"

subsection \<open>Metrics\<close>

definition defaultBuckets :: "real list" where
  "defaultBuckets = map (\<lambda>n. of_int n / 1000)
     [2, 4, 6, 8, 10, 20, 50, 100, 200, 300, 500, 700, 900, 1100, 1300, 1500]"

definition newMetrics :: "real list \<Rightarrow> serviceMetrics" where
  "newMetrics conf_buckets =
     \<lparr>errorsCounter = (\<lambda>_. 0), latency = (\<lambda>_. []),
      latency_buckets = (if length conf_buckets > 0 then conf_buckets else defaultBuckets)\<rparr>"

definition isError :: "string option \<Rightarrow> bool" where
  "isError err \<longleftrightarrow> err \<noteq> None"

definition ScoreMethod :: "string \<Rightarrow> string \<Rightarrow> int \<Rightarrow> string option \<Rightarrow> serviceMetrics \<Rightarrow> serviceMetrics" where
  "ScoreMethod service endpoint elapsed err m =
     (let labels = (service, endpoint);
          m1 = (if isError err then m\<lparr>errorsCounter := (errorsCounter m)(labels := errorsCounter m labels + 1)\<rparr> else m)
      in m1\<lparr>latency := (latency m1)(labels := latency m1 labels @ [elapsed])\<rparr>)"

subsection \<open>Authentication\<close>

record Auth =
  secret :: string

definition New :: "string \<Rightarrow> Auth" where
  "New sec = \<lparr>secret = sec\<rparr>"

definition errInvalidToken :: string where
  "errInvalidToken = ''missing or invalid token''"

definition Authorized :: "Auth \<Rightarrow> 'd http_request \<Rightarrow> string option" where
  "Authorized a req = (let headerToken = Header_Get (Header req) ''Api-Token'' in
     if headerToken = secret a then None else Some errInvalidToken)"

subsection \<open>Middlewares before the router\<close>

definition connLimiterMiddleware :: "int \<Rightarrow> ('d, ('l, 'a) srv) http_handler \<Rightarrow> ('d, ('l, 'a) srv) http_handler" where
  "connLimiterMiddleware openConnLimit next r w s =
     (let n = Count (watcher s)
      in if n \<ge> openConnLimit then Returned (http_Error w (StatusText 429) 429) s else next r w s)"

definition rateLimiterMiddleware :: "('l \<Rightarrow> bool \<times> 'l) \<Rightarrow> ('d, ('l, 'a) srv) http_handler \<Rightarrow> ('d, ('l, 'a) srv) http_handler" where
  "rateLimiterMiddleware allow next r w s = (case allow (limiter s) of (ok, l) \<Rightarrow>
     let s' = s\<lparr>limiter := l\<rparr>
     in if \<not> ok then Returned (http_Error w (StatusText 429) 429) s' else next r w s')"

definition authMiddleware :: "('d http_request \<Rightarrow> string option) option \<Rightarrow> ('d, ('l, 'a) srv) http_handler \<Rightarrow> ('d, ('l, 'a) srv) http_handler" where
  "authMiddleware auth next r w s = (case auth of
      Some authorized \<Rightarrow>
        (case authorized r of
           Some err \<Rightarrow> Returned (http_Error w (StatusText 401) 401) s
         | None \<Rightarrow> next r w s)
    | None \<Rightarrow> next r w s)"

definition panicLoggerMiddleware :: "('d, ('l, 'a) srv) http_handler \<Rightarrow> ('d, ('l, 'a) srv) http_handler" where
  "panicLoggerMiddleware next r w s = (case next r w s of
      Returned w' s' \<Rightarrow> Returned w' s'
    | Panicked e w' s' \<Rightarrow>
        (let err = (case e of PanicError m \<Rightarrow> Some m | PanicOther \<Rightarrow> None);
             reqID = (case ctx_requestID (Context r) of None \<Rightarrow> '''' | Some i \<Rightarrow> i);
             s1 = add_log [LogCall ''error'' ''PANIC'' [(''rid'', reqID)]] s'
         in Returned (fst (Error w' err 500)) (add_log [LogFlush] s1)))"

definition cors_headers :: "string \<Rightarrow> header \<Rightarrow> header" where
  "cors_headers domain h =
     Header_Set (Header_Set (Header_Set (Header_Set h
       ''Access-Control-Allow-Origin'' domain)
       ''Access-Control-Allow-Methods'' ''POST, DELETE, OPTIONS'')
       ''Access-Control-Allow-Headers'' ''Content-Type'')
       ''Access-Control-Allow-Credentials'' ''true''"

definition corsMiddleware :: "string \<Rightarrow> ('d, ('l, 'a) srv) http_handler \<Rightarrow> ('d, ('l, 'a) srv) http_handler" where
  "corsMiddleware domain next r w s =
     (let w1 = w\<lparr>hdr := cors_headers domain (hdr w)\<rparr>
      in if Method r = ''OPTIONS''
         then Returned (case WriteHeader 204 w1 of Some w2 \<Rightarrow> w2 | None \<Rightarrow> w1) s
         else next r w1 s)"

subsection \<open>Middleware after the router\<close>

datatype 's service_result = HReturn writer 's int "string option" | HPanic panic_val writer 's

type_synonym ('d, 's) HandlerWithResult = "'d http_request \<Rightarrow> writer \<Rightarrow> 's \<Rightarrow> 's service_result"

text \<open>\<open>Inl ()\<close> is the panic of indexing an empty header value list.\<close>

definition realRemoteAddr :: "'d http_request \<Rightarrow> unit + string" where
  "realRemoteAddr r =
     (let pick = (\<lambda>xs. case xs of [] \<Rightarrow> Inl () | x # _ \<Rightarrow> Inr (hd (split_char CHR '':'' x)))
      in case Header r ''X-Forwarded-For'' of
           Some xs \<Rightarrow> pick xs
         | None \<Rightarrow> (case Header r ''X-Real-Ip'' of
             Some xs \<Rightarrow> pick xs
           | None \<Rightarrow> (case Header r ''X-Real-IP'' of
               Some xs \<Rightarrow> pick xs
             | None \<Rightarrow> Inr (hd (split_char CHR '':'' (RemoteAddr r))))))"

definition find_cookie :: "'d http_request \<Rightarrow> string \<Rightarrow> string option" where
  "find_cookie r name = map_of (Cookies r) name"

text \<open>
  The session step: the new context and what is logged.  The getter that a service gives
  is taken to return an error or data; a getter that panics is not modelled.
\<close>

definition attach_session :: "(string \<times> string) list \<Rightarrow> (string \<Rightarrow> string + 'd) option \<Rightarrow> 'd http_request \<Rightarrow> 'd http_ctx \<Rightarrow> 'd http_ctx \<times> log_call list" where
  "attach_session flds sessionGetter r ctx = (case sessionGetter of
      None \<Rightarrow> (ctx, [])
    | Some get \<Rightarrow> (case find_cookie r ''SID'' of
        Some sid \<Rightarrow> (case get sid of
            Inl e \<Rightarrow> (ctx, [LogCall ''error'' ''failed to get session data'' (flds @ [(''error'', e)])])
          | Inr d \<Rightarrow> (ctx\<lparr>ctx_session := Some d\<rparr>, []))
      | None \<Rightarrow> (ctx, [LogCall ''error'' ''missing SID cookie'' flds])))"

text \<open>\<open>elapsed\<close> are the two readings of the clock after the call: for the log and, at the end, for the metrics.\<close>

definition instrumentationMiddleware ::
  "('d http_request \<Rightarrow> 'd http_request) \<Rightarrow> string \<Rightarrow> int \<times> int \<Rightarrow> ('d, ('l, 'a) srv) HandlerWithResult \<Rightarrow>
   string \<Rightarrow> string \<Rightarrow> (string \<Rightarrow> string + 'd) option \<Rightarrow> ('d, ('l, 'a) srv) http_handler" where
  "instrumentationMiddleware parseForm newUUID elapsed handler service endpoint sessionGetter r0 w s =
     (let r1 = parseForm r0 in
      case realRemoteAddr r1 of
        Inl _ \<Rightarrow> Panicked (PanicError ''runtime error: index out of range [0] with length 0'') w s
      | Inr addr \<Rightarrow>
          (let r = r1\<lparr>RemoteAddr := addr\<rparr>;
               reqID = newUUID;
               flds = [(''method'', Method r), (''uri'', RequestURI r), (''remote'', RemoteAddr r), (''rid'', reqID)];
               ctx1 = (Context r)\<lparr>ctx_logger := Some flds, ctx_requestID := Some reqID\<rparr>;
               (ctx, sessionLog) = attach_session flds sessionGetter r ctx1;
               s1 = add_log (sessionLog @ [LogCall ''info'' ''start'' flds]) s
           in case handler (r\<lparr>Context := ctx\<rparr>) w s1 of
                HPanic e w' s' \<Rightarrow> Panicked e w' (add_log [LogFlush] s')
              | HReturn w' s' code err \<Rightarrow>
                  (let s2 = add_log [LogCall ''info'' ''finish'' (flds @ [(''took'', Itoa (fst elapsed))])] s';
                       s3 = s2\<lparr>metrics := ScoreMethod service endpoint (snd elapsed) err (metrics s2)\<rparr>
                   in case err of
                        None \<Rightarrow> Returned w' (add_log [LogFlush] s3)
                      | Some m \<Rightarrow>
                          (let s4 = add_log [LogMain ''error'' ''runtime'' (flds @ [(''rid'', reqID), (''error'', m)])] s3;
                               (w2, ok) = Error w' (Some m) code
                           in if ok = None then Panicked PanicOther w2 (add_log [LogFlush] s4)
                              else Returned w2 (add_log [LogFlush] s4)))))"

subsection \<open>Gates\<close>

text \<open>
  Three of the middlewares are gates: they look at the request and the state, perhaps
  change the state, and either answer with an error themselves or hand on.
  \<open>reject\<close> is \<open>None\<close> when the gate is open and the code of the answer otherwise.
\<close>

locale gate =
  fixes mw :: "('d, 's) http_handler \<Rightarrow> ('d, 's) http_handler"
    and reject :: "'d http_request \<Rightarrow> 's \<Rightarrow> int option"
    and enter :: "'s \<Rightarrow> 's"
  assumes gate_open: "reject r s = None \<Longrightarrow> mw next r w s = next r w (enter s)"
    and gate_shut: "reject r s = Some code \<Longrightarrow> mw next r w s = Returned (http_Error w (StatusText code) code) (enter s)"
    and reject_code: "reject r s = Some code \<Longrightarrow> 200 \<le> code \<and> code \<le> 999 \<and> bodyAllowed code"
begin

lemma gate_shut_ignores_next: "reject r s \<noteq> None \<Longrightarrow> mw next r w s = mw next' r w s"
  using gate_shut by auto

lemma gate_never_panics:
  assumes "\<And>r w s. \<exists>w' s'. next r w s = Returned w' s'"
  shows "\<exists>w' s'. mw next r w s = Returned w' s'"
  using assms gate_open [of r s "next" w] gate_shut [of r s _ "next" w] by (cases "reject r s") auto

lemma gate_status:
  assumes "reject r s = Some code" and "status w = None"
  shows "status (result_writer (mw next r w s)) = Some code"
proof -
  have "status (http_Error w (StatusText code) code) = Some code"
    using assms reject_code [OF assms(1)]
    by (simp add: http_Error_def Let_def WriteHeader_first Write_status)
  then show ?thesis using gate_shut [OF assms(1)] by simp
qed

end

definition conn_reject :: "int \<Rightarrow> 'd http_request \<Rightarrow> ('l, 'a) srv \<Rightarrow> int option" where
  "conn_reject maxConn r s = (if Count (watcher s) < maxConn then None else Some 429)"

definition rate_reject :: "('l \<Rightarrow> bool \<times> 'l) \<Rightarrow> 'd http_request \<Rightarrow> ('l, 'a) srv \<Rightarrow> int option" where
  "rate_reject allow r s = (if fst (allow (limiter s)) then None else Some 429)"

definition take_token :: "('l \<Rightarrow> bool \<times> 'l) \<Rightarrow> ('l, 'a) srv \<Rightarrow> ('l, 'a) srv" where
  "take_token allow s = s\<lparr>limiter := snd (allow (limiter s))\<rparr>"

definition auth_reject :: "('d http_request \<Rightarrow> string option) option \<Rightarrow> 'd http_request \<Rightarrow> ('l, 'a) srv \<Rightarrow> int option" where
  "auth_reject auth r s = (case auth of None \<Rightarrow> None | Some f \<Rightarrow> (case f r of None \<Rightarrow> None | Some _ \<Rightarrow> Some 401))"

interpretation conn_gate: gate "connLimiterMiddleware maxConn" "conn_reject maxConn" "\<lambda>s. s" for maxConn
  by unfold_locales (auto simp: connLimiterMiddleware_def conn_reject_def Let_def bodyAllowed_def split: if_splits)

interpretation rate_gate: gate "rateLimiterMiddleware allow" "rate_reject allow" "take_token allow" for allow
  by unfold_locales
    (auto simp: rateLimiterMiddleware_def rate_reject_def take_token_def Let_def bodyAllowed_def
      split: if_splits prod.splits)

interpretation auth_gate: gate "authMiddleware auth" "auth_reject auth" "\<lambda>s. s" for auth
  by unfold_locales
    (auto simp: authMiddleware_def auth_reject_def bodyAllowed_def split: if_splits option.splits)

lemma panicLogger_returns: "\<exists>w' s'. panicLoggerMiddleware next r w s = Returned w' s'"
  by (simp add: panicLoggerMiddleware_def Let_def split: handler_result.splits)

subsection \<open>Properties\<close>

text \<open>A small request and state on which the properties are evaluated.\<close>

definition sample_request :: "unit http_request" where
  "sample_request = \<lparr>Method = ''GET'', RequestURI = ''/'', Header = Map.empty, RemoteAddr = ''1.2.3.4:5'', Cookies = [],
     Form = Map.empty, Context = \<lparr>ctx_requestID = None, ctx_session = None, ctx_logger = None\<rparr>\<rparr>"

definition sample_srv :: "(unit, nat) srv" where
  "sample_srv = \<lparr>watcher = NewConnectionWatcher, limiter = (), metrics = newMetrics [], logs = [], app = 7\<rparr>"

text \<open>
  C23: the middleware around a service handler calls it once, with the stripped remote
  address and the generated request identifier in the context, and scores the endpoint
  exactly when the handler returns: a returned error adds one to the endpoint's error
  counter, every return adds one latency observation, and a panicking handler leaves
  all metrics as they were and its panic goes on unchanged.  A return without an error
  leaves the response as the handler wrote it.  In all cases the buffered log line is
  flushed last.
\<close>

theorem instrumentation_scores_returns:
  assumes "realRemoteAddr (parseForm r) = Inr addr"
    and "\<And>r' w' s'. metrics (case handler r' w' s' of HReturn _ t _ _ \<Rightarrow> t | HPanic _ _ t \<Rightarrow> t) = metrics s'"
    and "res = instrumentationMiddleware parseForm newUUID elapsed handler service endpoint getter r w s"
  shows "\<exists>r' s'. RemoteAddr r' = addr \<and> Method r' = Method (parseForm r) \<and> ctx_requestID (Context r') = Some newUUID \<and>
    app s' = app s \<and> metrics s' = metrics s \<and> last (logs (result_state res)) = LogFlush \<and>
    (case handler r' w s' of
        HReturn w' t code err \<Rightarrow> metrics (result_state res) = ScoreMethod service endpoint (snd elapsed) err (metrics s) \<and>
          app (result_state res) = app t \<and> (err = None \<longrightarrow> result_writer res = w')
      | HPanic e w' t \<Rightarrow> metrics (result_state res) = metrics s \<and> res = Panicked e w' (add_log [LogFlush] t))"
proof -
  let ?r = "(parseForm r)\<lparr>RemoteAddr := addr\<rparr>"
  let ?flds = "[(''method'', Method ?r), (''uri'', RequestURI ?r), (''remote'', RemoteAddr ?r), (''rid'', newUUID)]"
  let ?ctx = "(Context ?r)\<lparr>ctx_logger := Some ?flds, ctx_requestID := Some newUUID\<rparr>"
  obtain ctx l where att: "attach_session ?flds getter ?r ?ctx = (ctx, l)" by fastforce
  then have id: "ctx_requestID ctx = Some newUUID"
    by (auto simp: attach_session_def split: option.splits sum.splits)
  let ?s = "add_log (l @ [LogCall ''info'' ''start'' ?flds]) s"
  let ?r' = "?r\<lparr>Context := ctx\<rparr>"
  have m: "metrics (case handler ?r' w ?s of HReturn _ t _ _ \<Rightarrow> t | HPanic _ _ t \<Rightarrow> t) = metrics s"
    using assms(2) [of ?r' w ?s] by (simp add: add_log_def)
  show ?thesis
    using assms(1,3) att m id
    by (intro exI [of _ ?r'] exI [of _ ?s])
      (cases "handler ?r' w ?s",
       auto simp: instrumentationMiddleware_def Let_def add_log_def split: option.splits prod.splits)
qed

theorem instrumentation_scores_returns_witness:
  "errorsCounter (metrics (result_state (instrumentationMiddleware (\<lambda>r. r) ''id'' (4, 5)
     (\<lambda>r w s. HReturn w s 404 (Some ''missing'')) ''svc'' ''get'' None sample_request new_writer sample_srv))) (''svc'', ''get'') = 1"
proof -
  have "realRemoteAddr sample_request = Inr ''1.2.3.4''" by (simp add: sample_request_def realRemoteAddr_def Let_def)
  from instrumentation_scores_returns [where parseForm = "\<lambda>r. r" and r = sample_request and addr = "''1.2.3.4''" and newUUID = "''id''"
      and elapsed = "(4, 5)" and handler = "\<lambda>r w s. HReturn w s 404 (Some ''missing'')" and service = "''svc''" and endpoint = "''get''"
      and getter = None and w = new_writer and s = sample_srv, OF this _ refl]
  show ?thesis by (auto simp: sample_srv_def newMetrics_def ScoreMethod_def isError_def Let_def)
qed

end
