(* ===== verification/Server.thy ===== *)
theory Server
  imports Middleware Retry
begin

text \<open>
  The HTTP server itself: its configuration (src/httpserver/config.go), the listener
  and its TLS set-up (src/httpserver/tls.go), the construction of the server with its
  chain of middlewares, \<open>Run\<close> and \<open>HandleFunc\<close> (src/httpserver/http.go), and
  the router wrapper (src/gorillarouter/router.go).  Files, sockets, PEM and X.509 are
  arguments, gathered in the record \<open>tls_env\<close> with the rounding of \<open>float64\<close>; the route matching of gorilla/mux is
  the argument \<open>dispatch\<close>.
\<close>

subsection \<open>Configuration\<close>

datatype UnknownCNBehavior = UCNAllow | UCNWarn | UCNBlock

record metrics_config =
  Namespace :: string
  Buckets :: "real list"

record Config =
  Port :: int
  StatsPort :: int
  UseTLS :: bool
  TLSCert :: string
  TLSKey :: string
  TLSCA :: string
  TLSUseClientCert :: bool
  TLSClientCA :: string
  CORS :: bool
  Domain :: string
  Token :: string
  RateLimit :: real
  OpenConnLimit :: int
  ReadTimeout :: int
  ShutdownTimeout :: int
  Metrics :: metrics_config

definition Validate :: "Config \<Rightarrow> string option" where
  "Validate t = (if CORS t \<and> Domain t = '''' then Some ''domain must be set when CORS is enabled'' else None)"

datatype read_result = ReadOK string | NotExist | ReadErr string

record tls_env =
  readFile :: "string \<Rightarrow> read_result"
  createTemp :: "string + string"
  tempWrite :: "nat \<Rightarrow> string option"
  tempClose :: "string option"
  listenTCP :: "string \<Rightarrow> string + nat"
  pemDecodes :: "string \<Rightarrow> bool"
  keyPair :: "string \<Rightarrow> string \<Rightarrow> string + string"
  certPool :: "string \<Rightarrow> string option"
  float64 :: "real \<Rightarrow> real"

text \<open>The name and error that are returned, and what was written to the temporary file.\<close>

definition CertFile :: "tls_env \<Rightarrow> Config \<Rightarrow> (string \<times> string option) \<times> string" where
  "CertFile env t = (case readFile env (TLSCA t) of
      NotExist \<Rightarrow> ((TLSCert t, None), [])
    | ReadErr e \<Rightarrow> (('''', Some (''read CA certificate: '' @ e)), [])
    | ReadOK ca \<Rightarrow> (case readFile env (TLSCert t) of
        NotExist \<Rightarrow> (('''', Some ''read server certificate: file does not exist''), [])
      | ReadErr e \<Rightarrow> (('''', Some (''read server certificate: '' @ e)), [])
      | ReadOK cert \<Rightarrow> (case createTemp env of
          Inl e \<Rightarrow> (('''', Some (''create temporary file for CA and server certificate: '' @ e)), [])
        | Inr name \<Rightarrow> (case tempWrite env 0 of
            Some e \<Rightarrow> (('''', Some (''append server certificate: '' @ e)), [])
          | None \<Rightarrow> (case tempWrite env 1 of
              Some e \<Rightarrow> (('''', Some (''append certificate separator: '' @ e)), cert)
            | None \<Rightarrow> (case tempWrite env 2 of
                Some e \<Rightarrow> (('''', Some (''append CA certificate: '' @ e)), cert @ [CHR 0x0A])
              | None \<Rightarrow> ((name, tempClose env), cert @ [CHR 0x0A] @ ca)))))))"

subsection \<open>Listener and TLS\<close>

record ListenerConfig =
  Address :: string
  TLSEnabled :: bool
  TLSCertFile :: string
  TLSKeyFile :: string
  LTLSUseClientCert :: bool
  TLSClientCAFile :: string

record CertificateGetter =
  cert :: "string option"
  certFile :: string
  keyFile :: string

definition NewCertificateGetter :: "string \<Rightarrow> string \<Rightarrow> CertificateGetter" where
  "NewCertificateGetter cf kf = \<lparr>cert = None, certFile = cf, keyFile = kf\<rparr>"

definition Load :: "tls_env \<Rightarrow> CertificateGetter \<Rightarrow> string option \<times> CertificateGetter" where
  "Load env cg = (case readFile env (certFile cg) of
      NotExist \<Rightarrow> (Some ''file does not exist'', cg)
    | ReadErr e \<Rightarrow> (Some e, cg)
    | ReadOK certPEM \<Rightarrow> (case readFile env (keyFile cg) of
        NotExist \<Rightarrow> (Some ''file does not exist'', cg)
      | ReadErr e \<Rightarrow> (Some e, cg)
      | ReadOK keyPEM \<Rightarrow>
          if \<not> pemDecodes env keyPEM then (Some ''decoded PEM is blank'', cg)
          else (case keyPair env certPEM keyPEM of
              Inl e \<Rightarrow> (Some e, cg)
            | Inr c \<Rightarrow> (None, cg\<lparr>cert := Some c\<rparr>))))"

definition GetCertificate :: "CertificateGetter \<Rightarrow> string + string" where
  "GetCertificate cg = (case cert cg of None \<Rightarrow> Inl ''nil certificate'' | Some c \<Rightarrow> Inr c)"

datatype ClientAuthType = RequestClientCert | RequireAndVerifyClientCert

record tls_Config =
  MinVersion :: int
  MaxVersion :: int
  getCertificate :: "string + string"
  NextProtos :: "string list"
  ClientAuth :: ClientAuthType
  ClientCAs :: "string option"

definition minTLSVersion :: int where "minTLSVersion = 0x0303"
definition maxTLSVersion :: int where "maxTLSVersion = 0x0304"

definition setupClientCA :: "tls_env \<Rightarrow> tls_Config \<Rightarrow> ListenerConfig \<Rightarrow> string option \<times> tls_Config" where
  "setupClientCA env tlsConf l =
     (let t1 = tlsConf\<lparr>ClientAuth := RequireAndVerifyClientCert\<rparr>
      in if TLSClientCAFile l \<noteq> '''' then
           (case readFile env (TLSClientCAFile l) of
              ReadOK data \<Rightarrow> (case certPool env data of
                  None \<Rightarrow> (Some ''failed to parse CA certificate'', t1)
                | Some pool \<Rightarrow> (None, t1\<lparr>ClientCAs := Some pool\<rparr>))
            | _ \<Rightarrow> (Some ''failed to read CA certificate'', t1))
         else (None, t1))"

definition prepareTLSConfig :: "tls_env \<Rightarrow> ListenerConfig \<Rightarrow> string + tls_Config" where
  "prepareTLSConfig env l = (case Load env (NewCertificateGetter (TLSCertFile l) (TLSKeyFile l)) of
      (Some e, _) \<Rightarrow> Inl (''load certificate: '' @ e)
    | (None, cg) \<Rightarrow>
        (let tlsConf = \<lparr>MinVersion = minTLSVersion, MaxVersion = maxTLSVersion, getCertificate = GetCertificate cg,
               NextProtos = [''h2'', ''http/1.1''], ClientAuth = RequestClientCert, ClientCAs = None\<rparr>
         in if LTLSUseClientCert l
            then (case setupClientCA env tlsConf l of (Some e, _) \<Rightarrow> Inl e | (None, t) \<Rightarrow> Inr t)
            else Inr tlsConf))"

text \<open>
  A listener is a socket, with a TLS configuration if TLS is on.  The second component
  is the list of sockets that stay open when the call returns.
\<close>

datatype net_listener = PlainListener nat | TLSListener nat tls_Config

definition newListener :: "tls_env \<Rightarrow> ListenerConfig \<Rightarrow> (string + net_listener) \<times> nat list" where
  "newListener env l = (case listenTCP env (Address l) of
      Inl e \<Rightarrow> (Inl (''listener: '' @ e), [])
    | Inr sock \<Rightarrow>
        if \<not> TLSEnabled l then (Inr (PlainListener sock), [sock])
        else (case prepareTLSConfig env l of
            Inl e \<Rightarrow> (Inl (''prepare TLS config: '' @ e), [sock])
          | Inr t \<Rightarrow> (Inr (TLSListener sock t), [sock])))"

definition InitListener :: "tls_env \<Rightarrow> Config \<Rightarrow> (string + net_listener) \<times> nat list" where
  "InitListener env cfg =
     (let (cf, err) = (if UseTLS cfg then fst (CertFile env cfg) else ('''', None))
      in case err of
           Some e \<Rightarrow> (Inl (''preload certificates: '' @ e), [])
         | None \<Rightarrow> newListener env \<lparr>Address = '':'' @ Itoa (Port cfg), TLSEnabled = UseTLS cfg,
             TLSCertFile = cf, TLSKeyFile = TLSKey cfg, LTLSUseClientCert = TLSUseClientCert cfg,
             TLSClientCAFile = TLSClientCA cfg\<rparr>)"

subsection \<open>Router\<close>

record 'h GorillaRouter =
  routes :: "(string \<times> string \<times> 'h) list"

definition New_router :: "'h GorillaRouter" where
  "New_router = \<lparr>routes = []\<rparr>"

definition router_HandleFunc :: "'h GorillaRouter \<Rightarrow> string \<Rightarrow> string \<Rightarrow> 'h \<Rightarrow> 'h GorillaRouter" where
  "router_HandleFunc gr method pattern handler = gr\<lparr>routes := routes gr @ [(method, pattern, handler)]\<rparr>"

definition ServeHTTP :: "((string \<times> string \<times> 'h) list \<Rightarrow> 'h) \<Rightarrow> 'h GorillaRouter \<Rightarrow> 'h" where
  "ServeHTTP dispatch gr = dispatch (routes gr)"

subsection \<open>The server\<close>

definition safetyWrappers ::
  "Config \<Rightarrow> ('d http_request \<Rightarrow> string option) option \<Rightarrow> ('l \<Rightarrow> bool \<times> 'l) \<Rightarrow>
   (('d, ('l, 'a) srv) http_handler \<Rightarrow> ('d, ('l, 'a) srv) http_handler) \<Rightarrow>
   ('d, ('l, 'a) srv) http_handler \<Rightarrow> ('d, ('l, 'a) srv) http_handler" where
  "safetyWrappers cfg authProvider allow sentry router =
     (let h1 = panicLoggerMiddleware router;
          h2 = sentry h1;
          h3 = authMiddleware authProvider h2;
          h4 = rateLimiterMiddleware allow h3;
          h5 = connLimiterMiddleware (OpenConnLimit cfg) h4
      in if CORS cfg then corsMiddleware (Domain cfg) h5 else h5)"

definition rateLimitBurstRatio :: real where
  "rateLimitBurstRatio = 12 / 10"

record ('d, 'l, 'a) httpserver =
  srv_name :: string
  cfg :: Config
  router :: "('d, ('l, 'a) srv) http_handler GorillaRouter"
  chain :: "('d, ('l, 'a) srv) http_handler \<Rightarrow> ('d, ('l, 'a) srv) http_handler"
  srv_ReadTimeout :: int
  listener :: net_listener

text \<open>
  \<open>mkLimiter\<close> is the limiter's constructor, with the rate and the burst size.  The
  server is returned with its initial state; the second component is what was logged.
\<close>

definition NewServer ::
  "tls_env \<Rightarrow> (real \<Rightarrow> int \<Rightarrow> 'l) \<Rightarrow> ('l \<Rightarrow> bool \<times> 'l) \<Rightarrow>
   (('d, ('l, 'a) srv) http_handler \<Rightarrow> ('d, ('l, 'a) srv) http_handler) \<Rightarrow>
   Config \<Rightarrow> metrics_config \<Rightarrow> ('d, ('l, 'a) srv) http_handler GorillaRouter \<Rightarrow> 'a \<Rightarrow>
   (string + (('d, 'l, 'a) httpserver \<times> ('l, 'a) srv)) \<times> log_call list" where
  "NewServer env mkLimiter allow sentry c cfgMetrics rt a =
     (let m = newMetrics (Buckets cfgMetrics);
          connWatcher = NewConnectionWatcher;
          rateLimiter = mkLimiter (RateLimit c) (go_trunc (float64 env (RateLimit c * float64 env rateLimitBurstRatio)));
          authProvider = (if Token c \<noteq> '''' then Some (Authorized (Middleware.New (Token c))) else None)
      in case Validate c of
           Some e \<Rightarrow> (Inl (''invalid config: '' @ e), [])
         | None \<Rightarrow> (case fst (InitListener env c) of
             Inl e \<Rightarrow> (Inl (''init listener: '' @ e), [LogCall ''error'' e []])
           | Inr sock \<Rightarrow> (Inr (\<lparr>srv_name = ''http'', cfg = c, router = rt,
                 chain = safetyWrappers c authProvider allow sentry, srv_ReadTimeout = ReadTimeout c, listener = sock\<rparr>,
               \<lparr>watcher = connWatcher, limiter = rateLimiter, metrics = m, logs = [], app = a\<rparr>), [])))"

text \<open>Serving a request: the chain around whatever the router holds at that time.\<close>

definition serve_request :: "((string \<times> string \<times> ('d, ('l, 'a) srv) http_handler) list \<Rightarrow> ('d, ('l, 'a) srv) http_handler) \<Rightarrow>
    ('d, 'l, 'a) httpserver \<Rightarrow> ('d, ('l, 'a) srv) http_handler" where
  "serve_request dispatch s = chain s (ServeHTTP dispatch (router s))"

datatype serve_event = ServeReturned "string option" | CtxDone "string option"

text \<open>
  \<open>Run\<close> waits for one of two events: \<open>Serve\<close> returned, with \<open>None\<close> for
  \<open>http.ErrServerClosed\<close>, or the context is done and \<open>Shutdown\<close> returned its
  error.  The result is \<open>Run\<close>'s error and what it logged.
\<close>

definition show_bool :: "bool \<Rightarrow> string" where
  "show_bool b = (if b then ''true'' else ''false'')"

definition Run :: "('d, 'l, 'a) httpserver \<Rightarrow> serve_event \<Rightarrow> string option \<times> log_call list" where
  "Run s ev =
     (let start = LogCall ''info'' ''starting server'' [(''name'', srv_name s), (''tls'', show_bool (UseTLS (cfg s))),
            (''client_auth'', show_bool (TLSUseClientCert (cfg s))), (''port'', Itoa (Port (cfg s)))]
      in case ev of
           ServeReturned None \<Rightarrow> (None, [start, LogCall ''info'' ''server closed'' [(''name'', srv_name s)]])
         | ServeReturned (Some e) \<Rightarrow> (Some (''failed to start server: '' @ e), [start])
         | CtxDone None \<Rightarrow> (None, [start])
         | CtxDone (Some e) \<Rightarrow> (None, [start, LogCall ''error'' ''failed to shutdown server'' [(''name'', srv_name s), (''error'', e)]]))"

text \<open>\<open>newUUID\<close> and \<open>elapsed\<close> are the identifier and the durations of the call at hand.\<close>

definition HandleFunc ::
  "('d http_request \<Rightarrow> 'd http_request) \<Rightarrow> ('d http_request \<Rightarrow> ('l, 'a) srv \<Rightarrow> string) \<Rightarrow> ('d http_request \<Rightarrow> ('l, 'a) srv \<Rightarrow> int \<times> int) \<Rightarrow>
   ('d, 'l, 'a) httpserver \<Rightarrow> string \<Rightarrow> string \<Rightarrow> string \<Rightarrow> string \<Rightarrow> ('d, ('l, 'a) srv) HandlerWithResult \<Rightarrow>
   (string \<Rightarrow> string + 'd) option \<Rightarrow> ('d, 'l, 'a) httpserver" where
  "HandleFunc parseForm newUUID elapsed s service endpoint method path handler sessionGetter =
     s\<lparr>router := router_HandleFunc (router s) method (''/'' @ TrimPrefix path ''/'')
       (\<lambda>r w st. instrumentationMiddleware parseForm (newUUID r st) (elapsed r st) handler service endpoint sessionGetter r w st)\<rparr>"

subsection \<open>Admission\<close>

text \<open>
  What the chain decides before it hands a request on: the first closed gate gives the
  code of the answer.  \<open>admit_state\<close> is the state after the gates that were asked,
  and \<open>admit_writer\<close> the writer with the headers that CORS adds.
\<close>

definition admission :: "Config \<Rightarrow> ('d http_request \<Rightarrow> string option) option \<Rightarrow> ('l \<Rightarrow> bool \<times> 'l) \<Rightarrow>
    'd http_request \<Rightarrow> ('l, 'a) srv \<Rightarrow> int option" where
  "admission c auth allow r s = (case conn_reject (OpenConnLimit c) r s of
      Some code \<Rightarrow> Some code
    | None \<Rightarrow> (case rate_reject allow r s of Some code \<Rightarrow> Some code | None \<Rightarrow> auth_reject auth r s))"

definition admit_state :: "Config \<Rightarrow> ('l \<Rightarrow> bool \<times> 'l) \<Rightarrow> ('l, 'a) srv \<Rightarrow> ('l, 'a) srv" where
  "admit_state c allow s = (if Count (watcher s) < OpenConnLimit c then take_token allow s else s)"

definition admit_writer :: "Config \<Rightarrow> writer \<Rightarrow> writer" where
  "admit_writer c w = (if CORS c then w\<lparr>hdr := cors_headers (Domain c) (hdr w)\<rparr> else w)"

definition preflight :: "Config \<Rightarrow> 'd http_request \<Rightarrow> bool" where
  "preflight c r \<longleftrightarrow> CORS c \<and> Method r = ''OPTIONS''"

text \<open>
  What the code relies on of the Sentry wrapper: around a handler that returns it does
  what the handler does.
\<close>

definition transparent :: "(('d, 's) http_handler \<Rightarrow> ('d, 's) http_handler) \<Rightarrow> bool" where
  "transparent wrap \<longleftrightarrow> (\<forall>h r w s w' s'. h r w s = Returned w' s' \<longrightarrow> wrap h r w s = Returned w' s')"

lemma transparent_panicLogger:
  "transparent wrap \<Longrightarrow> wrap (panicLoggerMiddleware h) r w s = panicLoggerMiddleware h r w s"
  using panicLogger_returns [of h r w s] unfolding transparent_def by fastforce

lemma auth_reject_take_token [simp]: "auth_reject auth r (take_token allow s) = auth_reject auth r s"
  by (simp add: auth_reject_def)

lemma take_token_simps [simp]:
  "watcher (take_token allow s) = watcher s" "metrics (take_token allow s) = metrics s"
  "logs (take_token allow s) = logs s" "app (take_token allow s) = app s"
  by (simp_all add: take_token_def)

lemma admit_state_simps [simp]:
  "watcher (admit_state c allow s) = watcher s" "logs (admit_state c allow s) = logs s"
  "app (admit_state c allow s) = app s"
  by (simp_all add: admit_state_def)

lemma admit_writer_simps [simp]:
  "status (admit_writer c w) = status w" "body (admit_writer c w) = body w"
  by (simp_all add: admit_writer_def)

lemma chain_rejected:
  assumes "\<not> preflight c r" and "admission c auth allow r s = Some code"
  shows "safetyWrappers c auth allow sentry h r w s
    = Returned (http_Error (admit_writer c w) (StatusText code) code) (admit_state c allow s)"
proof (cases "conn_reject (OpenConnLimit c) r s")
  case (Some code')
  then show ?thesis
    using assms conn_gate.gate_shut [OF Some]
    by (auto simp: safetyWrappers_def Let_def corsMiddleware_def preflight_def admission_def
        admit_writer_def admit_state_def conn_reject_def split: if_splits)
next
  case None
  note conn = conn_gate.gate_open [OF None]
  have lt: "Count (watcher s) < OpenConnLimit c"
    using None by (auto simp: conn_reject_def split: if_splits)
  show ?thesis
  proof (cases "rate_reject allow r s")
    case (Some code')
    then show ?thesis
      using assms None lt rate_gate.gate_shut [OF Some]
      by (auto simp: safetyWrappers_def Let_def corsMiddleware_def preflight_def admission_def conn
          admit_writer_def admit_state_def)
  next
    case rate: None
    with assms None have "auth_reject auth r (take_token allow s) = Some code"
      by (simp add: admission_def)
    then show ?thesis
      using assms None lt rate_gate.gate_open [OF rate] auth_gate.gate_shut [of auth r "take_token allow s" code]
      by (auto simp: safetyWrappers_def Let_def corsMiddleware_def preflight_def admission_def conn
          admit_writer_def admit_state_def)
  qed
qed

lemma chain_admitted:
  assumes "\<not> preflight c r" and "admission c auth allow r s = None" and "transparent sentry"
  shows "safetyWrappers c auth allow sentry h r w s
    = panicLoggerMiddleware h r (admit_writer c w) (take_token allow s)"
proof -
  have conn: "conn_reject (OpenConnLimit c) r s = None" and rate: "rate_reject allow r s = None"
    and auth: "auth_reject auth r (take_token allow s) = None"
    using assms(2) by (auto simp: admission_def split: option.splits)
  show ?thesis
    using assms(1)
    by (auto simp: safetyWrappers_def Let_def corsMiddleware_def preflight_def admit_writer_def
        conn_gate.gate_open [OF conn] rate_gate.gate_open [OF rate] auth_gate.gate_open [OF auth]
        transparent_panicLogger [OF assms(3)])
qed

lemma chain_preflight:
  assumes "preflight c r" and "status w = None"
  shows "\<exists>w'. safetyWrappers c auth allow sentry h r w s = Returned w' s \<and> status w' = Some 204 \<and>
    sent w' = sent_headers 204 (cors_headers (Domain c) (hdr w)) \<and> body w' = body w"
  using assms by (auto simp: safetyWrappers_def Let_def corsMiddleware_def preflight_def WriteHeader_first)

lemma http_Error_status:
  assumes "status w = None" and "200 \<le> code" and "code \<le> 999" and "bodyAllowed code"
  shows "status (http_Error w msg code) = Some code"
  using assms by (simp add: http_Error_def Let_def WriteHeader_first Write_status)

lemma admission_code: "admission c auth allow r s = Some code \<Longrightarrow> code = 429 \<or> code = 401"
  by (auto simp: admission_def conn_reject_def rate_reject_def auth_reject_def split: option.splits if_splits)

subsection \<open>Properties\<close>

text \<open>A small configuration and state on which the properties are evaluated.\<close>

definition sample_config :: Config where
  "sample_config = \<lparr>Port = 8080, StatsPort = 8081, UseTLS = False, TLSCert = '''', TLSKey = '''', TLSCA = '''',
     TLSUseClientCert = False, TLSClientCA = '''', CORS = False, Domain = ''example.org'', Token = ''secret'', RateLimit = 10,
     OpenConnLimit = 2, ReadTimeout = 0, ShutdownTimeout = 0, Metrics = \<lparr>Namespace = '''', Buckets = []\<rparr>\<rparr>"

definition sample_env :: tls_env where
  "sample_env = \<lparr>readFile = (\<lambda>f. if f = ''ca'' then NotExist else ReadOK f), createTemp = Inr ''tmp'', tempWrite = (\<lambda>_. None),
     tempClose = None, listenTCP = (\<lambda>_. Inr 3), pemDecodes = (\<lambda>_. True), keyPair = (\<lambda>c k. Inr c), certPool = (\<lambda>d. Some d),
     float64 = (\<lambda>x. x)\<rparr>"

lemmas sample_defs = sample_config_def sample_request_def sample_srv_def sample_env_def

lemma transparent_id: "transparent (\<lambda>h. h)"
  by (simp add: transparent_def)

text \<open>
  C1: no panic of the router or of a service leaves the chain.  A request that the
  gates admit and whose handling panics is answered with 500 if no status was written
  before the panic; a status that was written stays.  One \<open>PANIC\<close> line is logged and
  flushed, and the services' state is what the handler left.  The request identifier in that line is the one of the incoming
  request's context, which is empty: the identifier that the instrumentation generates
  is put in a context that the panic logger never sees.
\<close>

theorem chain_contains_panics:
  assumes "transparent sentry" and "\<not> preflight c r" and "admission c auth allow r s = None"
    and "h r (admit_writer c w) (take_token allow s) = Panicked e w' s'" and "ctx_requestID (Context r) = None"
  shows "\<exists>w2 s2. safetyWrappers c auth allow sentry h r w s = Returned w2 s2 \<and>
    status w2 = Some (case status w' of None \<Rightarrow> 500 | Some code \<Rightarrow> code) \<and>
    app s2 = app s' \<and> logs s2 = logs s' @ [LogCall ''error'' ''PANIC'' [(''rid'', '''')], LogFlush]"
proof -
  have "status (fst (Error w' err 500)) = Some (case status w' of None \<Rightarrow> 500 | Some code \<Rightarrow> code)" for err
    by (cases "status w'") (simp_all add: Error_def Reply_def Let_def WriteHeader_first WriteHeader_again Write_status)
  then show ?thesis
    using chain_admitted [OF assms(2,3,1)] assms(4,5)
    by (simp add: panicLoggerMiddleware_def Let_def add_log_def)
qed

theorem chain_contains_panics_witness:
  "\<exists>w2 s2. safetyWrappers sample_config None (\<lambda>l. (True, l)) (\<lambda>h. h)
      (\<lambda>r w s. Panicked PanicOther w (s\<lparr>app := 8\<rparr>)) sample_request new_writer sample_srv = Returned w2 s2 \<and>
    status w2 = Some 500 \<and> app s2 = 8 \<and> logs s2 = [LogCall ''error'' ''PANIC'' [(''rid'', '''')], LogFlush]"
  using chain_contains_panics [OF transparent_id, of sample_config sample_request None "\<lambda>l. (True, l)" sample_srv
      "\<lambda>r w s. Panicked PanicOther w (s\<lparr>app := 8\<rparr>)" new_writer PanicOther]
  by (simp add: sample_defs preflight_def admission_def conn_reject_def rate_reject_def auth_reject_def Count_def
      NewConnectionWatcher_def take_token_def admit_writer_def new_writer_def)

text \<open>
  C2: with a token configured, a request that is not a CORS preflight and does not
  carry the token in its \<open>Api-Token\<close> header is answered by the server itself with 401
  or 429.  The answer is the same whatever the router holds, and the services' state,
  the metrics and the log are unchanged.
\<close>

theorem token_guards_server:
  assumes "NewServer env mkLimiter allow sentry c mc rt a = (Inr (sv, s0), ls)" and "Token c \<noteq> ''''"
    and "\<not> preflight c r" and "Header_Get (Header r) ''Api-Token'' \<noteq> Token c" and "status w = None"
  shows "\<exists>w' s' code. (\<forall>rt'. serve_request dispatch (sv\<lparr>router := rt'\<rparr>) r w s = Returned w' s') \<and>
    status w' = Some code \<and> code \<in> {401, 429} \<and> app s' = app s \<and> metrics s' = metrics s \<and> logs s' = logs s"
proof -
  let ?auth = "Some (Authorized (Middleware.New (Token c)))"
  have ch: "chain sv = safetyWrappers c ?auth allow sentry"
    using assms(1,2) by (auto simp: NewServer_def Let_def split: option.splits sum.splits)
  have rej: "auth_reject ?auth r s = Some 401"
    using assms(4) by (simp add: auth_reject_def Authorized_def Middleware.New_def)
  then have "admission c ?auth allow r s \<noteq> None" by (simp add: admission_def split: option.splits)
  then obtain code where code: "admission c ?auth allow r s = Some code" by blast
  let ?w = "http_Error (admit_writer c w) (StatusText code) code"
  have "status ?w = Some code" and "code \<in> {401, 429}"
    using admission_code [OF code] assms(5) by (auto intro!: http_Error_status simp: bodyAllowed_def)
  then show ?thesis
    using chain_rejected [OF assms(3) code]
    by (intro exI [of _ ?w] exI [of _ "admit_state c allow s"] exI [of _ code])
      (simp add: serve_request_def ch admit_state_def)
qed

theorem token_guards_server_witness:
  "\<exists>sv s0 ls w' s' code. NewServer sample_env (\<lambda>_ _. ()) (\<lambda>l. (True, l)) (\<lambda>h. h) sample_config
        (Metrics sample_config) (New_router :: (unit, (unit, nat) srv) http_handler GorillaRouter) 7 = (Inr (sv, s0), ls) \<and>
     serve_request (\<lambda>rs r w s. Returned w (s\<lparr>app := 8\<rparr>)) sv sample_request new_writer s0 = Returned w' s' \<and>
     status w' = Some code \<and> code \<in> {401, 429} \<and> app s' = 7"
proof -
  obtain sv s0 ls where n: "NewServer sample_env (\<lambda>_ _. ()) (\<lambda>l. (True, l)) (\<lambda>h. h) sample_config
      (Metrics sample_config) (New_router :: (unit, (unit, nat) srv) http_handler GorillaRouter) 7 = (Inr (sv, s0), ls)"
    and a: "app s0 = 7"
    by (auto simp: NewServer_def Let_def Validate_def InitListener_def newListener_def sample_defs)
  have "Token sample_config \<noteq> ''''" "\<not> preflight sample_config sample_request"
    "Header_Get (Header sample_request) ''Api-Token'' \<noteq> Token sample_config" "status new_writer = None"
    by (simp_all add: sample_defs preflight_def Header_Get_def new_writer_def)
  from token_guards_server [OF n this, of "\<lambda>rs r w s. Returned w (s\<lparr>app := 8\<rparr>)" s0]
  obtain w' s' code where all: "\<forall>rt'. serve_request (\<lambda>rs r w s. Returned w (s\<lparr>app := 8\<rparr>)) (sv\<lparr>router := rt'\<rparr>)
      sample_request new_writer s0 = Returned w' s'"
    and "status w' = Some code" "code \<in> {401, 429}" "app s' = app s0" by blast
  moreover from all have "serve_request (\<lambda>rs r w s. Returned w (s\<lparr>app := 8\<rparr>)) (sv\<lparr>router := router sv\<rparr>)
      sample_request new_writer s0 = Returned w' s'" ..
  ultimately show ?thesis using n a by auto
qed

text \<open>
  A CORS preflight is answered with 204, an empty body and the CORS headers, and
  nothing else happens: no gate is asked, no rate token is spent, and neither the
  token nor the connection limit applies to it.
\<close>

theorem preflight_bypasses_gates:
  assumes "Domain c = d" and "CORS c" and "Method r = ''OPTIONS''" and "unsent w"
  shows "\<exists>w'. safetyWrappers c auth allow sentry h r w s = Returned w' s \<and> status w' = Some 204 \<and>
    body w' = [] \<and> Header_Get (sent w') ''Access-Control-Allow-Origin'' = d"
proof -
  have "Header_Get (sent_headers 204 (cors_headers d h)) ''Access-Control-Allow-Origin'' = d" for h
  proof -
    have "CanonicalHeaderKey ''Access-Control-Allow-Origin'' = ''Access-Control-Allow-Origin''"
      "CanonicalHeaderKey ''Access-Control-Allow-Methods'' = ''Access-Control-Allow-Methods''"
      "CanonicalHeaderKey ''Access-Control-Allow-Headers'' = ''Access-Control-Allow-Headers''"
      "CanonicalHeaderKey ''Access-Control-Allow-Credentials'' = ''Access-Control-Allow-Credentials''"
      by code_simp+
    then show ?thesis by (simp add: cors_headers_def Header_Get_Set sent_headers_get suppressedHeaders_def)
  qed
  then show ?thesis
    using chain_preflight [of c r w auth allow sentry h s] assms by (auto simp: preflight_def unsent_def)
qed

theorem preflight_bypasses_gates_witness:
  "\<exists>w'. safetyWrappers (sample_config\<lparr>CORS := True\<rparr>) (Some (\<lambda>_. Some ''no'')) (\<lambda>l. (False, l)) (\<lambda>h. h)
     (\<lambda>r w s. Panicked PanicOther w s) (sample_request\<lparr>Method := ''OPTIONS''\<rparr>) new_writer sample_srv = Returned w' sample_srv \<and>
     status w' = Some 204 \<and> body w' = [] \<and> Header_Get (sent w') ''Access-Control-Allow-Origin'' = ''example.org''"
  by (rule preflight_bypasses_gates) (simp_all add: sample_defs)

text \<open>
  C33: the connection limit counts the connection of the request itself.  Whatever the
  other connections are doing, if \<open>OpenConnLimit\<close> or more connections are open and
  their last state change has been counted, a request on one of them that is not a CORS
  preflight is answered with 429 without asking the rate limiter, the authentication or
  the router.  A limit of one therefore rejects every request but the preflights.
\<close>

theorem connection_limit_counts_own_connection:
  assumes "watching\<^sup>*\<^sup>* (pool_start NewConnectionWatcher) p" and "watcher s = shared p"
    and "phase_of p conn = Open" and "todo p conn = []"
    and "OpenConnLimit c \<le> int (card {cn. phase_of p cn = Open \<and> todo p cn = []}) \<or> OpenConnLimit c = 1"
    and "\<not> preflight c r" and "status w = None"
  shows "\<exists>w'. safetyWrappers c auth allow sentry h r w s = Returned w' s \<and> status w' = Some 429"
proof -
  let ?S = "{cn. phase_of p cn = Open \<and> todo p cn = []}"
  have n: "int (card ?S) \<le> Count (watcher s)" and fin: "finite (open_conns p)"
    using watcher.settled_counted [OF assms(1)] assms(2) by (simp_all add: NewConnectionWatcher_def Count_def)
  have "finite ?S" using fin by (rule rev_finite_subset) (auto simp: open_conns_def)
  moreover have "conn \<in> ?S" using assms(3,4) by simp
  ultimately have "0 < card ?S" unfolding card_gt_0_iff by blast
  with n have ge: "\<not> Count (watcher s) < OpenConnLimit c" using assms(5) by linarith
  then have "admission c auth allow r s = Some 429"
    by (simp add: admission_def conn_reject_def)
  from chain_rejected [OF assms(6) this] show ?thesis
    using ge assms(7) by (simp add: admit_state_def http_Error_status bodyAllowed_def)
qed

theorem connection_limit_counts_own_connection_witness:
  "\<exists>w'. safetyWrappers (sample_config\<lparr>OpenConnLimit := 1\<rparr>) None (\<lambda>l. (True, l)) (\<lambda>h. h)
     (\<lambda>r w s. Returned w s) sample_request new_writer (sample_srv\<lparr>watcher := shared sample_watched\<rparr>)
       = Returned w' (sample_srv\<lparr>watcher := shared sample_watched\<rparr>) \<and>
     status w' = Some 429"
proof -
  have "(''5.6.7.8'', 0) \<in> open_conns sample_watched" "quiet sample_watched" using sample_watched_state by simp_all
  then show ?thesis
    by (intro connection_limit_counts_own_connection [OF schedule_reachable [OF sample_watched_reached], where conn = "(''5.6.7.8'', 0)"])
      (simp_all add: sample_defs preflight_def new_writer_def open_conns_def quiet_def)
qed

text \<open>
  C32: a TLS listener is returned only with a loaded certificate and with TLS 1.2 or
  later; if client certificates are required by the configuration it verifies them,
  against the configured CA pool if there is one.  Whenever the set-up of TLS fails
  the call reports the error, and the socket that was bound before stays open.
\<close>

theorem newListener_secure:
  assumes "TLSEnabled l"
  shows "(\<forall>sock t socks. newListener env l = (Inr (TLSListener sock t), socks) \<longrightarrow>
      MinVersion t \<ge> 0x0303 \<and> (\<exists>crt. getCertificate t = Inr crt) \<and>
      (LTLSUseClientCert l \<longrightarrow> ClientAuth t = RequireAndVerifyClientCert \<and>
         (TLSClientCAFile l \<noteq> '''' \<longrightarrow> (\<exists>pem. readFile env (TLSClientCAFile l) = ReadOK pem \<and>
            certPool env pem \<noteq> None \<and> ClientCAs t = certPool env pem)))) \<and>
    (\<forall>sock. newListener env l \<noteq> (Inr (PlainListener sock), [sock])) \<and>
    (\<forall>e sock. listenTCP env (Address l) = Inr sock \<and> prepareTLSConfig env l = Inl e \<longrightarrow>
       newListener env l = (Inl (''prepare TLS config: '' @ e), [sock]))"
  using assms
  by (auto simp: newListener_def prepareTLSConfig_def setupClientCA_def Load_def NewCertificateGetter_def
      GetCertificate_def minTLSVersion_def Let_def
      split: sum.splits prod.splits option.splits read_result.splits if_splits)

theorem newListener_secure_witness:
  "\<exists>t. newListener sample_env \<lparr>Address = '':443'', TLSEnabled = True, TLSCertFile = ''c'', TLSKeyFile = ''k'',
      LTLSUseClientCert = True, TLSClientCAFile = ''pool''\<rparr> = (Inr (TLSListener 3 t), [3]) \<and>
    ClientAuth t = RequireAndVerifyClientCert \<and> ClientCAs t = Some ''pool''"
proof -
  let ?l = "\<lparr>Address = '':443'', TLSEnabled = True, TLSCertFile = ''c'', TLSKeyFile = ''k'',
      LTLSUseClientCert = True, TLSClientCAFile = ''pool''\<rparr>"
  obtain t where "newListener sample_env ?l = (Inr (TLSListener 3 t), [3])"
    by (auto simp: newListener_def prepareTLSConfig_def setupClientCA_def Load_def NewCertificateGetter_def Let_def sample_defs)
  with newListener_secure [of ?l sample_env] show ?thesis by (auto simp: sample_defs)
qed

end
