(* ===== verification/Health.thy ===== *)
theory Health
  imports Server
begin

text \<open>
  Readiness and liveness: package \<open>appstatus\<close> (src/appstatus/appstatus.go), where
  services report their state, and package \<open>statserver\<close> (src/statserver/statserver.go),
  which serves that state on \<open>/ready\<close> and \<open>/alive\<close>.  What the server relies
  on is the locale \<open>status_source\<close>; its lemmas give the state after any history of
  reports.
\<close>

subsection \<open>Status reporter\<close>

record statusReporter =
  appAlive :: bool
  serviceReady :: "string \<rightharpoonup> bool"

record serviceReporter =
  serviceName :: string

definition errAlreadyRegistered :: string where
  "errAlreadyRegistered = ''service already registered''"

definition New_status :: statusReporter where
  "New_status = \<lparr>appAlive = True, serviceReady = Map.empty\<rparr>"

definition GetServiceReporter :: "statusReporter \<Rightarrow> string \<Rightarrow> (string + serviceReporter) \<times> statusReporter" where
  "GetServiceReporter s name = (case serviceReady s name of
      Some _ \<Rightarrow> (Inl errAlreadyRegistered, s)
    | None \<Rightarrow> (Inr \<lparr>serviceName = name\<rparr>, s\<lparr>serviceReady := (serviceReady s)(name \<mapsto> False)\<rparr>))"

definition ready :: "statusReporter \<Rightarrow> string \<Rightarrow> statusReporter" where
  "ready s name = s\<lparr>serviceReady := (serviceReady s)(name \<mapsto> True)\<rparr>"

definition notReady :: "statusReporter \<Rightarrow> string \<Rightarrow> statusReporter" where
  "notReady s name = s\<lparr>serviceReady := (serviceReady s)(name \<mapsto> False)\<rparr>"

definition dead :: "statusReporter \<Rightarrow> statusReporter" where
  "dead s = s\<lparr>appAlive := False\<rparr>"

text \<open>The loop over the map, in the order \<open>iter\<close>, with its early return.\<close>

fun all_ready :: "(string \<rightharpoonup> bool) \<Rightarrow> string list \<Rightarrow> bool" where
  "all_ready m [] = True"
| "all_ready m (k # ks) = (if \<not> map_get False m k then False else all_ready m ks)"

definition IsReady :: "(string, bool) map_order \<Rightarrow> statusReporter \<Rightarrow> bool" where
  "IsReady iter s = all_ready (serviceReady s) (iter (serviceReady s))"

definition IsAlive :: "statusReporter \<Rightarrow> bool" where
  "IsAlive s = appAlive s"

definition Ready :: "statusReporter \<Rightarrow> serviceReporter \<Rightarrow> statusReporter" where
  "Ready s rep = ready s (serviceName rep)"

definition NotReady :: "statusReporter \<Rightarrow> serviceReporter \<Rightarrow> statusReporter" where
  "NotReady s rep = notReady s (serviceName rep)"

definition Dead :: "statusReporter \<Rightarrow> serviceReporter \<Rightarrow> statusReporter" where
  "Dead s rep = dead s"

subsection \<open>Stat server\<close>

record statServer =
  stat_port :: int
  Addr :: string
  ReadHeaderTimeout :: int

definition New_stat :: "int \<Rightarrow> statServer" where
  "New_stat port = \<lparr>stat_port = port, Addr = '':'' @ Itoa port, ReadHeaderTimeout = 1000000000\<rparr>"

definition reply_status :: "int \<Rightarrow> writer \<Rightarrow> writer" where
  "reply_status code w = (case WriteHeader code w of Some w' \<Rightarrow> w' | None \<Rightarrow> w)"

definition ReadyHandler :: "('s \<Rightarrow> bool) \<Rightarrow> 's \<Rightarrow> writer \<Rightarrow> writer" where
  "ReadyHandler isReady st w = (if isReady st then reply_status 200 w else reply_status 500 w)"

definition AliveHandler :: "('s \<Rightarrow> bool) \<Rightarrow> 's \<Rightarrow> writer \<Rightarrow> writer" where
  "AliveHandler isAlive st w = (if isAlive st then reply_status 200 w else reply_status 500 w)"

text \<open>
  The routes that \<open>New\<close> registers in the standard \<open>ServeMux\<close>: a pattern with
  method \<open>GET\<close> serves \<open>GET\<close> and \<open>HEAD\<close>, another method on a known path is
  answered with 405, another path with 404.
\<close>

definition url_path :: "'d http_request \<Rightarrow> string" where
  "url_path r = hd (split_char CHR ''?'' (RequestURI r))"

definition stat_router :: "('s \<Rightarrow> bool) \<Rightarrow> ('s \<Rightarrow> bool) \<Rightarrow> ('s \<Rightarrow> writer \<Rightarrow> writer) \<Rightarrow> 's \<Rightarrow> 'd http_request \<Rightarrow> writer \<Rightarrow> writer" where
  "stat_router isReady isAlive promHandler st r w =
     (let path = url_path r
      in if path \<notin> {''/ready'', ''/alive'', ''/metrics''} then http_Error w ''404 page not found'' 404
         else if Method r \<notin> {''GET'', ''HEAD''} then
           http_Error (w\<lparr>hdr := Header_Set (hdr w) ''Allow'' ''GET, HEAD''\<rparr>) (StatusText 405) 405
         else if path = ''/ready'' then ReadyHandler isReady st w
         else if path = ''/alive'' then AliveHandler isAlive st w
         else promHandler st w)"

text \<open>
  \<open>Run\<close>: its error, what was logged, and whether the goroutine that serves is left
  blocked on the channel that nobody reads any more.
\<close>

definition Run_stat :: "statServer \<Rightarrow> serve_event \<Rightarrow> string option \<times> log_call list \<times> bool" where
  "Run_stat s ev =
     (let start = LogCall ''info'' ''starting healthcheck server'' [(''tls'', show_bool False), (''port'', Itoa (stat_port s))];
          closed = LogCall ''info'' ''healthcheck server closed'' []
      in case ev of
           ServeReturned None \<Rightarrow> (None, [start, closed], False)
         | ServeReturned (Some e) \<Rightarrow> (Some (''failed to start healthcheck server: '' @ e), [start], False)
         | CtxDone err \<Rightarrow> (err, [start, closed], True))"

definition Shutdown_stat :: "string option \<Rightarrow> string option" where
  "Shutdown_stat err = (case err of Some e \<Rightarrow> Some (''failed to shutdown server: '' @ e) | None \<Rightarrow> None)"

subsection \<open>The contract\<close>

datatype status_event = Register string | ReportReady string | ReportNotReady string | ReportDead string

fun mentions :: "string \<Rightarrow> status_event \<Rightarrow> bool" where
  "mentions n (Register m) = (m = n)"
| "mentions n (ReportReady m) = (m = n)"
| "mentions n (ReportNotReady m) = (m = n)"
| "mentions n (ReportDead m) = False"

fun reports :: "string \<Rightarrow> status_event \<Rightarrow> bool" where
  "reports n (ReportReady m) = (m = n)"
| "reports n (ReportNotReady m) = (m = n)"
| "reports n _ = False"

definition last_ready :: "string \<Rightarrow> status_event list \<Rightarrow> bool" where
  "last_ready n es = (filter (reports n) es \<noteq> [] \<and> last (filter (reports n) es) = ReportReady n)"

definition waiting :: "status_event list \<Rightarrow> string set" where
  "waiting es = {n. list_ex (mentions n) es \<and> \<not> last_ready n es}"

definition known :: "status_event list \<Rightarrow> string set" where
  "known es = {n. list_ex (mentions n) es}"

fun is_dead :: "status_event \<Rightarrow> bool" where
  "is_dead (ReportDead n) = True"
| "is_dead _ = False"

lemma last_ready_snoc: "last_ready n (es @ [e]) = (if reports n e then e = ReportReady n else last_ready n es)"
  by (simp add: last_ready_def)

lemma reports_mentions: "reports n e \<Longrightarrow> mentions n e"
  by (cases e) simp_all

lemma last_ready_mentioned: "last_ready n es \<Longrightarrow> list_ex (mentions n) es"
  using reports_mentions by (fastforce simp: last_ready_def list_ex_iff filter_empty_conv)

locale status_source =
  fixes step :: "'s \<Rightarrow> status_event \<Rightarrow> 's"
    and new :: 's
    and isReady isAlive :: "'s \<Rightarrow> bool"
    and names unready :: "'s \<Rightarrow> string set"
  assumes ready_iff: "isReady s \<longleftrightarrow> unready s = {}"
    and new_state: "names new = {}" "unready new = {}" "isAlive new"
    and register: "names (step s (Register n)) = insert n (names s)"
      "unready (step s (Register n)) = (if n \<in> names s then unready s else insert n (unready s))"
      "isAlive (step s (Register n)) = isAlive s"
    and report_ready: "names (step s (ReportReady n)) = insert n (names s)"
      "unready (step s (ReportReady n)) = unready s - {n}" "isAlive (step s (ReportReady n)) = isAlive s"
    and report_not: "names (step s (ReportNotReady n)) = insert n (names s)"
      "unready (step s (ReportNotReady n)) = insert n (unready s)" "isAlive (step s (ReportNotReady n)) = isAlive s"
    and report_dead: "names (step s (ReportDead n)) = names s" "unready (step s (ReportDead n)) = unready s"
      "\<not> isAlive (step s (ReportDead n))"
begin

lemma history_state:
  "names (foldl step new es) = known es \<and> unready (foldl step new es) = waiting es \<and>
   isAlive (foldl step new es) = (\<not> list_ex is_dead es)"
proof (induction es rule: rev_induct)
  case Nil
  then show ?case by (simp add: known_def waiting_def new_state)
next
  case (snoc e es)
  then show ?case
    by (cases e) (auto simp: register report_ready report_not report_dead known_def waiting_def
        last_ready_snoc dest: last_ready_mentioned split: if_splits)
qed

lemma history_ready: "isReady (foldl step new es) \<longleftrightarrow> waiting es = {}"
  using history_state ready_iff by simp

lemma history_alive: "isAlive (foldl step new es) \<longleftrightarrow> \<not> list_ex is_dead es"
  using history_state by simp

end

fun status_step :: "statusReporter \<Rightarrow> status_event \<Rightarrow> statusReporter" where
  "status_step s (Register n) = snd (GetServiceReporter s n)"
| "status_step s (ReportReady n) = Ready s \<lparr>serviceName = n\<rparr>"
| "status_step s (ReportNotReady n) = NotReady s \<lparr>serviceName = n\<rparr>"
| "status_step s (ReportDead n) = Dead s \<lparr>serviceName = n\<rparr>"

definition unready_names :: "statusReporter \<Rightarrow> string set" where
  "unready_names s = {n. serviceReady s n = Some False}"

lemma all_ready_iff: "all_ready m ks \<longleftrightarrow> (\<forall>k\<in>set ks. map_get False m k)"
  by (induction ks) auto

lemma IsReady_iff:
  assumes "orders iter (serviceReady s)"
  shows "IsReady iter s \<longleftrightarrow> unready_names s = {}"
proof -
  have "map_get False (serviceReady s) k \<longleftrightarrow> serviceReady s k \<noteq> Some False" if "k \<in> dom (serviceReady s)" for k
    using that by (auto simp: map_get_def)
  then show ?thesis
    using assms by (auto simp: IsReady_def all_ready_iff orders_def unready_names_def)
qed

text \<open>The reporter meets the contract; readiness is here the emptiness of the unready services.\<close>

interpretation reporter: status_source status_step New_status "\<lambda>s. unready_names s = {}" IsAlive
  "\<lambda>s. dom (serviceReady s)" unready_names
  by unfold_locales
    (auto simp: New_status_def GetServiceReporter_def Ready_def NotReady_def Dead_def ready_def notReady_def dead_def
      unready_names_def IsAlive_def split: option.splits if_splits)

subsection \<open>Properties\<close>

text \<open>
  C4: after any history of registrations and reports, \<open>GET /ready\<close> is answered with
  200 if every service that registered or reported has reported ready last, and with
  500 otherwise, in whatever order the map is visited; \<open>GET /alive\<close> is answered with 200
  until some service reported itself dead, and with 500 from then on, whatever is
  reported later.  Registering a name twice changes nothing.
\<close>

theorem health_answers_follow_reports:
  assumes "st = foldl status_step New_status es" and "orders iter (serviceReady st)" and "Method r = ''GET''"
    and "url_path r = ''/ready'' \<or> url_path r = ''/alive''" and "status w = None"
  shows "status (stat_router (IsReady iter) IsAlive prom st r w) =
    Some (if url_path r = ''/ready''
      then if \<forall>n. list_ex (mentions n) es \<longrightarrow> last_ready n es then 200 else 500
      else if list_ex is_dead es then 500 else 200)"
proof -
  have rd: "IsReady iter st \<longleftrightarrow> (\<forall>n. list_ex (mentions n) es \<longrightarrow> last_ready n es)"
    using reporter.history_ready [of es] IsReady_iff [OF assms(2)] assms(1) by (auto simp: waiting_def)
  have al: "IsAlive st \<longleftrightarrow> \<not> list_ex is_dead es" using reporter.history_alive assms(1) by simp
  show ?thesis
    using assms(3-5)
    by (auto simp: stat_router_def Let_def ReadyHandler_def AliveHandler_def reply_status_def WriteHeader_first rd al)
qed

theorem health_answers_follow_reports_witness:
  "status (stat_router (IsReady (\<lambda>_. [''db'', ''api''])) IsAlive (\<lambda>_ w. w)
     (foldl status_step New_status [Register ''db'', Register ''api'', ReportReady ''api'', ReportReady ''db'', ReportNotReady ''api''])
     (sample_request\<lparr>RequestURI := ''/ready''\<rparr>) new_writer) = Some 500"
proof -
  let ?es = "[Register ''db'', Register ''api'', ReportReady ''api'', ReportReady ''db'', ReportNotReady ''api'']"
  have "orders (\<lambda>_. [''db'', ''api'']) (serviceReady (foldl status_step New_status ?es))"
    by (auto simp: orders_def GetServiceReporter_def New_status_def Ready_def NotReady_def ready_def notReady_def split: if_splits)
  moreover have "url_path (sample_request\<lparr>RequestURI := ''/ready''\<rparr>) = ''/ready''"
    by (simp add: url_path_def)
  moreover have "\<not> (\<forall>n. list_ex (mentions n) ?es \<longrightarrow> last_ready n ?es)"
    by (auto simp: last_ready_def intro!: exI [of _ "''api''"])
  ultimately show ?thesis
    using health_answers_follow_reports [OF refl, of "\<lambda>_. [''db'', ''api'']" ?es "sample_request\<lparr>RequestURI := ''/ready''\<rparr>" new_writer "\<lambda>_ w. w"]
    by (simp add: sample_request_def new_writer_def)
qed

end
