(* ===== verification/GoTime.thy ===== *)
theory GoTime
  imports GoStrings "HOL-Library.List_Lexorder"
begin

text \<open>
  The parts of Go's package \<open>time\<close> that the packages print: \<open>Duration.String\<close>, which
  the run-time limit of the container manager reports, and the layout
  \<open>2006-01-02T15:04:05.000Z\<close> of the log's time stamps, with the calendar behind it.  A
  duration is its number of nanoseconds; a point in time is the number of nanoseconds since
  the first of January of the year 1 (UTC), as in Go's \<open>Time\<close>.
\<close>

subsection \<open>Durations\<close>

text \<open>\<open>w\<close> decimal digits of a number, with leading zeros.\<close>

fun digits :: "nat \<Rightarrow> nat \<Rightarrow> string" where
  "digits 0 n = ''''"
| "digits (Suc w) n = digits w (n div 10) @ [digit_char (n mod 10)]"

lemma digits_numeral [simp]: "digits (numeral w) n = digits (pred_numeral w) (n div 10) @ [digit_char (n mod 10)]"
  by (subst numeral_eq_Suc) (simp only: digits.simps)

text \<open>The fraction of \<open>prec\<close> digits: trailing zeros are left out, and the point if nothing is left.\<close>

definition fmtFrac :: "nat \<Rightarrow> nat \<Rightarrow> string" where
  "fmtFrac prec u =
     (let ds = rev (dropWhile (\<lambda>c. c = CHR ''0'') (rev (digits prec (u mod 10 ^ prec))))
      in if ds = '''' then '''' else CHR ''.'' # ds)"

definition Duration_abs :: "nat \<Rightarrow> string" where
  "Duration_abs u =
     (if u = 0 then ''0s''
      else if u < 1000 then show_nat u @ ''ns''
      else if u < 1000000 then show_nat (u div 1000) @ fmtFrac 3 u @ [char_of (194 :: nat), char_of (181 :: nat)] @ ''s''
      else if u < 1000000000 then show_nat (u div 1000000) @ fmtFrac 6 u @ ''ms''
      else
        let secs = u div 1000000000; mins = secs div 60; hours = mins div 60
        in (if hours > 0 then show_nat hours @ ''h'' else '''') @
           (if mins > 0 then show_nat (mins mod 60) @ ''m'' else '''') @
           show_nat (secs mod 60) @ fmtFrac 9 u @ ''s'')"

definition Duration_String :: "int \<Rightarrow> string" where
  "Duration_String d = (if d < 0 then CHR ''-'' # Duration_abs (nat (- d)) else Duration_abs (nat d))"

lemma Duration_String_examples:
  "Duration_String 0 = ''0s''" "Duration_String 5000000000 = ''5s''" "Duration_String 5200000000 = ''5.2s''"
  "Duration_String 3723004000000 = ''1h2m3.004s''" "Duration_String (- 1500000) = ''-1.5ms''"
  by (simp_all add: Duration_String_def Duration_abs_def fmtFrac_def show_nat.simps digit_char_def char_of_def bit_0)


subsection \<open>The calendar\<close>

definition isLeap :: "nat \<Rightarrow> bool" where
  "isLeap y \<longleftrightarrow> 4 dvd y \<and> (\<not> 100 dvd y \<or> 400 dvd y)"

text \<open>
  The year and the day of the year of a day, counted from the first of January of the
  year 1: cycles of 400, 100, 4 and 1 years are cut off in turn, and the last day of a leap
  cycle stays in its last part.
\<close>

definition year_of_day :: "nat \<Rightarrow> nat \<times> nat" where
  "year_of_day d =
     (let a = d div 146097; d1 = d mod 146097;
          b = d1 div 36524 - d1 div 36524 div 4; d2 = d1 - 36524 * b;
          c = d2 div 1461; d3 = d2 mod 1461;
          e = d3 div 365 - d3 div 365 div 4; yday = d3 - 365 * e
      in (400 * a + 100 * b + 4 * c + e + 1, yday))"

definition daysBefore :: "nat list" where
  "daysBefore = [0, 31, 59, 90, 120, 151, 181, 212, 243, 273, 304, 334, 365]"

definition month_of_yday :: "bool \<Rightarrow> nat \<Rightarrow> nat \<times> nat" where
  "month_of_yday leap yday =
     (if leap \<and> yday = 59 then (2, 29)
      else let day = (if leap \<and> yday > 59 then yday - 1 else yday);
               m = day div 31
        in if day \<ge> daysBefore ! (m + 1) then (m + 2, day - daysBefore ! (m + 1) + 1) else (m + 1, day - daysBefore ! m + 1))"

definition days_before_year :: "nat \<Rightarrow> nat" where
  "days_before_year y = 365 * (y - 1) + (y - 1) div 4 + (y - 1) div 400 - (y - 1) div 100"

definition year_length :: "nat \<Rightarrow> nat" where
  "year_length y = (if isLeap y then 366 else 365)"

lemma cut_cycle:
  fixes d k :: nat
  assumes "0 < k" and "d \<le> 4 * k" and b: "b = d div k - d div k div 4"
  shows "b \<le> 3" and "k * b \<le> d" and "d - k * b \<le> k" and "d - k * b = k \<longleftrightarrow> d = 4 * k"
proof -
  have "b \<le> 3 \<and> k * b \<le> d \<and> d - k * b \<le> k \<and> (d - k * b = k \<longleftrightarrow> d = 4 * k)"
  proof (cases "d = 4 * k")
    case True
    with assms(1) have "b = 3" by (simp add: b)
    then show ?thesis using True by simp
  next
    case False
    with assms(2) have "d < 4 * k" by simp
    then have q: "d div k < 4" by (simp add: less_mult_imp_div_less mult.commute)
    then have "b = d div k" by (simp add: b)
    moreover have "k * (d div k) \<le> d" "d - k * (d div k) < k" using assms(1) by (simp_all add: minus_mult_div_eq_mod)
    ultimately show ?thesis using q False by simp
  qed
  then show "b \<le> 3" and "k * b \<le> d" and "d - k * b \<le> k" and "d - k * b = k \<longleftrightarrow> d = 4 * k" by blast+
qed

lemma year_parts:
  fixes d :: nat
  obtains a b c e r where "d = 146097 * a + 36524 * b + 1461 * c + 365 * e + r"
    and "year_of_day d = (400 * a + 100 * b + 4 * c + e + 1, r)"
    and "b \<le> 3" "c \<le> 24" "e \<le> 3" "r \<le> 365" "r = 365 \<longrightarrow> e = 3 \<and> (c = 24 \<longrightarrow> b = 3)"
proof -
  define a d1 where "a = d div 146097" and "d1 = d mod 146097"
  define b where "b = d1 div 36524 - d1 div 36524 div 4"
  define d2 where "d2 = d1 - 36524 * b"
  define c d3 where "c = d2 div 1461" and "d3 = d2 mod 1461"
  define e where "e = d3 div 365 - d3 div 365 div 4"
  define r where "r = d3 - 365 * e"
  have d: "d = 146097 * a + d1" "d1 < 146097" unfolding a_def d1_def by (simp_all only: mult_div_mod_eq mod_less_divisor zero_less_numeral)
  have b: "b \<le> 3" "36524 * b \<le> d1" "d2 \<le> 36524" "d2 = 36524 \<longleftrightarrow> d1 = 4 * 36524"
    unfolding d2_def by (rule cut_cycle [OF _ _ b_def], simp, use d(2) in simp)+
  have d2: "d1 = 36524 * b + d2" "d2 = 1461 * c + d3" "d3 < 1461"
    using b(2) unfolding d2_def c_def d3_def by (simp_all only: le_add_diff_inverse mult_div_mod_eq mod_less_divisor zero_less_numeral)
  have c: "c \<le> 24" using b(3) d2(2) by linarith
  have last: "d3 = 1460 \<longrightarrow> c = 24 \<longrightarrow> b = 3" using b d2 by linarith
  have e: "e \<le> 3" "365 * e \<le> d3" "r \<le> 365" "r = 365 \<longleftrightarrow> d3 = 4 * 365"
    unfolding r_def by (rule cut_cycle [OF _ _ e_def], simp, use d2(3) in simp)+
  have e3: "r = 365 \<longrightarrow> e = 3" using e(2,4) unfolding r_def by linarith
  show ?thesis
  proof (rule that [of a b c e r])
    show "d = 146097 * a + 36524 * b + 1461 * c + 365 * e + r" using d(1) d2(1,2) e(2) unfolding r_def by linarith
    show "year_of_day d = (400 * a + 100 * b + 4 * c + e + 1, r)"
      unfolding year_of_day_def Let_def a_def b_def c_def e_def r_def d1_def d2_def d3_def by (rule refl)
    show "r = 365 \<longrightarrow> e = 3 \<and> (c = 24 \<longrightarrow> b = 3)" using e(4) e3 last by simp
  qed (use b c e in auto)
qed

lemma days_before_year_parts:
  fixes a b c e :: nat
  assumes "b \<le> 3" "c \<le> 24" "e \<le> 3"
  shows "days_before_year (400 * a + 100 * b + 4 * c + e + 1) = 146097 * a + 36524 * b + 1461 * c + 365 * e"
proof -
  let ?n = "400 * a + 100 * b + 4 * c + e"
  have "?n div 4 = 100 * a + 25 * b + c" "?n div 100 = 4 * a + b" "?n div 400 = a"
    using assms by (simp_all add: div_nat_eqI)
  then show ?thesis unfolding days_before_year_def by simp
qed

lemma isLeap_parts:
  fixes a b c :: nat
  assumes "c = 24 \<longrightarrow> b = 3" "b \<le> 3" "c \<le> 24"
  shows "isLeap (400 * a + 100 * b + 4 * c + 3 + 1)"
proof -
  have y: "400 * a + 100 * b + 4 * c + 3 + 1 = 4 * (100 * a + 25 * b + c + 1)" by simp
  show ?thesis
  proof (cases "c = 24")
    case True
    with assms(1) have "400 * a + 100 * b + 4 * c + 3 + 1 = 400 * (a + 1)" by simp
    then show ?thesis unfolding isLeap_def by (metis dvd_triv_left y)
  next
    case False
    have "400 * a + 100 * b + 4 * c + 3 + 1 = 100 * (4 * a + b) + (4 * c + 4)" by simp
    moreover have "\<not> 100 dvd 4 * c + 4" using False assms(3) by (intro nat_dvd_not_less) auto
    ultimately have "\<not> 100 dvd 400 * a + 100 * b + 4 * c + 3 + 1" by (metis dvd_add_times_triv_left_iff mult.commute)
    then show ?thesis unfolding isLeap_def by (metis dvd_triv_left y)
  qed
qed

text \<open>The year is the one whose first day is the last not after the given day.\<close>

lemma year_of_day_spec:
  assumes "year_of_day d = (y, r)"
  shows "d = days_before_year y + r" and "1 \<le> y" and "r < year_length y"
proof -
  from year_parts [of d] obtain a b c e r' where p: "d = 146097 * a + 36524 * b + 1461 * c + 365 * e + r'"
    "year_of_day d = (400 * a + 100 * b + 4 * c + e + 1, r')"
    "b \<le> 3" "c \<le> 24" "e \<le> 3" "r' \<le> 365" "r' = 365 \<longrightarrow> e = 3 \<and> (c = 24 \<longrightarrow> b = 3)" by blast
  from assms p(2) have yr: "y = 400 * a + 100 * b + 4 * c + e + 1" "r = r'" by simp_all
  show "d = days_before_year y + r" using p(1) unfolding yr by (simp only: days_before_year_parts [OF p(3-5)])
  show "1 \<le> y" using yr(1) by simp
  show "r < year_length y"
  proof (cases "r' = 365")
    case True
    with p(7) isLeap_parts [of c b a] p(3,4) have "isLeap y" unfolding yr by auto
    then show ?thesis using yr(2) True by (simp add: year_length_def)
  next
    case False
    then show ?thesis using yr(2) p(6) by (simp add: year_length_def)
  qed
qed


text \<open>Every year begins right after the one before, so the days determine the years in order.\<close>

lemma days_before_next_year:
  assumes "1 \<le> y"
  shows "days_before_year (Suc y) = days_before_year y + year_length y"
proof -
  obtain n where y: "y = Suc n" using assms by (cases y) auto
  have le: "n div 100 \<le> n div 4" by (rule div_le_mono2) simp_all
  have dvds: "400 dvd y \<Longrightarrow> 100 dvd y" "100 dvd y \<Longrightarrow> 4 dvd y"
    by (erule dvd_trans [rotated], simp)+
  consider "400 dvd y" | "100 dvd y" "\<not> 400 dvd y" | "4 dvd y" "\<not> 100 dvd y" | "\<not> 4 dvd y" by blast
  then show ?thesis
    using le dvds
    by cases (auto simp: y days_before_year_def year_length_def isLeap_def div_Suc ac_simps simp flip: dvd_eq_mod_eq_0)
qed

lemma days_before_year_mono:
  assumes "1 \<le> y" and "y < z"
  shows "days_before_year y + year_length y \<le> days_before_year z"
  using assms(2)
proof (induction z)
  case 0
  then show ?case by simp
next
  case (Suc z)
  then show ?case
    using days_before_next_year [of y] days_before_next_year [of z] assms(1) by (cases "y = z") auto
qed

lemma year_of_day_mono:
  assumes "year_of_day d = (y, r)" and "year_of_day d' = (y', r')" and "d < d'"
  shows "y < y' \<or> y = y' \<and> r < r'"
proof (rule ccontr)
  assume "\<not> ?thesis"
  then consider "y' < y" | "y = y'" "r' \<le> r" by linarith
  then show False
    using days_before_year_mono [of y' y] year_of_day_spec [OF assms(1)] year_of_day_spec [OF assms(2)] assms(3)
    by cases auto
qed


subsection \<open>Months\<close>

definition month_start :: "bool \<Rightarrow> nat \<Rightarrow> nat" where
  "month_start leap m = daysBefore ! (m - 1) + (if leap \<and> m > 2 then 1 else 0)"

lemma twelve_cases:
  fixes m :: nat
  assumes "m < 12"
  shows "m = 0 \<or> m = 1 \<or> m = 2 \<or> m = 3 \<or> m = 4 \<or> m = 5 \<or> m = 6 \<or> m = 7 \<or> m = 8 \<or> m = 9 \<or> m = 10 \<or> m = 11"
  using assms by presburger

lemma month_of_day:
  fixes day :: nat
  assumes "day < 365" and m: "m = day div 31" and k: "k = (if day \<ge> daysBefore ! (m + 1) then m + 1 else m)"
  shows "k < 12" and "daysBefore ! k \<le> day" and "day < daysBefore ! (k + 1)"
proof -
  have b: "31 * m \<le> day" "day < 31 * m + 31" using dividend_less_times_div [of 31 day] by (simp_all add: m)
  then have "m < 12" using assms(1) by linarith
  from twelve_cases [OF this] have "k < 12 \<and> daysBefore ! k \<le> day \<and> day < daysBefore ! (k + 1)"
    using b assms(1) unfolding k by (elim disjE) (simp_all add: daysBefore_def)
  then show "k < 12" and "daysBefore ! k \<le> day" and "day < daysBefore ! (k + 1)" by blast+
qed

lemma month_of_yday_spec:
  assumes "month_of_yday leap r = (m, dy)" and "r < (if leap then 366 else 365)"
  shows "1 \<le> m" and "m \<le> 12" and "1 \<le> dy" and "month_start leap m + dy = r + 1" and "r < month_start leap (m + 1)"
proof -
  have "1 \<le> m \<and> m \<le> 12 \<and> 1 \<le> dy \<and> month_start leap m + dy = r + 1 \<and> r < month_start leap (m + 1)"
  proof (cases "leap \<and> r = 59")
    case True
    with assms(1) have "m = 2" "dy = 29" by (simp_all add: month_of_yday_def)
    with True show ?thesis by (simp add: month_start_def daysBefore_def)
  next
    case False
    define day where "day = (if leap \<and> r > 59 then r - 1 else r)"
    define k where "k = (if day \<ge> daysBefore ! (day div 31 + 1) then day div 31 + 1 else day div 31)"
    have "day < 365" using assms(2) by (auto simp: day_def split: if_splits)
    note sp = month_of_day [OF this refl k_def]
    have md: "m = k + 1" "dy = day - daysBefore ! k + 1"
      using assms(1) False by (auto simp: month_of_yday_def Let_def k_def simp flip: day_def split: if_splits)
    have "k < 2 \<longleftrightarrow> day < 59"
      using sp twelve_cases [OF sp(1)] by (elim disjE) (simp_all add: daysBefore_def)
    then show ?thesis using sp False by (auto simp: md month_start_def day_def split: if_splits)
  qed
  then show "1 \<le> m" and "m \<le> 12" and "1 \<le> dy" and "month_start leap m + dy = r + 1" and "r < month_start leap (m + 1)"
    by blast+
qed

lemma month_start_mono:
  assumes "1 \<le> m" and "m \<le> n" and "n \<le> 13"
  shows "month_start leap m \<le> month_start leap n"
proof -
  have "sorted daysBefore" by (simp add: daysBefore_def)
  then have "daysBefore ! (m - 1) \<le> daysBefore ! (n - 1)"
    using assms by (intro sorted_nth_mono) (auto simp: daysBefore_def)
  then show ?thesis using assms(2) by (simp add: month_start_def)
qed

lemma month_of_yday_mono:
  assumes "month_of_yday leap r = (m, dy)" and "month_of_yday leap r' = (m', dy')"
    and "r < r'" and "r' < (if leap then 366 else 365)"
  shows "m < m' \<or> m = m' \<and> dy < dy'"
proof (rule ccontr)
  assume "\<not> ?thesis"
  then consider "m' < m" | "m = m'" "dy' \<le> dy" by linarith
  moreover have "r < (if leap then 366 else 365)" using assms(3,4) by simp
  ultimately show False
    using month_start_mono [of "m' + 1" m leap] month_of_yday_spec [OF assms(1)] month_of_yday_spec [OF assms(2,4)] assms(3)
    by cases auto
qed

lemma month_of_yday_bounds:
  assumes "month_of_yday leap r = (m, dy)" and "r < (if leap then 366 else 365)"
  shows "m < 100" and "dy < 100"
proof -
  note sp = month_of_yday_spec [OF assms]
  have "month_start leap (m + 1) \<le> month_start leap m + 31"
  proof -
    have "m - 1 < 12" using sp(1,2) by simp
    then show ?thesis using sp(1) by (auto dest!: twelve_cases simp: month_start_def daysBefore_def)
  qed
  with sp show "m < 100" and "dy < 100" by simp_all
qed

subsection \<open>Time stamps\<close>

text \<open>The year, month, day, hour, minute, second and millisecond of a point in time.\<close>

definition clock_fields :: "nat \<Rightarrow> nat list" where
  "clock_fields t =
     (let ms = t div 1000000; s = ms div 1000; mi = s div 60; h = mi div 60;
          (y, yday) = year_of_day (h div 24);
          (mo, dy) = month_of_yday (isLeap y) yday
      in [y, mo, dy, h mod 24, mi mod 60, s mod 60, ms mod 1000])"

text \<open>A number of at least \<open>w\<close> digits, as the layout prints it.\<close>

definition append_int :: "nat \<Rightarrow> nat \<Rightarrow> string" where
  "append_int w n = (if n < 10 ^ w then digits w n else show_nat n)"

fun stamp :: "(nat \<times> string) list \<Rightarrow> nat list \<Rightarrow> string" where
  "stamp ((w, sep) # ws) (n # ns) = append_int w n @ sep @ stamp ws ns"
| "stamp _ _ = ''''"

definition stamp_layout :: "(nat \<times> string) list" where
  "stamp_layout = [(4, ''-''), (2, ''-''), (2, ''T''), (2, '':''), (2, '':''), (2, ''.''), (3, ''Z'')]"

definition AppendFormat :: "nat \<Rightarrow> string" where
  "AppendFormat t = stamp stamp_layout (clock_fields t)"

lemma length_digits [simp]: "length (digits w n) = w"
  by (induction w arbitrary: n) auto

lemma list_less_append:
  fixes a b :: "'a :: linorder list"
  assumes "length a = length b"
  shows "a @ x < b @ y \<longleftrightarrow> a < b \<or> a = b \<and> x < y"
  using assms by (induction a b rule: list_induct2) auto

lemma digit_char_less: "m < 10 \<Longrightarrow> n < 10 \<Longrightarrow> digit_char m < digit_char n \<longleftrightarrow> m < n"
  by (simp add: digit_char_def less_char_def)

lemma less_by_parts:
  fixes m n k :: nat
  shows "m < n \<longleftrightarrow> m div k < n div k \<or> m div k = n div k \<and> m mod k < n mod k"
proof -
  consider "m div k < n div k" | "m div k = n div k" | "n div k < m div k" by linarith
  then show ?thesis
  proof cases
    case 2
    then have "k * (m div k) = k * (n div k)" by simp
    with mult_div_mod_eq [of k m] mult_div_mod_eq [of k n] 2 show ?thesis by linarith
  qed (use div_le_mono [of n m k] div_le_mono [of m n k] in linarith)+
qed

lemma digits_less:
  "m < 10 ^ w \<Longrightarrow> n < 10 ^ w \<Longrightarrow> digits w m < digits w n \<longleftrightarrow> m < n"
proof (induction w arbitrary: m n)
  case 0
  then show ?case by simp
next
  case (Suc w)
  then have "m div 10 < 10 ^ w" "n div 10 < 10 ^ w" by (simp_all add: less_mult_imp_div_less mult.commute)
  note IH = Suc.IH [OF this] Suc.IH [OF this(2,1)]
  have eq: "digits w (m div 10) = digits w (n div 10) \<longleftrightarrow> m div 10 = n div 10"
    using IH by (metis less_irrefl nat_neq_iff)
  have "digits (Suc w) m < digits (Suc w) n \<longleftrightarrow> m div 10 < n div 10 \<or> m div 10 = n div 10 \<and> m mod 10 < n mod 10"
    by (simp add: list_less_append IH eq digit_char_less)
  also have "\<dots> \<longleftrightarrow> m < n"
    by (rule less_by_parts [symmetric])
  finally show ?case .
qed


lemma append_int_less:
  "m < 10 ^ w \<Longrightarrow> n < 10 ^ w \<Longrightarrow> append_int w m < append_int w n \<longleftrightarrow> m < n"
  "m < 10 ^ w \<Longrightarrow> n < 10 ^ w \<Longrightarrow> append_int w m = append_int w n \<longleftrightarrow> m = n"
  using digits_less [of m w n] digits_less [of n w m]
  by (simp_all add: append_int_def) (metis less_irrefl nat_neq_iff)

text \<open>Fields that fit their widths are printed at a fixed length and compare like the fields.\<close>

definition fits :: "(nat \<times> string) list \<Rightarrow> nat list \<Rightarrow> bool" where
  "fits ws ns = list_all2 (\<lambda>(w, _) n. n < 10 ^ w) ws ns"

lemma length_stamp: "fits ws ns \<Longrightarrow> length (stamp ws ns) = sum_list (map (\<lambda>(w, sep). w + length sep) ws)"
  unfolding fits_def by (induction rule: list_all2_induct) (auto simp: append_int_def)

lemma stamp_less: "fits ws ms \<Longrightarrow> fits ws ns \<Longrightarrow> stamp ws ms < stamp ws ns \<longleftrightarrow> ms < ns"
proof (induction ws arbitrary: ms ns)
  case Nil
  then show ?case by (simp add: fits_def)
next
  case (Cons w ws)
  obtain k sep where w: "w = (k, sep)" by fastforce
  obtain m ms' n ns' where l: "ms = m # ms'" "ns = n # ns'" and b: "m < 10 ^ k" "n < 10 ^ k"
    and f: "fits ws ms'" "fits ws ns'"
    using Cons.prems by (auto simp: fits_def w list_all2_Cons1)
  have "length (append_int k m) = length (append_int k n)" using b by (simp add: append_int_def)
  then show ?case using Cons.IH [OF f] append_int_less [OF b] by (auto simp: w l list_less_append)
qed

lemma clock_fields_fit:
  assumes "hd (clock_fields t) < 10000"
  shows "fits stamp_layout (clock_fields t)"
proof -
  obtain y r where y: "year_of_day (t div 1000000 div 1000 div 60 div 60 div 24) = (y, r)" by fastforce
  obtain m dy where m: "month_of_yday (isLeap y) r = (m, dy)" by fastforce
  have "m < 100" "dy < 100"
    using month_of_yday_bounds [OF m] year_of_day_spec(3) [OF y] by (simp_all add: year_length_def split: if_splits)
  moreover have "j mod 24 < 100" "j mod 60 < 100" "j mod 1000 < 1000" for j :: nat
    using mod_less_divisor [of 24 j] mod_less_divisor [of 60 j] by linarith+
  ultimately show ?thesis using assms by (simp add: clock_fields_def fits_def stamp_layout_def Let_def y m)
qed

lemma clock_fields_less:
  assumes "t div 1000000 < t' div 1000000"
  shows "clock_fields t < clock_fields t'"
proof -
  define ms s mi h where "ms = (\<lambda>t :: nat. t div 1000000)" and "s = (\<lambda>t. ms t div 1000)" and "mi = (\<lambda>t. s t div 60)"
    and "h = (\<lambda>t. mi t div 60)"
  obtain y r y' r' where y: "year_of_day (h t div 24) = (y, r)" "year_of_day (h t' div 24) = (y', r')" by fastforce
  obtain m dy m' dy' where m: "month_of_yday (isLeap y) r = (m, dy)" "month_of_yday (isLeap y') r' = (m', dy')" by fastforce
  have f: "clock_fields t = [y, m, dy, h t mod 24, mi t mod 60, s t mod 60, ms t mod 1000]"
    "clock_fields t' = [y', m', dy', h t' mod 24, mi t' mod 60, s t' mod 60, ms t' mod 1000]"
    using y m by (simp_all add: clock_fields_def Let_def ms_def s_def mi_def h_def)
  have r': "r' < (if isLeap y' then 366 else 365)" using year_of_day_spec(3) [OF y(2)] by (simp add: year_length_def)
  have day: "h t div 24 < h t' div 24 \<Longrightarrow> y < y' \<or> y = y' \<and> (m < m' \<or> m = m' \<and> dy < dy')"
    using year_of_day_mono [OF y] month_of_yday_mono [OF m(1)] m(2) r' by blast
  have same: "h t div 24 = h t' div 24 \<Longrightarrow> y = y' \<and> m = m' \<and> dy = dy'" using y m by simp
  have hour: "h t < h t' \<Longrightarrow> [y, m, dy, h t mod 24] @ x < [y', m', dy', h t' mod 24] @ x'" for x x'
    using less_by_parts [of "h t" "h t'" 24] day same by auto
  have "ms t < ms t'" using assms by (simp add: ms_def)
  then have "s t < s t' \<or> s t = s t' \<and> ms t mod 1000 < ms t' mod 1000" by (simp only: s_def less_by_parts [of "ms t" "ms t'" 1000])
  moreover have "s t < s t' \<longleftrightarrow> mi t < mi t' \<or> mi t = mi t' \<and> s t mod 60 < s t' mod 60"
    unfolding mi_def by (rule less_by_parts)
  moreover have "mi t < mi t' \<longleftrightarrow> h t < h t' \<or> h t = h t' \<and> mi t mod 60 < mi t' mod 60"
    unfolding h_def by (rule less_by_parts)
  moreover have "s t = s t' \<Longrightarrow> mi t = mi t'" "mi t = mi t' \<Longrightarrow> h t = h t'" by (simp_all add: mi_def h_def)
  ultimately consider "h t < h t'" | "h t = h t'" "[mi t mod 60, s t mod 60, ms t mod 1000] < [mi t' mod 60, s t' mod 60, ms t' mod 1000]"
    by auto
  then show ?thesis
  proof cases
    case 1
    from hour [OF this, of "[mi t mod 60, s t mod 60, ms t mod 1000]" "[mi t' mod 60, s t' mod 60, ms t' mod 1000]"]
    show ?thesis by (simp add: f)
  next
    case 2
    with same show ?thesis by (simp add: f)
  qed
qed


lemma clock_fields_order:
  "clock_fields t < clock_fields t' \<longleftrightarrow> t div 1000000 < t' div 1000000"
proof -
  have "clock_fields t = clock_fields t'" if "t div 1000000 = t' div 1000000" using that by (simp add: clock_fields_def)
  then show ?thesis using clock_fields_less [of t t'] clock_fields_less [of t' t] by (metis less_asym less_irrefl linorder_neqE_nat)
qed

lemma AppendFormat_order:
  assumes "hd (clock_fields t) < 10000" and "hd (clock_fields t') < 10000"
  shows "AppendFormat t < AppendFormat t' \<longleftrightarrow> t div 1000000 < t' div 1000000"
  unfolding AppendFormat_def stamp_less [OF assms [THEN clock_fields_fit]] by (rule clock_fields_order)

lemma AppendFormat_length:
  "hd (clock_fields t) < 10000 \<Longrightarrow> length (AppendFormat t) = 24"
  using length_stamp [OF clock_fields_fit] by (simp add: AppendFormat_def stamp_layout_def)

lemma year_of_day_example: "year_of_day 738944 = (2024, 59)"
  by (simp add: year_of_day_def)

lemma clock_fields_example: "clock_fields 63844847999999999999 = [2024, 2, 29, 23, 59, 59, 999]"
  by (simp add: clock_fields_def year_of_day_example month_of_yday_def isLeap_def)

lemma year_of_day_zero: "year_of_day 0 = (1, 0)"
  by (simp add: year_of_day_def)

lemma clock_fields_zero: "clock_fields 0 = [1, 1, 1, 0, 0, 0, 0]"
  by (simp add: clock_fields_def year_of_day_zero month_of_yday_def daysBefore_def)

lemma AppendFormat_example: "AppendFormat 63844847999999999999 = ''2024-02-29T23:59:59.999Z''"
  by (simp add: AppendFormat_def clock_fields_example stamp_layout_def append_int_def digit_char_def char_of_def bit_0)

subsection \<open>Names made from the time\<close>

text \<open>The layouts \<open>2006-01-02\<close> and \<open>15-04-05.000\<close>, for a time in the local zone.\<close>

definition Format_date :: "nat \<Rightarrow> string" where
  "Format_date t = stamp [(4, ''-''), (2, ''-''), (2, '''')] (take 3 (clock_fields t))"

definition Format_clock :: "nat \<Rightarrow> string" where
  "Format_clock t = stamp [(2, ''-''), (2, ''-''), (2, ''.''), (3, '''')] (drop 3 (clock_fields t))"

lemma digits_chars: "set (digits w n) \<subseteq> Collect is_digit"
  by (induction w arbitrary: n) (auto simp: digit_round)

lemma append_int_chars: "set (append_int w n) \<subseteq> Collect is_digit"
  using digits_chars [of w n] show_nat_digits [of n] by (auto simp: append_int_def all_digits_def list_all_iff)

lemma length_append_int: "w \<le> length (append_int w n)"
proof -
  have lt: "n < 10 ^ length (show_nat n)" for n
  proof (induction n rule: show_nat.induct)
    case (1 n)
    show ?case
    proof (cases "n < 10")
      case True
      then show ?thesis by (subst show_nat.simps) simp
    next
      case False
      with "1.IH" have "n div 10 < 10 ^ length (show_nat (n div 10))" by simp
      then have "n < 10 * 10 ^ length (show_nat (n div 10))" by (simp add: div_less_iff_less_mult mult.commute)
      then show ?thesis using False by (subst show_nat.simps) simp
    qed
  qed
  show ?thesis
  proof (cases "n < 10 ^ w")
    case False
    then have "10 ^ w \<le> n" by (simp only: not_less)
    then have "10 ^ w < (10 :: nat) ^ length (show_nat n)" using lt by (rule le_less_trans)
    then have "w < length (show_nat n)" by (rule power_less_imp_less_exp [rotated]) simp
    then show ?thesis using False by (simp add: append_int_def)
  qed (simp add: append_int_def)
qed

lemma stamp_chars: "set (stamp ws ns) \<subseteq> Collect is_digit \<union> \<Union> (set ` snd ` set ws)"
  using append_int_chars by (induction ws ns rule: stamp.induct) (fastforce simp del: append_int_def)+

lemma Format_no_slash: "CHR ''/'' \<notin> set (Format_date t)" "CHR ''/'' \<notin> set (Format_clock t)"
  using stamp_chars [of "[(4, ''-''), (2, ''-''), (2, '''')]" "take 3 (clock_fields t)"]
    stamp_chars [of "[(2, ''-''), (2, ''-''), (2, ''.''), (3, '''')]" "drop 3 (clock_fields t)"]
  by (auto simp: Format_date_def Format_clock_def is_digit_def)

lemma Format_date_long: "2 < length (Format_date t)"
proof -
  have "\<exists>y m d ns. clock_fields t = y # m # d # ns"
    by (simp add: clock_fields_def Let_def split: prod.splits)
  then obtain y m d ns where "clock_fields t = y # m # d # ns" by blast
  then show ?thesis using length_append_int [of 4 y] by (cases "append_int 4 y") (auto simp: Format_date_def)
qed

end
