(* ===== verification/Logger.thy ===== *)
theory Logger
  imports Complex_Main GoTime
begin

text \<open>
  Package \<open>log\<close> (src/log/logger.go): a structured logger over zap with a mode that
  buffers all calls into one line until \<open>Flush\<close>.  A zap logger is its level, its
  context fields and whether it is the no-op one; what it is given is an \<open>entry\<close>.
  \<open>Panic\<close> and \<open>Fatal\<close> entries end the caller, which is the outcome.  Zap's own
  sampling of repeated entries and its JSON encoding are not modelled.
\<close>

subsection \<open>Fields\<close>

datatype FieldType = BoolType | IntType | IntpType | Float64Type | Float64pType | StringType | StringsType
  | StringpType | ErrorType | TimeType | DurationType | AnyType | MessageType

text \<open>The dynamic types that the package stores in an interface value.\<close>

datatype 'v iface = INil | IFloat64p "real option" | IStrings "string list" | IStringp "string option"
  | IError string | ITime int | IDuration int | IAny 'v

record 'v Field =
  Key :: string
  Type :: FieldType
  Integer :: int
  FFloat64 :: real
  FString :: string
  Interface :: "'v iface"

definition field0 :: "string \<Rightarrow> FieldType \<Rightarrow> 'v Field" where
  "field0 key t = \<lparr>Key = key, Type = t, Integer = 0, FFloat64 = 0, FString = '''', Interface = INil\<rparr>"

definition Bool_field :: "string \<Rightarrow> bool \<Rightarrow> 'v Field" where
  "Bool_field key val = (field0 key BoolType)\<lparr>Integer := (if val then 1 else 0)\<rparr>"

definition Int_field :: "string \<Rightarrow> int \<Rightarrow> 'v Field" where
  "Int_field key val = (field0 key IntType)\<lparr>Integer := val\<rparr>"

definition Int64 :: "string \<Rightarrow> int \<Rightarrow> 'v Field" where
  "Int64 key val = (field0 key IntType)\<lparr>Integer := val\<rparr>"

definition Float64 :: "string \<Rightarrow> real \<Rightarrow> 'v Field" where
  "Float64 key val = (field0 key IntType)\<lparr>FFloat64 := val\<rparr>"

definition Float64p :: "string \<Rightarrow> real option \<Rightarrow> 'v Field" where
  "Float64p key val = (field0 key Float64pType)\<lparr>Interface := IFloat64p val\<rparr>"

definition String_field :: "string \<Rightarrow> string \<Rightarrow> 'v Field" where
  "String_field key val = (field0 key StringType)\<lparr>FString := val\<rparr>"

definition Strings :: "string \<Rightarrow> string list \<Rightarrow> 'v Field" where
  "Strings key val = (field0 key StringsType)\<lparr>Interface := IStrings val\<rparr>"

definition Stringp :: "string \<Rightarrow> string option \<Rightarrow> 'v Field" where
  "Stringp key val = (field0 key StringpType)\<lparr>Interface := IStringp val\<rparr>"

definition Error_field :: "string option \<Rightarrow> 'v Field" where
  "Error_field err = (field0 ''error'' ErrorType)\<lparr>Interface := (case err of None \<Rightarrow> INil | Some m \<Rightarrow> IError m)\<rparr>"

definition Time :: "string \<Rightarrow> int \<Rightarrow> 'v Field" where
  "Time key val = (field0 key TimeType)\<lparr>Interface := ITime val\<rparr>"

definition Duration :: "string \<Rightarrow> int \<Rightarrow> 'v Field" where
  "Duration key val = (field0 key DurationType)\<lparr>Interface := IDuration val\<rparr>"

definition Stack :: "string \<Rightarrow> string \<Rightarrow> 'v Field" where
  "Stack trace name = (field0 name StringType)\<lparr>FString := trace\<rparr>"

definition Any :: "string \<Rightarrow> 'v \<Rightarrow> 'v Field" where
  "Any name val = (field0 name AnyType)\<lparr>Interface := IAny val\<rparr>"

definition MainMessage :: "'v Field" where
  "MainMessage = field0 '''' MessageType"

datatype 'v zap_field = ZBool string bool | ZInt64 string int | ZFloat64 string real | ZFloat64p string "real option"
  | ZString string string | ZStrings string "string list" | ZStringp string "string option" | ZTime string int
  | ZDuration string int | ZAny string "'v iface"

text \<open>
  The loop of \<open>convert\<close>.  \<open>None\<close> is the panic of a failed type assertion; a type
  that the switch does not name adds nothing.
\<close>

definition convert1 :: "'v Field \<Rightarrow> 'v zap_field list option" where
  "convert1 f = (case Type f of
      BoolType \<Rightarrow> Some [ZBool (Key f) (Integer f > 0)]
    | IntType \<Rightarrow> Some [ZInt64 (Key f) (Integer f)]
    | Float64Type \<Rightarrow> Some [ZFloat64 (Key f) (FFloat64 f)]
    | Float64pType \<Rightarrow> (case Interface f of IFloat64p v \<Rightarrow> Some [ZFloat64p (Key f) v] | _ \<Rightarrow> None)
    | StringType \<Rightarrow> Some [ZString (Key f) (FString f)]
    | StringsType \<Rightarrow> (case Interface f of IStrings v \<Rightarrow> Some [ZStrings (Key f) v] | _ \<Rightarrow> None)
    | StringpType \<Rightarrow> (case Interface f of IStringp v \<Rightarrow> Some [ZStringp (Key f) v] | _ \<Rightarrow> None)
    | TimeType \<Rightarrow> (case Interface f of ITime v \<Rightarrow> Some [ZTime (Key f) v] | _ \<Rightarrow> None)
    | DurationType \<Rightarrow> (case Interface f of IDuration v \<Rightarrow> Some [ZDuration (Key f) v] | _ \<Rightarrow> None)
    | ErrorType \<Rightarrow> (case Interface f of IError m \<Rightarrow> Some [ZString (Key f) m] | _ \<Rightarrow> None)
    | AnyType \<Rightarrow> Some [ZAny (Key f) (Interface f)]
    | IntpType \<Rightarrow> Some []
    | MessageType \<Rightarrow> Some [])"

fun convert :: "'v Field list \<Rightarrow> 'v zap_field list option" where
  "convert [] = Some []"
| "convert (f # fs) = (case convert1 f of
     None \<Rightarrow> None
   | Some zs \<Rightarrow> (case convert fs of None \<Rightarrow> None | Some rest \<Rightarrow> Some (zs @ rest)))"

subsection \<open>The logger\<close>

definition DebugLevel :: int where "DebugLevel = -1"
definition InfoLevel :: int where "InfoLevel = 0"
definition WarnLevel :: int where "WarnLevel = 1"
definition ErrorLevel :: int where "ErrorLevel = 2"
definition DPanicLevel :: int where "DPanicLevel = 3"
definition PanicLevel :: int where "PanicLevel = 4"
definition FatalLevel :: int where "FatalLevel = 5"

lemmas level_defs = DebugLevel_def InfoLevel_def WarnLevel_def ErrorLevel_def DPanicLevel_def PanicLevel_def FatalLevel_def

definition zeroLevel :: int where
  "zeroLevel = DebugLevel - 1"

record 'v zap_logger =
  zap_level :: int
  zap_fields :: "'v zap_field list"
  zap_nop :: bool
  DisableCaller :: bool
  Sampling :: bool

record 'v logger =
  externalLogger :: "'v zap_logger"
  oneline :: bool
  level :: int
  message :: string
  lfields :: "'v Field list"

datatype 'v entry = Entry int string "'v zap_field list"

datatype outcome = Continues | Panics | Exits

definition zapLevels :: "string \<rightharpoonup> int" where
  "zapLevels = [''debug'' \<mapsto> DebugLevel, ''info'' \<mapsto> InfoLevel, ''warn'' \<mapsto> WarnLevel, ''error'' \<mapsto> ErrorLevel,
     ''dpanic'' \<mapsto> DPanicLevel, ''panic'' \<mapsto> PanicLevel, ''fatal'' \<mapsto> FatalLevel]"

definition NewNop :: "'v logger" where
  "NewNop = \<lparr>externalLogger = \<lparr>zap_level = 0, zap_fields = [], zap_nop = True, DisableCaller = False, Sampling = False\<rparr>,
     oneline = False, level = 0, message = '''', lfields = []\<rparr>"

text \<open>\<open>buildErr\<close> is the error of zap's \<open>Build\<close>.\<close>

definition New :: "string option \<Rightarrow> string \<Rightarrow> bool \<Rightarrow> string + 'v logger" where
  "New buildErr lvl one = (case buildErr of
      Some e \<Rightarrow> Inl (''construct logger from config: '' @ e)
    | None \<Rightarrow> Inr \<lparr>externalLogger = \<lparr>zap_level = map_get 0 zapLevels lvl, zap_fields = [], zap_nop = False,
          DisableCaller = (lvl \<noteq> ''debug''), Sampling = (lvl = ''debug'')\<rparr>,
        oneline = one, level = zeroLevel, message = '''', lfields = []\<rparr>)"

text \<open>What zap does with an entry at a level: the level decides whether it is written.\<close>

definition zap_write :: "'v zap_logger \<Rightarrow> int \<Rightarrow> string \<Rightarrow> 'v zap_field list \<Rightarrow> 'v entry list" where
  "zap_write z lvl msg zs = (if zap_level z \<le> lvl \<and> \<not> zap_nop z then [Entry lvl msg (zap_fields z @ zs)] else [])"

definition directLog :: "'v logger \<Rightarrow> int \<Rightarrow> string \<Rightarrow> 'v zap_field list \<Rightarrow> 'v entry list \<times> outcome" where
  "directLog l lvl msg zs =
     (let z = externalLogger l
      in if lvl = DebugLevel then (zap_write z DebugLevel msg zs, Continues)
         else if lvl = InfoLevel then (zap_write z InfoLevel msg zs, Continues)
         else if lvl = WarnLevel then (zap_write z WarnLevel msg zs, Continues)
         else if lvl = ErrorLevel then (zap_write z ErrorLevel msg zs, Continues)
         else if lvl = PanicLevel then (zap_write z PanicLevel msg zs, Panics)
         else if lvl = FatalLevel then (zap_write z FatalLevel msg zs, Exits)
         else ([], Continues))"

text \<open>The loop over the fields of a buffered call: the message and the buffer.\<close>

fun buffer_fields :: "string \<Rightarrow> 'v Field list \<Rightarrow> string \<times> 'v Field list \<Rightarrow> string \<times> 'v Field list" where
  "buffer_fields msg [] acc = acc"
| "buffer_fields msg (f # fs) (m, buf) =
     buffer_fields msg fs (if Type f = MessageType then (msg, buf) else (m, buf @ [f]))"

definition log_msg :: "'v logger \<Rightarrow> int \<Rightarrow> string \<Rightarrow> 'v Field list \<Rightarrow> 'v logger \<times> 'v entry list \<times> outcome" where
  "log_msg l lvl msg fs =
     (if \<not> oneline l then
        (case convert fs of None \<Rightarrow> (l, [], Panics) | Some zs \<Rightarrow> (case directLog l lvl msg zs of (es, oc) \<Rightarrow> (l, es, oc)))
      else if lvl < level l then (l, [], Continues)
      else (case buffer_fields msg fs (message l, lfields l) of (m, buf) \<Rightarrow>
        let m' = (if lvl > level l \<or> m = '''' then msg else m)
        in (l\<lparr>message := m', lfields := buf, level := lvl\<rparr>, [], Continues)))"

definition Debug :: "'v logger \<Rightarrow> string \<Rightarrow> 'v Field list \<Rightarrow> 'v logger \<times> 'v entry list \<times> outcome" where
  "Debug l msg fs = log_msg l DebugLevel msg fs"

definition Info :: "'v logger \<Rightarrow> string \<Rightarrow> 'v Field list \<Rightarrow> 'v logger \<times> 'v entry list \<times> outcome" where
  "Info l msg fs = log_msg l InfoLevel msg fs"

definition Warn :: "'v logger \<Rightarrow> string \<Rightarrow> 'v Field list \<Rightarrow> 'v logger \<times> 'v entry list \<times> outcome" where
  "Warn l msg fs = log_msg l WarnLevel msg fs"

definition Error :: "'v logger \<Rightarrow> string \<Rightarrow> 'v Field list \<Rightarrow> 'v logger \<times> 'v entry list \<times> outcome" where
  "Error l msg fs = log_msg l ErrorLevel msg fs"

definition DPanic :: "'v logger \<Rightarrow> string \<Rightarrow> 'v Field list \<Rightarrow> 'v logger \<times> 'v entry list \<times> outcome" where
  "DPanic l msg fs = log_msg l DPanicLevel msg fs"

definition Panic :: "'v logger \<Rightarrow> string \<Rightarrow> 'v Field list \<Rightarrow> 'v logger \<times> 'v entry list \<times> outcome" where
  "Panic l msg fs = log_msg l PanicLevel msg fs"

definition Fatal :: "'v logger \<Rightarrow> string \<Rightarrow> 'v Field list \<Rightarrow> 'v logger \<times> 'v entry list \<times> outcome" where
  "Fatal l msg fs = log_msg l FatalLevel msg fs"

text \<open>\<open>Infof\<close> writes past the buffer; the text is formatted by \<open>fmt\<close>.\<close>

definition Infof :: "'v logger \<Rightarrow> string \<Rightarrow> 'v entry list" where
  "Infof l text = zap_write (externalLogger l) InfoLevel text []"

definition zap_With :: "'v zap_logger \<Rightarrow> 'v zap_field list \<Rightarrow> 'v zap_logger" where
  "zap_With z zs = z\<lparr>zap_fields := zap_fields z @ zs\<rparr>"

definition Add :: "'v logger \<Rightarrow> 'v Field list \<Rightarrow> 'v logger option" where
  "Add l fs = (case convert fs of None \<Rightarrow> None | Some zs \<Rightarrow> Some (l\<lparr>externalLogger := zap_With (externalLogger l) zs\<rparr>))"

definition With :: "'v logger \<Rightarrow> 'v Field list \<Rightarrow> 'v logger option" where
  "With l fs = (case convert fs of None \<Rightarrow> None
    | Some zs \<Rightarrow> Some \<lparr>externalLogger = zap_With (externalLogger l) zs, oneline = oneline l, level = level l,
        message = '''', lfields = []\<rparr>)"

definition Flush :: "'v logger \<Rightarrow> 'v logger \<times> 'v entry list \<times> outcome" where
  "Flush l =
     (if \<not> oneline l then (l, [], Continues)
      else
        let l' = l\<lparr>message := '''', level := zeroLevel, lfields := []\<rparr>
        in if length (lfields l) > 0 \<or> message l \<noteq> '''' then
             (case convert (lfields l) of
                None \<Rightarrow> (l, [], Panics)
              | Some zs \<Rightarrow> (case directLog l (level l) (message l) zs of
                  (es, Continues) \<Rightarrow> (l', es, Continues)
                | (es, oc) \<Rightarrow> (l, es, oc)))
           else (l', [], Continues))"

definition Verbose :: "'v logger \<Rightarrow> 'v logger" where
  "Verbose l = \<lparr>externalLogger = externalLogger l, oneline = False, level = zeroLevel, message = '''', lfields = []\<rparr>"

definition SetContextLogger :: "'v logger \<Rightarrow> (string \<rightharpoonup> 'v logger) \<Rightarrow> (string \<rightharpoonup> 'v logger)" where
  "SetContextLogger l ctx = ctx(''ContextMetaLogger'' \<mapsto> l)"

text \<open>\<open>None\<close> is the panic when the context has no logger.\<close>

definition GetContextLogger :: "(string \<rightharpoonup> 'v logger) \<Rightarrow> 'v logger option" where
  "GetContextLogger ctx = ctx ''ContextMetaLogger''"

definition logLevels :: "int \<rightharpoonup> int" where
  "logLevels = [DebugLevel \<mapsto> -4, InfoLevel \<mapsto> 0, WarnLevel \<mapsto> 4, ErrorLevel \<mapsto> 8]"

definition SlogHandler :: "'v logger \<Rightarrow> int \<times> 'v zap_logger" where
  "SlogHandler l = (map_get 0 logLevels (zap_level (externalLogger l)), externalLogger l)"

text \<open>\<open>zapSync\<close> is zap's own \<open>Sync\<close>.\<close>

definition Sync :: "('v zap_logger \<Rightarrow> string option) \<Rightarrow> 'v logger \<Rightarrow> string option" where
  "Sync zapSync l = zapSync (externalLogger l)"

text \<open>The time stamp of an entry, appended to the bytes that the encoder has.\<close>

definition timeEncoder :: "nat \<Rightarrow> string \<Rightarrow> string" where
  "timeEncoder t enc = enc @ AppendFormat t"

subsection \<open>What a buffered line contains\<close>

text \<open>
  A call is a level, a message and fields.  \<open>kept\<close> are the calls that were not below
  an earlier one, \<open>line_message\<close> is the message of the last call of the highest level
  that is marked as the main one, or else of the first call of that level.
\<close>

type_synonym 'v call = "int \<times> string \<times> 'v Field list"

definition log_calls :: "'v logger \<Rightarrow> 'v call list \<Rightarrow> 'v logger" where
  "log_calls = foldl (\<lambda>l (lvl, msg, fs). fst (log_msg l lvl msg fs))"

definition marked :: "'v call \<Rightarrow> bool" where
  "marked c = list_ex (\<lambda>f. Type f = MessageType) (snd (snd c))"

definition plain_fields :: "'v call \<Rightarrow> 'v Field list" where
  "plain_fields c = filter (\<lambda>f. Type f \<noteq> MessageType) (snd (snd c))"

definition highest :: "'v call list \<Rightarrow> int" where
  "highest cs = Max (set (map fst cs))"

fun kept :: "int \<Rightarrow> 'v call list \<Rightarrow> 'v call list" where
  "kept m [] = []"
| "kept m (c # cs) = (if fst c < m then kept m cs else c # kept (fst c) cs)"

definition line_message :: "'v call list \<Rightarrow> string" where
  "line_message cs =
     (let top = filter (\<lambda>c. fst c = highest cs) cs; main = filter marked top
      in fst (snd (if main \<noteq> [] then last main else hd top)))"

definition line_fields :: "'v call list \<Rightarrow> 'v Field list" where
  "line_fields cs = concat (map plain_fields (kept zeroLevel cs))"

definition proper :: "'v call \<Rightarrow> bool" where
  "proper c \<longleftrightarrow> DebugLevel \<le> fst c \<and> fst (snd c) \<noteq> ''''"

definition idle :: "'v logger \<Rightarrow> bool" where
  "idle l \<longleftrightarrow> oneline l \<and> level l = zeroLevel \<and> message l = '''' \<and> lfields l = []"

lemma buffer_fields_eq: "buffer_fields msg fs (m, buf) =
   (if list_ex (\<lambda>f. Type f = MessageType) fs then msg else m, buf @ filter (\<lambda>f. Type f \<noteq> MessageType) fs)"
  by (induction fs arbitrary: m buf) auto

lemma log_buffers:
  assumes "oneline l"
  shows "log_msg l lvl msg fs = (if lvl < level l then l
    else l\<lparr>message := (if lvl > level l \<or> (\<not> marked (lvl, msg, fs) \<and> message l = '''') \<or> marked (lvl, msg, fs) then msg else message l),
           lfields := lfields l @ plain_fields (lvl, msg, fs), level := lvl\<rparr>, [], Continues)"
  using assms by (auto simp: log_msg_def buffer_fields_eq marked_def plain_fields_def Let_def)

lemma log_calls_snoc: "log_calls l (cs @ [c]) = fst (log_msg (log_calls l cs) (fst c) (fst (snd c)) (snd (snd c)))"
  by (simp add: log_calls_def split: prod.split)

lemma log_calls_frame:
  assumes "oneline l"
  shows "externalLogger (log_calls l cs) = externalLogger l \<and> oneline (log_calls l cs)"
  using assms
proof (induction cs rule: rev_induct)
  case Nil
  then show ?case by (simp add: log_calls_def)
next
  case (snoc c cs)
  then show ?case by (simp add: log_calls_snoc log_buffers)
qed

lemma highest_snoc: "cs \<noteq> [] \<Longrightarrow> highest (cs @ [c]) = max (highest cs) (fst c)"
  by (simp add: highest_def max.commute)

lemma highest_ge: "c \<in> set cs \<Longrightarrow> fst c \<le> highest cs"
  by (simp add: highest_def)

lemma highest_in: "cs \<noteq> [] \<Longrightarrow> \<exists>c\<in>set cs. fst c = highest cs"
  unfolding highest_def by (metis (no_types, lifting) List.finite_set Max_in imageE list.map_disc_iff list.set_map set_empty)

lemma kept_snoc: "kept m (cs @ [c]) = kept m cs @ (if fst c < foldl max m (map fst cs) then [] else [c])"
  by (induction cs arbitrary: m) (auto simp: max_def)

lemma foldl_max: "foldl max m xs = Max (insert m (set xs))" for m :: int
proof (induction xs arbitrary: m)
  case Nil
  then show ?case by simp
next
  case (Cons x xs)
  then show ?case by (cases "xs = []") (simp_all add: max.assoc max.left_commute)
qed

lemma foldl_highest:
  assumes "cs \<noteq> []" and "list_all proper cs"
  shows "foldl max zeroLevel (map fst cs) = highest cs"
proof -
  from assms obtain c where "c \<in> set cs" "proper c" by (cases cs) auto
  then have "zeroLevel \<le> highest cs" using highest_ge by (fastforce simp: proper_def zeroLevel_def)
  then show ?thesis using assms(1) by (simp add: foldl_max highest_def)
qed

lemma line_fields_snoc:
  assumes "cs \<noteq> []" and "list_all proper cs"
  shows "line_fields (cs @ [c]) = line_fields cs @ (if fst c < highest cs then [] else plain_fields c)"
  using foldl_highest [OF assms] by (simp add: line_fields_def kept_snoc)

lemma line_message_snoc:
  assumes "cs \<noteq> []"
  shows "line_message (cs @ [c]) =
    (if fst c < highest cs \<or> fst c = highest cs \<and> \<not> marked c then line_message cs else fst (snd c))"
proof -
  obtain d where d: "d \<in> set cs" "fst d = highest cs" using highest_in [OF assms] by blast
  then have top: "filter (\<lambda>c. fst c = highest cs) cs \<noteq> []" by (auto simp: filter_empty_conv)
  have none: "filter (\<lambda>d. fst d = fst c) cs = []" if "highest cs < fst c"
    using that highest_ge by (fastforce simp: filter_empty_conv)
  consider "fst c < highest cs" | "fst c = highest cs" | "highest cs < fst c" by linarith
  then show ?thesis
    by cases (use top none in \<open>auto simp: line_message_def highest_snoc [OF assms] Let_def max_def\<close>)
qed

lemma line_message_nonempty:
  assumes "cs \<noteq> []" and "list_all proper cs"
  shows "line_message cs \<noteq> ''''"
proof -
  let ?top = "filter (\<lambda>c. fst c = highest cs) cs"
  have "?top \<noteq> []" using highest_in [OF assms(1)] by (auto simp: filter_empty_conv)
  then have "hd ?top \<in> set cs" using hd_in_set [of ?top] by auto
  moreover have "last (filter marked ?top) \<in> set cs" if "filter marked ?top \<noteq> []"
    using last_in_set [OF that] by auto
  ultimately show ?thesis
    using assms(2) unfolding line_message_def Let_def by (auto simp: proper_def list_all_iff simp del: filter_filter)
qed

lemma buffered_line:
  assumes "idle l" and "list_all proper cs" and "cs \<noteq> []"
  shows "level (log_calls l cs) = highest cs \<and> message (log_calls l cs) = line_message cs \<and>
    lfields (log_calls l cs) = line_fields cs"
  using assms(3,2)
proof (induction cs rule: rev_nonempty_induct)
  case (single c)
  then show ?case
    using assms(1)
    by (auto simp: log_calls_snoc [of l "[]", simplified] log_calls_def idle_def log_buffers highest_def line_message_def
        line_fields_def proper_def zeroLevel_def split: prod.splits)
next
  case (snoc c cs)
  then have IH: "level (log_calls l cs) = highest cs" "message (log_calls l cs) = line_message cs"
      "lfields (log_calls l cs) = line_fields cs" and pr: "list_all proper cs" by auto
  have one: "oneline (log_calls l cs)" using log_calls_frame assms(1) by (auto simp: idle_def)
  show ?case
    using line_message_nonempty [OF snoc.hyps(1) pr]
    by (auto simp: log_calls_snoc log_buffers [OF one] IH highest_snoc [OF snoc.hyps(1)]
        line_fields_snoc [OF snoc.hyps(1) pr] line_message_snoc [OF snoc.hyps(1)] max_def)
qed

lemma Flush_buffered:
  assumes "idle l" and "list_all proper cs" and "cs \<noteq> []" and "convert (line_fields cs) = Some zs"
  shows "Flush (log_calls l cs) = (case directLog l (highest cs) (line_message cs) zs of
      (es, Continues) \<Rightarrow> (l, es, Continues) | (es, oc) \<Rightarrow> (log_calls l cs, es, oc))"
proof -
  let ?t = "log_calls l cs"
  have t: "level ?t = highest cs" "message ?t = line_message cs" "lfields ?t = line_fields cs"
    using buffered_line [OF assms(1-3)] by auto
  have f: "externalLogger ?t = externalLogger l" "oneline ?t"
    using log_calls_frame [of l cs] assms(1) by (auto simp: idle_def)
  have reset: "?t\<lparr>message := '''', level := zeroLevel, lfields := []\<rparr> = l"
    using f assms(1) by (intro logger.equality) (auto simp: idle_def)
  have dl: "directLog ?t = directLog l" using f by (simp add: directLog_def fun_eq_iff)
  show ?thesis
    using line_message_nonempty [OF assms(3,2)] f(2) by (simp add: Flush_def t reset dl assms(4))
qed

lemma log_below_ignored:
  assumes "oneline l" and "list_all (\<lambda>c. fst c < level l) cs"
  shows "log_calls l cs = l"
  using assms(2)
proof (induction cs rule: rev_induct)
  case Nil
  then show ?case by (simp add: log_calls_def)
next
  case (snoc c cs)
  then show ?case by (simp add: log_calls_snoc log_buffers [OF assms(1)])
qed

subsection \<open>Properties\<close>

text \<open>
  C10: in the buffering mode any sequence of calls, up to level error, followed by
  \<open>Flush\<close> hands exactly one entry to zap, at the highest level that occurred, with the
  message that was marked last at that level or else came first at that level, and with
  the fields of all calls that were not below an earlier one, in order.  The logger is
  then as it was before the calls.
\<close>

theorem flush_writes_one_line:
  assumes "idle l" and "list_all proper cs" and "cs \<noteq> []" and "highest cs \<le> ErrorLevel"
    and "convert (line_fields cs) = Some zs"
  shows "Flush (log_calls l cs) =
    (l, zap_write (externalLogger l) (highest cs) (line_message cs) zs, Continues)"
proof -
  obtain c where "c \<in> set cs" "fst c = highest cs" using highest_in [OF assms(3)] by blast
  then have "DebugLevel \<le> highest cs" using assms(2) by (auto simp: list_all_iff proper_def)
  then have "highest cs = -1 \<or> highest cs = 0 \<or> highest cs = 1 \<or> highest cs = 2"
    using assms(4) by (auto simp: level_defs)
  then have "directLog l (highest cs) (line_message cs) zs
      = (zap_write (externalLogger l) (highest cs) (line_message cs) zs, Continues)"
    by (auto simp: directLog_def level_defs)
  then show ?thesis by (simp add: Flush_buffered [OF assms(1-3,5)])
qed

definition sample_logger :: "bool \<Rightarrow> nat logger" where
  "sample_logger one = \<lparr>externalLogger = \<lparr>zap_level = InfoLevel, zap_fields = [], zap_nop = False, DisableCaller = True,
     Sampling = False\<rparr>, oneline = one, level = zeroLevel, message = '''', lfields = []\<rparr>"

theorem flush_writes_one_line_witness:
  "Flush (log_calls (sample_logger True)
     [(InfoLevel, ''start'', [Int_field ''a'' 1]), (ErrorLevel, ''bad'', [Int_field ''b'' 2]),
      (InfoLevel, ''more'', [Int_field ''c'' 3]), (ErrorLevel, ''main'', [MainMessage, Int_field ''d'' 4])])
   = (sample_logger True, [Entry 2 ''main'' [ZInt64 ''a'' 1, ZInt64 ''b'' 2, ZInt64 ''d'' 4]], Continues)"
proof -
  let ?cs = "[(InfoLevel, ''start'', [Int_field ''a'' 1]), (ErrorLevel, ''bad'', [Int_field ''b'' 2]),
      (InfoLevel, ''more'', [Int_field ''c'' 3]), (ErrorLevel, ''main'', [MainMessage, Int_field ''d'' 4])] :: nat call list"
  have h: "highest ?cs = 2" by (simp add: highest_def level_defs)
  have f: "convert (line_fields ?cs) = Some [ZInt64 ''a'' 1, ZInt64 ''b'' 2, ZInt64 ''d'' 4]"
    by (simp add: line_fields_def zeroLevel_def plain_fields_def Int_field_def MainMessage_def field0_def convert1_def level_defs)
  have m: "line_message ?cs = ''main''"
    unfolding line_message_def h by (simp add: Let_def marked_def Int_field_def MainMessage_def field0_def level_defs)
  have "idle (sample_logger True)" by (simp add: idle_def sample_logger_def)
  moreover have "list_all proper ?cs" by (simp add: proper_def level_defs)
  ultimately show ?thesis
    using flush_writes_one_line [of "sample_logger True" ?cs] f unfolding h m
    by (simp add: zap_write_def sample_logger_def level_defs)
qed

text \<open>
  Level \<open>dpanic\<close> is lost.  Without buffering a \<open>DPanic\<close> call whose fields can be
  converted writes nothing, and with buffering one such call discards the whole line,
  errors and warnings included: \<open>Flush\<close> writes nothing and clears the buffer.
\<close>

theorem dpanic_is_lost:
  assumes "convert fs = Some ys" and "\<not> oneline d"
    and "idle l" and "list_all proper cs" and "cs \<noteq> []" and "highest cs = DPanicLevel" and "convert (line_fields cs) = Some zs"
  shows "DPanic d msg fs = (d, [], Continues) \<and> Flush (log_calls l cs) = (l, [], Continues)"
  using assms(1,2,6) Flush_buffered [OF assms(3-5,7)]
  by (simp add: DPanic_def log_msg_def directLog_def level_defs)

theorem dpanic_is_lost_witness:
  "DPanic (sample_logger False) ''x'' [] = (sample_logger False, [], Continues) \<and>
   Flush (log_calls (sample_logger True) [(ErrorLevel, ''bad'', []), (DPanicLevel, ''worse'', [])]) = (sample_logger True, [], Continues)"
  by (rule dpanic_is_lost [where ys = "[]" and zs = "[]"])
    (simp_all add: sample_logger_def idle_def proper_def highest_def level_defs zeroLevel_def line_fields_def plain_fields_def)

text \<open>
  A clone made by \<open>With\<close> takes over the level of the calls buffered so far in
  the original, though not their message and fields.  Every call on the clone below that
  level is dropped, and flushing the clone then writes nothing.
\<close>

theorem With_inherits_buffered_level:
  assumes "oneline l" and "With l fs = Some k" and "list_all (\<lambda>c. fst c < level l) cs"
  shows "fst (snd (Flush (log_calls k cs))) = []"
proof -
  have k: "oneline k" "level k = level l" "message k = ''''" "lfields k = []"
    using assms(1,2) by (auto simp: With_def split: option.splits)
  then have "log_calls k cs = k" using log_below_ignored [of k cs] assms(3) by simp
  then show ?thesis using k by (simp add: Flush_def Let_def)
qed

theorem With_inherits_buffered_level_witness:
  "\<exists>k. With (fst (Error (sample_logger True) ''failed'' [])) [Int_field ''rid'' 1] = Some k \<and>
     fst (snd (Flush (log_calls k [(InfoLevel, ''start'', []), (InfoLevel, ''finish'', [])]))) = []"
proof -
  let ?l = "fst (Error (sample_logger True) ''failed'' [])"
  have l: "oneline ?l" "level ?l = ErrorLevel"
    by (simp_all add: Error_def log_buffers sample_logger_def level_defs zeroLevel_def)
  obtain k where "With ?l [Int_field ''rid'' 1] = Some k"
    by (simp add: With_def Int_field_def field0_def convert1_def)
  with With_inherits_buffered_level [OF l(1) this, of "[(InfoLevel, ''start'', []), (InfoLevel, ''finish'', [])]"] l
  show ?thesis by (simp add: level_defs)
qed

text \<open>
  Every field constructor but one reaches zap with its key and its value.  The
  exception is \<open>Float64\<close>, which marks its value as an integer: zap is given 0.  A nil
  error as a field makes the conversion panic.
\<close>

theorem field_constructors_convert:
  "convert [Bool_field k b, Int_field k i, Int64 k j, Float64p k q, String_field k t, Strings k ts, Stringp k u,
     Error_field (Some m), Time k n, Duration k d, Stack tr k, Any k v, MainMessage] =
   Some [ZBool k b, ZInt64 k i, ZInt64 k j, ZFloat64p k q, ZString k t, ZStrings k ts, ZStringp k u,
     ZString ''error'' m, ZTime k n, ZDuration k d, ZString k tr, ZAny k (IAny v)] \<and>
   convert [Float64 k x] = Some [ZInt64 k 0] \<and> convert [Error_field None] = None"
  by (simp add: convert1_def field0_def Bool_field_def Int_field_def Int64_def Float64_def Float64p_def String_field_def
      Strings_def Stringp_def Error_field_def Time_def Duration_def Stack_def Any_def MainMessage_def)


text \<open>
  C37: the time stamps of the log sort like the times.  Up to the year 9999 every stamp has
  24 characters, and of two stamps the smaller as a string is the one of the earlier
  millisecond; stamps of the same millisecond are equal.
\<close>

theorem timeEncoder_sorts:
  assumes "hd (clock_fields t) < 10000" and "hd (clock_fields t') < 10000"
  shows "length (timeEncoder t '''') = 24 \<and>
    (timeEncoder t '''' < timeEncoder t' '''' \<longleftrightarrow> t div 1000000 < t' div 1000000) \<and>
    (timeEncoder t '''' = timeEncoder t' '''' \<longleftrightarrow> t div 1000000 = t' div 1000000)"
proof -
  note lt = AppendFormat_order [OF assms] AppendFormat_order [OF assms(2,1)]
  have "AppendFormat t = AppendFormat t' \<longleftrightarrow> t div 1000000 = t' div 1000000"
    using lt by (metis less_irrefl linorder_neqE)
  then show ?thesis using lt AppendFormat_length [OF assms(1)] by (simp add: timeEncoder_def)
qed

theorem timeEncoder_sorts_witness:
  "timeEncoder 0 '''' < timeEncoder 63844847999999999999 '''' \<and> timeEncoder 63844847999999999999 '''' = ''2024-02-29T23:59:59.999Z''"
  using timeEncoder_sorts [of 0 63844847999999999999] AppendFormat_example
  by (simp add: clock_fields_example clock_fields_zero timeEncoder_def)

end
