(* ===== verification/RequestLog.thy ===== *)
theory RequestLog
  imports Middleware Logger
begin

text \<open>
  The log line of a request: the instrumentation of src/httpserver/middleware.go together
  with the buffering logger of src/log/logger.go.  \<open>Middleware\<close> records the calls that are
  made on the context logger of a request; here they are played on the logger itself, a
  clone with the fields of the request, as \<open>instrumentationMiddleware\<close> makes it.
\<close>

subsection \<open>Playing the calls of a request\<close>

definition level_of :: "string \<Rightarrow> int" where
  "level_of lvl = map_get InfoLevel zapLevels lvl"

text \<open>
  The fields as the middleware builds them: \<open>took\<close> is a duration, \<open>error\<close> an error, the
  others are strings.  A recorded call shows the fields of the context logger first.
\<close>

definition to_field :: "string \<times> string \<Rightarrow> 'v Field" where
  "to_field kv = (case kv of (k, v) \<Rightarrow>
     if k = ''took'' then Duration k (fst (Atoi v)) else if k = ''error'' then Error_field (Some v) else String_field k v)"

definition own_fields :: "(string \<times> string) list \<Rightarrow> (string \<times> string) list \<Rightarrow> 'v Field list" where
  "own_fields ctx fs = map to_field (drop (length ctx) fs)"

fun to_call :: "(string \<times> string) list \<Rightarrow> log_call \<Rightarrow> 'v call" where
  "to_call ctx (LogCall lvl msg fs) = (level_of lvl, msg, own_fields ctx fs)"
| "to_call ctx (LogMain lvl msg fs) = (level_of lvl, msg, own_fields ctx fs @ [MainMessage])"
| "to_call ctx LogFlush = (zeroLevel, '''', [])"

fun play :: "(string \<times> string) list \<Rightarrow> 'v logger \<Rightarrow> log_call list \<Rightarrow> 'v logger \<times> 'v entry list \<times> outcome" where
  "play ctx l [] = (l, [], Continues)"
| "play ctx l (c # cs) =
     (case (if c = LogFlush then Flush l else (case to_call ctx c of (lvl, msg, fs) \<Rightarrow> log_msg l lvl msg fs)) of
        (l1, es, Continues) \<Rightarrow> (case play ctx l1 cs of (l2, es2, oc) \<Rightarrow> (l2, es @ es2, oc))
      | (l1, es, oc) \<Rightarrow> (l1, es, oc))"



text \<open>The calls a handler may make: levels up to error, a message, no flush.\<close>

fun mild :: "log_call \<Rightarrow> bool" where
  "mild (LogCall lvl msg fs) = (lvl \<in> {''debug'', ''info'', ''warn'', ''error''} \<and> msg \<noteq> '''')"
| "mild (LogMain lvl msg fs) = (lvl \<in> {''debug'', ''info'', ''warn'', ''error''} \<and> msg \<noteq> '''')"
| "mild LogFlush = False"

subsection \<open>Facts\<close>

lemma level_of_simps [simp]:
  "level_of ''debug'' = DebugLevel" "level_of ''info'' = InfoLevel" "level_of ''warn'' = WarnLevel" "level_of ''error'' = ErrorLevel"
  by (simp_all add: level_of_def zapLevels_def)

lemma to_field_type: "Type (to_field kv) \<noteq> MessageType"
  by (simp add: to_field_def Duration_def Error_field_def String_field_def field0_def split: prod.splits)

lemma convert_to_field: "convert1 (to_field kv) \<noteq> None"
  by (simp add: to_field_def Duration_def Error_field_def String_field_def field0_def convert1_def split: prod.splits)



lemma convert_all: "\<forall>f \<in> set fs. convert1 f \<noteq> None \<Longrightarrow> \<exists>zs. convert fs = Some zs"
  by (induction fs) (auto split: option.splits)















subsection \<open>A logger that does not buffer\<close>

text \<open>
  The application makes its logger with \<open>log.New(level, false)\<close>: then every call of a
  request is an entry of its own, in order, and the flush does nothing.
\<close>

definition own_entry :: "(string \<times> string) list \<Rightarrow> 'v logger \<Rightarrow> log_call \<Rightarrow> 'v entry list" where
  "own_entry ctx l c = (if c = LogFlush then [] else (case to_call ctx c of (lvl, msg, fs) \<Rightarrow>
     zap_write (externalLogger l) lvl msg (the (convert fs))))"

lemma convert_to_call: "mild c \<Longrightarrow> to_call ctx c = (lvl, msg, fs) \<Longrightarrow> \<exists>zs. convert fs = Some zs"
proof (rule convert_all, rule ballI)
  fix f assume "mild c" "to_call ctx c = (lvl, msg, fs)" "f \<in> set fs"
  then have "f \<in> range to_field \<or> f = MainMessage" by (cases c) (auto simp: own_fields_def)
  then show "convert1 f \<noteq> None"
  proof
    assume "f \<in> range to_field"
    then show ?thesis using convert_to_field by blast
  qed (simp add: MainMessage_def field0_def convert1_def)
qed

lemma mild_directLog:
  fixes l :: "'v logger"
  assumes "mild c" and "(to_call ctx c :: 'v call) = (lvl, msg, fs)"
  shows "directLog l lvl msg zs = (zap_write (externalLogger l) lvl msg zs, Continues)"
  using assms by (cases c) (auto simp: directLog_def level_defs Let_def)

lemma play_unbuffered:
  fixes l :: "'v logger"
  assumes "\<not> oneline l" and "list_all (\<lambda>c. mild c \<or> c = LogFlush) cs"
  shows "play ctx l cs = (l, concat (map (own_entry ctx l) cs), Continues)"
  using assms(2)
proof (induction cs)
  case (Cons c cs)
  show ?case
  proof (cases "c = LogFlush")
    case True
    then show ?thesis using Cons assms(1) by (simp add: Flush_def own_entry_def)
  next
    case False
    with Cons.prems have m: "mild c" by auto
    obtain lvl msg fs where t: "(to_call ctx c :: 'v call) = (lvl, msg, fs)" by (metis prod_cases3)
    obtain zs where "convert fs = Some zs" using convert_to_call [OF m t] by blast
    with False Cons assms(1) t mild_directLog [OF m t, of l zs] show ?thesis by (simp add: log_msg_def own_entry_def)
  qed
qed simp

subsection \<open>Properties\<close>




end
