(* ===== verification/Files.thy ===== *)
theory Files
  imports GoTime "HOL-Library.AList"
begin

text \<open>
  Package \<open>file\<close> (src/file/file.go) and \<open>str\<close> (src/str/str.go), with the parts
  of \<open>path/filepath\<close> and \<open>os\<close> they stand on.  A file system is an association
  list from absolute paths, as lists of names, to nodes; it has no symbolic links, so
  paths are resolved by name.  \<open>fault\<close> injects the errors that the system can raise at
  any call (permissions, full disk): it maps the call and the path to an error.
\<close>

subsection \<open>Package filepath\<close>

fun clean_comps :: "bool \<Rightarrow> string list \<Rightarrow> string list \<Rightarrow> string list" where
  "clean_comps rooted acc [] = rev acc"
| "clean_comps rooted acc (c # cs) =
     (if c = '''' \<or> c = ''.'' then clean_comps rooted acc cs
      else if c = ''..'' then
        (case acc of
           [] \<Rightarrow> clean_comps rooted (if rooted then [] else [c]) cs
         | a # as \<Rightarrow> if a = ''..'' then clean_comps rooted (c # acc) cs else clean_comps rooted as cs)
      else clean_comps rooted (c # acc) cs)"

definition IsAbs :: "string \<Rightarrow> bool" where
  "IsAbs p = HasPrefix p ''/''"

definition Clean :: "string \<Rightarrow> string" where
  "Clean p =
     (if p = '''' then ''.''
      else let cs = clean_comps (IsAbs p) [] (split_char CHR ''/'' p)
        in if IsAbs p then ''/'' @ join_str ''/'' cs else if cs = [] then ''.'' else join_str ''/'' cs)"

definition Join :: "string list \<Rightarrow> string" where
  "Join elems = (case dropWhile (\<lambda>e. e = '''') elems of [] \<Rightarrow> '''' | es \<Rightarrow> Clean (join_str ''/'' es))"

definition last_element :: "string \<Rightarrow> string" where
  "last_element p = rev (takeWhile (\<lambda>c. c \<noteq> CHR ''/'') (rev p))"

definition Ext :: "string \<Rightarrow> string" where
  "Ext p = (let b = rev (last_element p)
     in if CHR ''.'' \<in> set b then CHR ''.'' # rev (takeWhile (\<lambda>c. c \<noteq> CHR ''.'') b) else '''')"

definition Base :: "string \<Rightarrow> string" where
  "Base p = (if p = '''' then ''.''
     else let q = rev (dropWhile (\<lambda>c. c = CHR ''/'') (rev p))
       in if q = '''' then ''/'' else last_element q)"

definition Dir :: "string \<Rightarrow> string" where
  "Dir p = Clean (rev (dropWhile (\<lambda>c. c \<noteq> CHR ''/'') (rev p)))"

definition Abs_path :: "string \<Rightarrow> string \<Rightarrow> string" where
  "Abs_path cwd p = (if IsAbs p then Clean p else Join [cwd, p])"

subsection \<open>The file system\<close>

datatype node = FileNode string | DirNode | DeviceNode

datatype fs_error = ErrNotExist | ErrFS string

record fs =
  nodes :: "(string list \<times> node) list"
  cwd :: string
  home :: "string option"
  fault :: "string \<Rightarrow> string list \<Rightarrow> string option"

definition locate :: "fs \<Rightarrow> string \<Rightarrow> string list" where
  "locate f p = clean_comps True [] (split_char CHR ''/'' (if IsAbs p then p else cwd f @ ''/'' @ p))"

definition node_at :: "fs \<Rightarrow> string list \<Rightarrow> node option" where
  "node_at f k = (if k = [] then Some DirNode else map_of (nodes f) k)"

definition put_node :: "fs \<Rightarrow> string list \<Rightarrow> node \<Rightarrow> fs" where
  "put_node f k n = f\<lparr>nodes := AList.update k n (nodes f)\<rparr>"

fun through_file :: "fs \<Rightarrow> string list \<Rightarrow> string list \<Rightarrow> bool" where
  "through_file f pre [] = False"
| "through_file f pre (c # cs) =
     ((case node_at f pre of Some (FileNode _) \<Rightarrow> True | Some DeviceNode \<Rightarrow> True | _ \<Rightarrow> False)
      \<or> through_file f (pre @ [c]) cs)"

definition Stat :: "fs \<Rightarrow> string \<Rightarrow> fs_error + node" where
  "Stat f p =
     (if p = '''' then Inl ErrNotExist
      else let k = locate f p
        in case fault f ''stat'' k of
             Some e \<Rightarrow> Inl (ErrFS e)
           | None \<Rightarrow> (case node_at f k of
               Some n \<Rightarrow> Inr n
             | None \<Rightarrow> if through_file f [] k then Inl (ErrFS ''not a directory'') else Inl ErrNotExist))"

text \<open>\<open>os.Open\<close> and reading all of it.\<close>

definition Open :: "fs \<Rightarrow> string \<Rightarrow> fs_error + string list" where
  "Open f p = (case Stat f p of
      Inl e \<Rightarrow> Inl e
    | Inr _ \<Rightarrow> (case fault f ''open'' (locate f p) of Some e \<Rightarrow> Inl (ErrFS e) | None \<Rightarrow> Inr (locate f p)))"

definition read_handle :: "fs \<Rightarrow> string list \<Rightarrow> fs_error + string" where
  "read_handle f k = (case fault f ''read'' k of
      Some e \<Rightarrow> Inl (ErrFS e)
    | None \<Rightarrow> (case node_at f k of
        Some (FileNode s) \<Rightarrow> Inr s
      | Some DirNode \<Rightarrow> Inl (ErrFS ''is a directory'')
      | _ \<Rightarrow> Inr ''''))"

text \<open>\<open>os.MkdirAll\<close>: the directories on the way are made one by one.\<close>

fun mkdir_path :: "fs \<Rightarrow> string list \<Rightarrow> string list \<Rightarrow> fs_error option \<times> fs" where
  "mkdir_path f pre [] = (None, f)"
| "mkdir_path f pre (c # cs) =
     (let k = pre @ [c]
      in case node_at f k of
           Some DirNode \<Rightarrow> mkdir_path f k cs
         | Some _ \<Rightarrow> (Some (ErrFS ''not a directory''), f)
         | None \<Rightarrow> (case fault f ''mkdir'' k of
             Some e \<Rightarrow> (Some (ErrFS e), f)
           | None \<Rightarrow> mkdir_path (put_node f k DirNode) k cs))"

definition Create :: "fs \<Rightarrow> string \<Rightarrow> fs_error option \<times> fs" where
  "Create f p =
     (let k = locate f p
      in case fault f ''create'' k of
           Some e \<Rightarrow> (Some (ErrFS e), f)
         | None \<Rightarrow> (case node_at f k of
             Some DirNode \<Rightarrow> (Some (ErrFS ''is a directory''), f)
           | Some DeviceNode \<Rightarrow> (None, f)
           | Some (FileNode _) \<Rightarrow> (None, put_node f k (FileNode ''''))
           | None \<Rightarrow> if node_at f (butlast k) = Some DirNode then (None, put_node f k (FileNode ''''))
                     else (Some ErrNotExist, f)))"

definition below :: "string list \<Rightarrow> string list \<Rightarrow> bool" where
  "below k j \<longleftrightarrow> take (length k) j = k"

definition Remove :: "fs \<Rightarrow> string \<Rightarrow> fs_error option \<times> fs" where
  "Remove f p =
     (let k = locate f p
      in case fault f ''remove'' k of
           Some e \<Rightarrow> (Some (ErrFS e), f)
         | None \<Rightarrow> (case node_at f k of
             None \<Rightarrow> (Some ErrNotExist, f)
           | Some DirNode \<Rightarrow> if list_ex (\<lambda>(j, _). j \<noteq> k \<and> below k j) (nodes f) then (Some (ErrFS ''directory not empty''), f)
               else (None, f\<lparr>nodes := AList.delete k (nodes f)\<rparr>)
           | Some _ \<Rightarrow> (None, f\<lparr>nodes := AList.delete k (nodes f)\<rparr>)))"

definition RemoveAll :: "fs \<Rightarrow> string \<Rightarrow> fs_error option \<times> fs" where
  "RemoveAll f p =
     (if p = '''' then (None, f)
      else let k = locate f p
        in case fault f ''removeall'' k of
             Some e \<Rightarrow> (Some (ErrFS e), f)
           | None \<Rightarrow> (None, f\<lparr>nodes := filter (\<lambda>(j, _). \<not> below k j) (nodes f)\<rparr>))"

definition Rename :: "fs \<Rightarrow> string \<Rightarrow> string \<Rightarrow> fs_error option \<times> fs" where
  "Rename f src dst =
     (let a = locate f src; b = locate f dst
      in case fault f ''rename'' a of
           Some e \<Rightarrow> (Some (ErrFS e), f)
         | None \<Rightarrow>
             if node_at f a = None then (Some ErrNotExist, f)
             else if node_at f b = Some DirNode then (Some (ErrFS ''file exists''), f)
             else if a = b then (None, f)
             else if below a b then (Some (ErrFS ''invalid argument''), f)
             else if node_at f (butlast b) \<noteq> Some DirNode then (Some ErrNotExist, f)
             else if node_at f a = Some DirNode \<and> node_at f b \<noteq> None then (Some (ErrFS ''not a directory''), f)
             else (None, f\<lparr>nodes := map (\<lambda>(j, n). (if below a j then b @ drop (length a) j else j, n))
                                     (AList.delete b (nodes f))\<rparr>))"

definition ReadDir :: "fs \<Rightarrow> string \<Rightarrow> fs_error + (string \<times> bool) list" where
  "ReadDir f p =
     (let k = locate f p
      in case Stat f p of
           Inl e \<Rightarrow> Inl e
         | Inr DirNode \<Rightarrow> (case fault f ''readdir'' k of
             Some e \<Rightarrow> Inl (ErrFS e)
           | None \<Rightarrow> Inr (map (\<lambda>c. (c, node_at f (k @ [c]) = Some DirNode))
               (sort (map (last \<circ> fst) (filter (\<lambda>(j, _). j \<noteq> [] \<and> butlast j = k) (nodes f))))))
         | Inr _ \<Rightarrow> Inl (ErrFS ''not a directory''))"

subsection \<open>Package file\<close>

definition Exists :: "fs \<Rightarrow> string \<Rightarrow> bool" where
  "Exists f fname = (if fname = '''' then False else Stat f fname \<noteq> Inl ErrNotExist)"

definition Mkdir :: "fs \<Rightarrow> string \<Rightarrow> fs_error option \<times> fs" where
  "Mkdir f path = mkdir_path f [] (locate f path)"

text \<open>
  \<open>Copy\<close>: the source is opened before the destination is created and read after it;
  the number of bytes is that of the data written.
\<close>

definition Copy :: "fs \<Rightarrow> string \<Rightarrow> string \<Rightarrow> (int \<times> fs_error option) \<times> fs" where
  "Copy f src dest = (case Stat f src of
      Inl e \<Rightarrow> ((0, Some e), f)
    | Inr n \<Rightarrow>
        if (case n of FileNode _ \<Rightarrow> False | _ \<Rightarrow> True) then ((0, Some (ErrFS (src @ '' is not a regular file''))), f)
        else (case Open f src of
          Inl e \<Rightarrow> ((0, Some e), f)
        | Inr h \<Rightarrow> (case Mkdir f (Dir dest) of
            (Some e, f1) \<Rightarrow> ((0, Some e), f1)
          | (None, f1) \<Rightarrow> (case Create f1 dest of
              (Some e, f2) \<Rightarrow> ((0, Some e), f2)
            | (None, f2) \<Rightarrow> (case read_handle f2 h of
                Inl e \<Rightarrow> ((0, Some e), f2)
              | Inr bytes \<Rightarrow> (case fault f2 ''write'' (locate f2 dest) of
                  Some e \<Rightarrow> ((0, Some (ErrFS e)), f2)
                | None \<Rightarrow> ((int (length bytes), None),
                    (case node_at f2 (locate f2 dest) of
                       Some (FileNode _) \<Rightarrow> put_node f2 (locate f2 dest) (FileNode bytes)
                     | _ \<Rightarrow> f2))))))))"

definition Delete :: "fs \<Rightarrow> string \<Rightarrow> fs_error option \<times> fs" where
  "Delete f fname = (if Stat f fname = Inl ErrNotExist then (Some ErrNotExist, f) else Remove f fname)"

definition Rmdir :: "fs \<Rightarrow> string \<Rightarrow> fs_error option \<times> fs" where
  "Rmdir f path = RemoveAll f path"

definition Move :: "fs \<Rightarrow> string \<Rightarrow> string \<Rightarrow> fs_error option \<times> fs" where
  "Move f src dst = Rename f src dst"

text \<open>\<open>parseURL\<close> is the path of \<open>url.Parse\<close>, \<open>None\<close> its error.\<close>

definition URLFileExtension :: "(string \<Rightarrow> string option) \<Rightarrow> string \<Rightarrow> string" where
  "URLFileExtension parseURL addr = (case parseURL addr of None \<Rightarrow> '''' | Some p \<Rightarrow> Ext p)"

definition random_chars :: string where
  "random_chars = ''ABCDEFGHIJKLMNOPQRSTUVWXYZabcdefghijklmnopqrstuvwxyz0123456789''"

text \<open>\<open>RandomString\<close> with the numbers that the generator gives.\<close>

definition RandomString :: "(nat \<Rightarrow> nat) \<Rightarrow> nat \<Rightarrow> string" where
  "RandomString intN n = map (\<lambda>i. random_chars ! (intN i mod length random_chars)) [0..<n]"

text \<open>
  The loop of \<open>GenerateRandomFilename\<close>: attempt \<open>i\<close> uses the time \<open>now i\<close> and the
  random numbers \<open>rnd i\<close>; \<open>None\<close> means that every attempt hits a file that exists.
\<close>

partial_function (option) random_name ::
  "fs \<Rightarrow> (nat \<Rightarrow> nat) \<Rightarrow> (nat \<Rightarrow> nat \<Rightarrow> nat) \<Rightarrow> string \<Rightarrow> string \<Rightarrow> string \<Rightarrow> nat \<Rightarrow> string option" where
  "random_name f now rnd root path ext i =
     (let fname = ReplaceAll (Format_clock (now i)) ''.'' ''-'' @ ''-'' @ RandomString (rnd i) 4;
          fullName = Join [root, path, fname @ ext]
      in if \<not> Exists f fullName then Some fname else random_name f now rnd root path ext (Suc i))"

definition GenerateRandomFilename ::
  "(string \<Rightarrow> string option) \<Rightarrow> fs \<Rightarrow> (nat \<Rightarrow> nat) \<Rightarrow> (nat \<Rightarrow> nat \<Rightarrow> nat) \<Rightarrow> string \<Rightarrow> string \<Rightarrow> string \<Rightarrow> (string \<times> string) option" where
  "GenerateRandomFilename parseURL f now rnd url root path =
     (let ext = URLFileExtension parseURL url
      in case random_name f now rnd root path ext 0 of
           None \<Rightarrow> None
         | Some fname \<Rightarrow> Some (Join [path, fname @ ext], fname @ ext))"

definition Read :: "fs \<Rightarrow> string \<Rightarrow> fs_error + string" where
  "Read f fname = (case Open f fname of Inl e \<Rightarrow> Inl e | Inr h \<Rightarrow> read_handle f h)"

definition TouchWithPath :: "fs \<Rightarrow> string \<Rightarrow> string \<Rightarrow> fs_error option \<times> fs" where
  "TouchWithPath f fname template = (case Mkdir f (Dir fname) of
      (Some e, f1) \<Rightarrow> (Some e, f1)
    | (None, f1) \<Rightarrow> if Exists f1 fname then (None, f1)
        else (case Copy f1 template fname of ((_, err), f2) \<Rightarrow> (err, f2)))"

fun clear_entries :: "fs \<Rightarrow> string \<Rightarrow> bool \<Rightarrow> (string \<times> bool) list \<Rightarrow> fs_error option \<times> fs" where
  "clear_entries f path flat [] = (None, f)"
| "clear_entries f path flat ((name, isDir) # es) =
     (if flat \<and> isDir then clear_entries f path flat es
      else (case RemoveAll f (path @ ''/'' @ name) of
        (Some e, f1) \<Rightarrow> (Some e, f1)
      | (None, f1) \<Rightarrow> clear_entries f1 path flat es))"

definition ClearDirectory :: "fs \<Rightarrow> string \<Rightarrow> bool \<Rightarrow> fs_error option \<times> fs" where
  "ClearDirectory f path flat = (case ReadDir f path of
      Inl e \<Rightarrow> (Some e, f)
    | Inr es \<Rightarrow> clear_entries f path flat es)"

definition NormalizePath :: "fs \<Rightarrow> string \<Rightarrow> string + string" where
  "NormalizePath f path =
     (let expanded = (if HasPrefix path ''~'' then
          (case home f of
             None \<Rightarrow> Inl ''cannot resolve home directory''
           | Some h \<Rightarrow> Inr (if path = ''~'' then h
               else if HasPrefix path ''~/'' then Join [h, drop 2 path] else path))
          else Inr path)
      in case expanded of
           Inl e \<Rightarrow> Inl e
         | Inr p \<Rightarrow> Inr (Clean (Abs_path (cwd f) p)))"

subsection \<open>Paths\<close>

definition proper_name :: "string \<Rightarrow> bool" where
  "proper_name c \<longleftrightarrow> c \<noteq> '''' \<and> c \<noteq> ''.'' \<and> c \<noteq> ''..'' \<and> CHR ''/'' \<notin> set c"

definition canonical :: "string \<Rightarrow> bool" where
  "canonical q \<longleftrightarrow> (\<exists>cs. list_all proper_name cs \<and> q = ''/'' @ join_str ''/'' cs)"

lemma clean_comps_proper:
  "list_all proper_name acc \<Longrightarrow> list_all (\<lambda>c. CHR ''/'' \<notin> set c) cs \<Longrightarrow> list_all proper_name (clean_comps True acc cs)"
proof (induction True acc cs rule: clean_comps.induct)
  case (1 acc)
  then show ?case by (simp add: list_all_iff)
next
  case (2 acc c cs)
  then show ?case by (auto simp: proper_name_def split: list.splits)
qed

lemma clean_comps_id: "list_all proper_name cs \<Longrightarrow> clean_comps rooted acc cs = rev acc @ cs"
  by (induction cs arbitrary: acc) (auto simp: proper_name_def)

lemma split_join:
  "cs \<noteq> [] \<Longrightarrow> list_all (\<lambda>c. CHR ''/'' \<notin> set c) cs \<Longrightarrow> split_char CHR ''/'' (join_str ''/'' cs) = cs"
proof (induction "''/''" cs rule: join_str.induct)
  case (2 w)
  then show ?case by (simp add: split_char_none)
next
  case (3 w v ws)
  then show ?case using split_char_append [of "CHR ''/''" w] by simp
qed simp

definition parts :: "string \<Rightarrow> string list" where
  "parts p = clean_comps True [] (split_char CHR ''/'' p)"

lemma parts_proper: "list_all proper_name (parts p)"
  unfolding parts_def using split_char_clean by (intro clean_comps_proper) (auto simp: list_all_iff)

lemma parts_canonical:
  assumes "list_all proper_name cs"
  shows "parts (''/'' @ join_str ''/'' cs) = cs"
proof (cases "cs = []")
  case True
  then show ?thesis by (simp add: parts_def)
next
  case False
  moreover from assms have "list_all (\<lambda>c. CHR ''/'' \<notin> set c) cs" by (auto simp: list_all_iff proper_name_def)
  ultimately show ?thesis using split_join [of cs] clean_comps_id [OF assms, of True "[]"] by (simp add: parts_def)
qed

lemma Clean_abs: "IsAbs p \<Longrightarrow> Clean p = ''/'' @ join_str ''/'' (parts p)"
  by (auto simp: Clean_def parts_def Let_def IsAbs_def HasPrefix_def)

lemma Clean_abs_canonical: "IsAbs p \<Longrightarrow> canonical (Clean p) \<and> parts (Clean p) = parts p"
  using parts_proper parts_canonical by (auto simp: Clean_abs canonical_def)

lemma canonical_abs: "canonical q \<Longrightarrow> IsAbs q"
  by (auto simp: canonical_def IsAbs_def HasPrefix_def)

lemma locate_parts: "locate f p = parts (if IsAbs p then p else cwd f @ ''/'' @ p)"
  by (simp add: locate_def parts_def)

lemma Abs_path_canonical:
  assumes "IsAbs (cwd f)"
  shows "canonical (Abs_path (cwd f) p) \<and> parts (Abs_path (cwd f) p) = locate f p"
proof (cases "IsAbs p")
  case True
  then show ?thesis using Clean_abs_canonical by (simp add: Abs_path_def locate_parts)
next
  case False
  from assms have ne: "cwd f \<noteq> ''''" and ab: "IsAbs (cwd f @ ''/'' @ p)"
    by (auto simp: IsAbs_def HasPrefix_append)
  from ne False have "Abs_path (cwd f) p = Clean (cwd f @ ''/'' @ p)" by (simp add: Abs_path_def Join_def)
  then show ?thesis using Clean_abs_canonical [OF ab] False by (simp add: locate_parts)
qed

lemma split_char_app: "split_char c (s @ c # t) = split_char c s @ split_char c t"
  by (induction c s rule: split_char.induct) (auto split: list.splits)

lemma clean_comps_app: "clean_comps True acc (xs @ ys) = clean_comps True (rev (clean_comps True acc xs)) ys"
  by (induction True acc xs rule: clean_comps.induct) (auto split: list.splits)

lemma join_str_snoc: "cs \<noteq> [] \<Longrightarrow> join_str d (cs @ [x]) = join_str d cs @ d @ x"
  by (induction d cs rule: join_str.induct) auto

lemma join_proper_start:
  assumes "cs \<noteq> []" and "list_all proper_name cs"
  shows "join_str ''/'' cs \<noteq> [] \<and> \<not> IsAbs (join_str ''/'' cs)"
proof -
  from assms obtain c w where "cs = c # w" "proper_name c" by (cases cs) auto
  moreover have "c \<noteq> [] \<Longrightarrow> hd (join_str ''/'' (c # w)) = hd c \<and> join_str ''/'' (c # w) \<noteq> []" for c w
    by (cases w) auto
  moreover have "IsAbs p \<Longrightarrow> hd p = CHR ''/''" for p
    by (cases p) (auto simp: IsAbs_def HasPrefix_def)
  ultimately show ?thesis by (metis hd_in_set proper_name_def)
qed

lemma Join_rel:
  assumes "cs \<noteq> []" and "list_all proper_name (cs @ [x])"
  shows "Join [join_str ''/'' cs, x] = join_str ''/'' (cs @ [x])"
proof -
  let ?p = "join_str ''/'' (cs @ [x])"
  have cs: "list_all proper_name cs" using assms(2) by simp
  have "Join [join_str ''/'' cs, x] = Clean ?p"
    using join_proper_start [OF assms(1) cs] by (simp add: Join_def join_str_snoc [OF assms(1)])
  moreover have "list_all (\<lambda>c. CHR ''/'' \<notin> set c) (cs @ [x])" using assms(2) by (auto simp: list_all_iff proper_name_def)
  then have "split_char CHR ''/'' ?p = cs @ [x]" using split_join by blast
  ultimately show ?thesis
    using join_proper_start [of "cs @ [x]"] assms(2) clean_comps_id [OF assms(2), of False "[]"]
    by (simp add: Clean_def Let_def)
qed

lemma parts_below:
  assumes "canonical base" and "cs \<noteq> []" and "list_all proper_name cs"
  shows "canonical (Join [base, join_str ''/'' cs]) \<and> parts (Join [base, join_str ''/'' cs]) = parts base @ cs"
proof -
  have ab: "IsAbs base" by (rule canonical_abs [OF assms(1)])
  then have ab': "IsAbs (base @ ''/'' @ join_str ''/'' cs)" by (auto simp: IsAbs_def HasPrefix_append)
  have eq: "Join [base, join_str ''/'' cs] = Clean (base @ ''/'' @ join_str ''/'' cs)"
    using ab by (auto simp: Join_def IsAbs_def HasPrefix_def)
  have "list_all (\<lambda>c. CHR ''/'' \<notin> set c) cs" using assms(3) by (auto simp: list_all_iff proper_name_def)
  then have "split_char CHR ''/'' (join_str ''/'' cs) = cs" using split_join assms(2) by blast
  then have "parts (base @ ''/'' @ join_str ''/'' cs) = parts base @ cs"
    using split_char_app [of "CHR ''/''" base "join_str ''/'' cs"]
    by (simp add: parts_def clean_comps_app clean_comps_id [OF assms(3)])
  then show ?thesis using Clean_abs_canonical [OF ab'] eq by simp
qed

subsection \<open>Nodes\<close>

lemma put_node_simps [simp]:
  "cwd (put_node f k n) = cwd f" "fault (put_node f k n) = fault f" "home (put_node f k n) = home f"
  "locate (put_node f k n) = locate f"
  by (simp_all add: put_node_def locate_def fun_eq_iff)

lemma node_at_put: "k \<noteq> [] \<Longrightarrow> node_at (put_node f k n) j = (if j = k then Some n else node_at f j)"
  by (simp add: node_at_def put_node_def update_conv')

lemma mkdir_path_keeps:
  "mkdir_path f pre cs = (err, f') \<Longrightarrow>
    cwd f' = cwd f \<and> fault f' = fault f \<and> locate f' = locate f \<and> (\<forall>j n. node_at f j = Some n \<longrightarrow> node_at f' j = Some n) \<and>
    (\<forall>j n. node_at f' j = Some n \<longrightarrow> node_at f j = Some n \<or> n = DirNode)"
proof (induction cs arbitrary: f pre)
  case Nil
  then show ?case by simp
next
  case (Cons c cs)
  let ?k = "pre @ [c]"
  consider (dir) "mkdir_path f ?k cs = (err, f')" | (stop) "f' = f"
    | (make) "node_at f ?k = None" "mkdir_path (put_node f ?k DirNode) ?k cs = (err, f')"
    using Cons.prems by (auto simp: Let_def split: option.splits node.splits)
  then show ?case
  proof cases
    case dir
    then show ?thesis by (rule Cons.IH)
  next
    case stop
    then show ?thesis by simp
  next
    case make
    note IH = Cons.IH [OF make(2), unfolded put_node_simps]
    have env: "cwd f' = cwd f \<and> fault f' = fault f \<and> locate f' = locate f"
      using IH by (elim conjE) (intro conjI, assumption+)
    have up: "\<And>j n. node_at (put_node f ?k DirNode) j = Some n \<Longrightarrow> node_at f' j = Some n"
      using IH by (elim conjE) blast
    have down: "\<And>j n. node_at f' j = Some n \<Longrightarrow> node_at (put_node f ?k DirNode) j = Some n \<or> n = DirNode"
      using IH by (elim conjE) blast
    have put: "node_at (put_node f ?k DirNode) j = (if j = ?k then Some DirNode else node_at f j)" for j
      by (rule node_at_put) simp
    have "node_at f' j = Some n" if "node_at f j = Some n" for j n
    proof -
      from that make(1) have "j \<noteq> ?k" by auto
      with that have "node_at (put_node f ?k DirNode) j = Some n" by (simp only: put if_False)
      then show ?thesis by (rule up)
    qed
    moreover have "node_at f j = Some n \<or> n = DirNode" if "node_at f' j = Some n" for j n
    proof -
      from down [OF that] show ?thesis by (cases "j = ?k") (auto simp: put)
    qed
    ultimately show ?thesis using env by blast
  qed
qed

lemma Mkdir_keeps:
  assumes "Mkdir f p = (err, f')"
  shows "cwd f' = cwd f" and "fault f' = fault f" and "locate f' = locate f"
    and "\<And>j n. node_at f j = Some n \<Longrightarrow> node_at f' j = Some n"
    and "\<And>j n. node_at f' j = Some n \<Longrightarrow> node_at f j = Some n \<or> n = DirNode"
  using mkdir_path_keeps [OF assms [unfolded Mkdir_def]] by blast+

lemma Stat_node: "Stat f p = Inr n \<Longrightarrow> node_at f (locate f p) = Some n"
  by (auto simp: Stat_def Let_def split: if_splits option.splits)

lemma Exists_node: "p \<noteq> '''' \<Longrightarrow> node_at f (locate f p) \<noteq> None \<Longrightarrow> Exists f p"
  by (auto simp: Exists_def Stat_def Let_def split: option.splits)

lemma Exists_not: "p \<noteq> '''' \<Longrightarrow> \<not> Exists f p \<Longrightarrow> node_at f (locate f p) = None"
  using Exists_node by blast

lemma Create_cases:
  assumes "Create f p = (None, f')" and "node_at f (locate f p) = None"
  shows "f' = put_node f (locate f p) (FileNode '''')" and "locate f p \<noteq> []"
  using assms by (auto simp: Create_def Let_def node_at_def split: option.splits if_splits)

lemma Copy_steps:
  assumes "Copy f src dest = ((n, None), f')"
  obtains b f1 f2 bytes where "Stat f src = Inr (FileNode b)" and "Mkdir f (Dir dest) = (None, f1)"
    and "Create f1 dest = (None, f2)" and "read_handle f2 (locate f src) = Inr bytes"
    and "f' = (case node_at f2 (locate f2 dest) of
                 Some (FileNode _) \<Rightarrow> put_node f2 (locate f2 dest) (FileNode bytes) | _ \<Rightarrow> f2)"
  using assms
  by (auto simp: Copy_def Open_def split: sum.splits node.splits prod.splits option.splits if_splits)

lemma Copy_new:
  assumes "Copy f src dest = ((n, None), f')" and "node_at f (locate f dest) = None"
  shows "\<exists>bytes. node_at f (locate f src) = Some (FileNode bytes) \<and>
    node_at f' (locate f dest) = Some (FileNode bytes) \<and> locate f' = locate f"
proof -
  from assms(1) obtain b f1 f2 bytes where b: "Stat f src = Inr (FileNode b)" and mk: "Mkdir f (Dir dest) = (None, f1)"
    and cr: "Create f1 dest = (None, f2)" and rd: "read_handle f2 (locate f src) = Inr bytes"
    and f': "f' = (case node_at f2 (locate f2 dest) of
                 Some (FileNode _) \<Rightarrow> put_node f2 (locate f2 dest) (FileNode bytes) | _ \<Rightarrow> f2)"
    by (rule Copy_steps)
  note k = Mkdir_keeps [OF mk]
  have src: "node_at f (locate f src) = Some (FileNode b)" using Stat_node [OF b] .
  have "node_at f1 (locate f1 dest) \<noteq> Some DirNode"
    using cr by (auto simp: Create_def Let_def split: option.splits)
  then have "node_at f1 (locate f1 dest) = None"
    using k(3) k(5) [of "locate f dest"] assms(2) by (cases "node_at f1 (locate f1 dest)") auto
  from Create_cases [OF cr this] have f2: "f2 = put_node f1 (locate f dest) (FileNode '''')" and ne: "locate f dest \<noteq> []"
    using k(3) by auto
  have "locate f src \<noteq> locate f dest" using src assms(2) by auto
  with rd src k(4) [OF src] have "bytes = b"
    by (simp add: read_handle_def f2 node_at_put [OF ne] split: option.splits)
  then show ?thesis using src ne by (simp add: f' f2 k(3) node_at_put)
qed

subsection \<open>Properties\<close>

text \<open>
  Where a path leads, element by element: an empty element and \<open>.\<close> stay, \<open>..\<close> goes to the
  parent, every other name goes down.  A tilde stands for the home directory when it is
  alone or followed by a slash.
\<close>

definition enter :: "string list \<Rightarrow> string \<Rightarrow> string list" where
  "enter d c = (if c = '''' \<or> c = ''.'' then d else if c = ''..'' then butlast d else d @ [c])"

definition walk :: "string list \<Rightarrow> string \<Rightarrow> string list" where
  "walk d p = foldl enter d (split_char CHR ''/'' p)"

definition destination :: "fs \<Rightarrow> string \<Rightarrow> string list" where
  "destination f path =
     (if path = ''~'' then walk [] (the (home f))
      else if HasPrefix path ''~/'' then walk (walk [] (the (home f))) (drop 2 path)
      else if HasPrefix path ''/'' then walk [] path
      else walk (walk [] (cwd f)) path)"

lemma clean_comps_walk: "''..'' \<notin> set acc \<Longrightarrow> clean_comps True acc cs = foldl enter (rev acc) cs"
  by (induction True acc cs rule: clean_comps.induct) (auto simp: enter_def split: list.splits)

lemma parts_walk: "parts p = walk [] p"
  by (simp add: parts_def walk_def clean_comps_walk)

lemma parts_slash: "parts (p @ ''/'' @ q) = walk (walk [] p) q"
  by (simp add: parts_walk walk_def split_char_app)

lemma enter_proper: "list_all proper_name d \<Longrightarrow> CHR ''/'' \<notin> set c \<Longrightarrow> list_all proper_name (enter d c)"
  by (cases d rule: rev_cases) (auto simp: enter_def proper_name_def)

lemma walk_proper: "list_all proper_name d \<Longrightarrow> list_all proper_name (walk d p)"
proof -
  have "list_all proper_name d \<Longrightarrow> \<forall>c \<in> set cs. CHR ''/'' \<notin> set c \<Longrightarrow> list_all proper_name (foldl enter d cs)" for cs
    by (induction cs arbitrary: d) (simp_all add: enter_proper)
  then show "list_all proper_name d \<Longrightarrow> list_all proper_name (walk d p)" unfolding walk_def using split_char_clean by blast
qed

text \<open>
  C34: with an absolute working directory and an absolute home directory, a normalised path
  is the absolute path, without empty, \<open>.\<close> or \<open>..\<close> elements, of the place where the given path leads when its
  elements are followed one by one from the root, from the working directory or, behind a tilde, from the
  home directory; symbolic links are not followed.  The only error is a tilde without a home directory.
\<close>

theorem NormalizePath_canonical:
  assumes "IsAbs (cwd f)" and "\<And>h. home f = Some h \<Longrightarrow> IsAbs h"
  shows "NormalizePath f path = (if HasPrefix path ''~'' \<and> home f = None then Inl ''cannot resolve home directory''
      else Inr (''/'' @ join_str ''/'' (destination f path))) \<and>
    canonical (''/'' @ join_str ''/'' (destination f path))"
proof -
  have out: "Clean (Abs_path (cwd f) p) = ''/'' @ join_str ''/'' (locate f p)" for p
    using Abs_path_canonical [OF assms(1), of p] Clean_abs [OF canonical_abs, of "Abs_path (cwd f) p"] by simp
  have loc: "locate f p = (if HasPrefix p ''/'' then walk [] p else walk (walk [] (cwd f)) p)" for p
    using parts_slash [of "cwd f" p] by (simp add: locate_parts parts_walk IsAbs_def)
  have tilde: "HasPrefix path ''~/'' \<Longrightarrow> HasPrefix path ''~''" "HasPrefix path ''~'' \<Longrightarrow> \<not> HasPrefix path ''/''"
    by (cases path; auto simp: HasPrefix_def)+
  have "destination f path = locate f path" if "\<not> HasPrefix path ''~''"
    using that tilde by (auto simp: destination_def loc HasPrefix_def)
  moreover have "destination f path = locate f (if path = ''~'' then h else if HasPrefix path ''~/'' then Join [h, drop 2 path] else path)"
    if h: "home f = Some h" and "HasPrefix path ''~''" for h
  proof -
    have ab: "IsAbs (h @ ''/'' @ drop 2 path)" and ne: "h \<noteq> ''''" using assms(2) [OF h] by (auto simp: IsAbs_def HasPrefix_append)
    then have "Join [h, drop 2 path] = Clean (h @ ''/'' @ drop 2 path)" by (simp add: Join_def)
    then have "parts (Join [h, drop 2 path]) = walk (walk [] h) (drop 2 path)" "IsAbs (Join [h, drop 2 path])"
      using Clean_abs_canonical [OF ab] parts_slash canonical_abs by simp_all
    then show ?thesis using assms(2) [OF h] that tilde(2)
      by (auto simp: destination_def loc parts_walk IsAbs_def)
  qed
  ultimately have "NormalizePath f path = (if HasPrefix path ''~'' \<and> home f = None then Inl ''cannot resolve home directory''
      else Inr (''/'' @ join_str ''/'' (destination f path)))"
    by (auto simp: NormalizePath_def out Let_def split: option.splits)
  moreover have "list_all proper_name (destination f path)"
    by (simp add: destination_def walk_proper)
  ultimately show ?thesis by (auto simp: canonical_def)
qed

definition sample_fs :: fs where
  "sample_fs = \<lparr>nodes = [([''srv''], DirNode), ([''srv'', ''t''], FileNode ''abc'')], cwd = ''/srv'', home = Some ''/root'',
     fault = (\<lambda>_ _. None)\<rparr>"

theorem NormalizePath_canonical_witness:
  "NormalizePath sample_fs ''../srv/./t'' = Inr ''/srv/t'' \<and> NormalizePath sample_fs ''~/../srv//x'' = Inr ''/srv/x''"
proof -
  have "IsAbs (cwd sample_fs)" "\<And>h. home sample_fs = Some h \<Longrightarrow> IsAbs h" by (simp_all add: sample_fs_def IsAbs_def HasPrefix_def)
  moreover have "destination sample_fs ''../srv/./t'' = [''srv'', ''t'']" "destination sample_fs ''~/../srv//x'' = [''srv'', ''x'']" by code_simp+
  ultimately show ?thesis
    using NormalizePath_canonical [of sample_fs "''../srv/./t''"] NormalizePath_canonical [of sample_fs "''~/../srv//x''"]
    by (simp add: sample_fs_def HasPrefix_def)
qed

text \<open>
  When \<open>TouchWithPath\<close> succeeds the file exists.  A node that was there before
  is kept as it was; if nothing is there once the directory is made, the new file has the
  content of the template.
\<close>

theorem TouchWithPath_ensures:
  assumes "TouchWithPath f fname template = (None, f')" and "fname \<noteq> ''''"
  shows "Exists f' fname \<and>
    (\<forall>m. node_at f (locate f fname) = Some m \<longrightarrow> node_at f' (locate f fname) = Some m) \<and>
    (Exists (snd (Mkdir f (Dir fname))) fname \<or>
     (\<exists>bytes. node_at f (locate f template) = Some (FileNode bytes) \<and>
        node_at f' (locate f fname) = Some (FileNode bytes)))"
proof -
  from assms(1) obtain f1 where mk: "Mkdir f (Dir fname) = (None, f1)"
    and rest: "(if Exists f1 fname then (None, f1) else (case Copy f1 template fname of ((_, err), f2) \<Rightarrow> (err, f2))) = (None, f')"
    by (cases "Mkdir f (Dir fname)", cases "fst (Mkdir f (Dir fname))") (auto simp: TouchWithPath_def)
  note k = Mkdir_keeps [OF mk]
  show ?thesis
  proof (cases "Exists f1 fname")
    case True
    with rest have "f' = f1" by simp
    then show ?thesis using True k(4) mk by simp
  next
    case False
    with rest obtain n where cp: "Copy f1 template fname = ((n, None), f')" by (auto split: prod.splits)
    have none: "node_at f1 (locate f1 fname) = None" using Exists_not [OF assms(2) False] .
    from Copy_new [OF cp none] obtain bytes where
      tmpl: "node_at f1 (locate f1 template) = Some (FileNode bytes)"
      and new: "node_at f' (locate f1 fname) = Some (FileNode bytes)" and loc: "locate f' = locate f1" by blast
    have "node_at f (locate f template) = Some (FileNode bytes)" using k(5) [OF tmpl] k(3) by simp
    moreover have "node_at f (locate f fname) = None"
      using none k(3,4) by (cases "node_at f (locate f fname)") auto
    ultimately show ?thesis using new loc k(3) Exists_node [OF assms(2)] by simp
  qed
qed

theorem TouchWithPath_ensures_witness:
  "\<exists>f'. TouchWithPath sample_fs ''/srv/a/b'' ''/srv/t'' = (None, f') \<and> Exists f' ''/srv/a/b''"
proof -
  obtain f' where "TouchWithPath sample_fs ''/srv/a/b'' ''/srv/t'' = (None, f')"
    by (simp add: sample_fs_def TouchWithPath_def Copy_def Mkdir_def Open_def Stat_def Create_def read_handle_def Exists_def
        locate_def IsAbs_def HasPrefix_def Dir_def Clean_def node_at_def put_node_def Let_def)
  with TouchWithPath_ensures [OF this] show ?thesis by simp
qed

text \<open>
  Copying a regular file onto itself destroys its content: the destination is
  truncated after the source was opened and before it is read.  The call reports zero
  bytes and no error.
\<close>

theorem Copy_onto_itself_empties:
  assumes "node_at f (locate f p) = Some (FileNode s)" and "p \<noteq> ''''" and "\<And>call k. fault f call k = None"
    and "Mkdir f (Dir p) = (None, f)" and "locate f p \<noteq> []"
  shows "\<exists>f'. Copy f p p = ((0, None), f') \<and> node_at f' (locate f p) = Some (FileNode '''')"
  using assms
  by (simp add: Copy_def Open_def Stat_def Create_def read_handle_def Let_def node_at_put)

theorem Copy_onto_itself_empties_witness:
  "\<exists>f'. Copy sample_fs ''/srv/t'' ''/srv/t'' = ((0, None), f') \<and> node_at f' [''srv'', ''t''] = Some (FileNode '''')"
proof -
  have l: "locate sample_fs ''/srv/t'' = [''srv'', ''t'']" by code_simp
  have "Mkdir sample_fs (Dir ''/srv/t'') = (None, sample_fs)"
    by (simp add: sample_fs_def Mkdir_def locate_def IsAbs_def HasPrefix_def Dir_def Clean_def node_at_def Let_def)
  moreover have "node_at sample_fs (locate sample_fs ''/srv/t'') = Some (FileNode ''abc'')"
    unfolding l by (simp add: sample_fs_def node_at_def)
  ultimately show ?thesis
    using Copy_onto_itself_empties [of sample_fs "''/srv/t''" "''abc''"] l by (simp add: sample_fs_def)
qed

definition attempt :: "(nat \<Rightarrow> nat) \<Rightarrow> (nat \<Rightarrow> nat \<Rightarrow> nat) \<Rightarrow> nat \<Rightarrow> string" where
  "attempt now rnd i = ReplaceAll (Format_clock (now i)) ''.'' ''-'' @ ''-'' @ RandomString (rnd i) 4"

lemma random_name_step:
  "random_name f now rnd root path ext i =
     (if \<not> Exists f (Join [root, path, attempt now rnd i @ ext]) then Some (attempt now rnd i)
      else random_name f now rnd root path ext (Suc i))"
  by (subst random_name.simps) (simp add: attempt_def Let_def)

lemma random_name_finds:
  assumes "\<not> Exists f (Join [root, path, attempt now rnd (i + d) @ ext])"
  shows "\<exists>j. random_name f now rnd root path ext i = Some (attempt now rnd j) \<and>
    \<not> Exists f (Join [root, path, attempt now rnd j @ ext])"
  using assms
proof (induction d arbitrary: i)
  case 0
  then show ?case by (auto simp: random_name_step [of f now rnd root path ext i])
next
  case (Suc d)
  show ?case
  proof (cases "Exists f (Join [root, path, attempt now rnd i @ ext])")
    case True
    with Suc.IH [of "Suc i"] Suc.prems show ?thesis by (simp add: random_name_step [of f now rnd root path ext i])
  next
    case False
    then show ?thesis by (auto simp: random_name_step [of f now rnd root path ext i])
  qed
qed

lemma Ext_no_slash: "CHR ''/'' \<notin> set (Ext p)"
  by (auto simp: Ext_def last_element_def Let_def dest!: set_takeWhileD)

lemma ReplaceAll_dots: "CHR ''/'' \<notin> set s \<Longrightarrow> CHR ''/'' \<notin> set (ReplaceAll s ''.'' ''-'')"
proof (induction "length s" arbitrary: s rule: less_induct)
  case less
  show ?case
  proof (cases s)
    case (Cons c cs)
    with less have "CHR ''/'' \<notin> set (ReplaceAll cs ''.'' ''-'')" by simp
    then show ?thesis using less.prems Cons by (subst ReplaceAll.simps) (simp add: HasPrefix_def)
  qed (subst ReplaceAll.simps, simp)
qed

lemma RandomString_chars: "set (RandomString r n) \<subseteq> set random_chars"
proof -
  have "0 < length random_chars" by (simp add: random_chars_def)
  then show ?thesis by (auto simp: RandomString_def)
qed

lemma proper_nameI: "CHR ''/'' \<notin> set s \<Longrightarrow> 2 < length s \<Longrightarrow> proper_name s"
  by (auto simp: proper_name_def)

lemma random_name_attempt:
  "random_name f nw rd root path x i = Some a \<Longrightarrow> \<exists>j. a = attempt nw rd j \<and> \<not> Exists f (Join [root, path, a @ x])"
proof (rule random_name.raw_induct [where P = "\<lambda>f now rnd root path ext i y. \<exists>j. y = attempt now rnd j \<and> \<not> Exists f (Join [root, path, y @ ext])"])
  fix rn :: "fs \<Rightarrow> (nat \<Rightarrow> nat) \<Rightarrow> (nat \<Rightarrow> nat \<Rightarrow> nat) \<Rightarrow> string \<Rightarrow> string \<Rightarrow> string \<Rightarrow> nat \<Rightarrow> string option"
    and f nw rd root path x i y
  assume IH: "\<And>f nw rd root path x i y. rn f nw rd root path x i = Some y \<Longrightarrow> \<exists>j. y = attempt nw rd j \<and> \<not> Exists f (Join [root, path, y @ x])"
    and "(let fname = ReplaceAll (Format_clock (nw i)) ''.'' ''-'' @ ''-'' @ RandomString (rd i) 4; fullName = Join [root, path, fname @ x]
          in if \<not> Exists f fullName then Some fname else rn f nw rd root path x (Suc i)) = Some y"
  then show "\<exists>j. y = attempt nw rd j \<and> \<not> Exists f (Join [root, path, y @ x])" by (auto simp: attempt_def Let_def split: if_splits)
qed

lemma attempt_proper: "proper_name (attempt now rnd i @ URLFileExtension parseURL url)"
proof -
  have "CHR ''/'' \<notin> set (RandomString (rnd i) 4)"
    using RandomString_chars [of "rnd i" 4] by (auto simp: random_chars_def)
  then have "CHR ''/'' \<notin> set (attempt now rnd i @ URLFileExtension parseURL url)"
    using ReplaceAll_dots [OF Format_no_slash(2)] Ext_no_slash by (auto simp: attempt_def URLFileExtension_def split: option.splits)
  moreover have "length (RandomString (rnd i) 4) = 4" by (simp add: RandomString_def)
  then have "4 < length (attempt now rnd i @ URLFileExtension parseURL url)" by (simp add: attempt_def)
  then have "2 < length (attempt now rnd i @ URLFileExtension parseURL url)" by linarith
  ultimately show ?thesis by (rule proper_nameI)
qed

lemma target_location:
  assumes "canonical root" and "proper_name path" and "proper_name name"
  shows "locate f (Join [root, path, name]) = parts root @ [path, name]" and "Join [root, path, name] \<noteq> ''''"
proof -
  have ab: "IsAbs root" by (rule canonical_abs [OF assms(1)])
  then have "Join [root, path, name] = Join [root, join_str ''/'' [path, name]]"
    by (auto simp: Join_def IsAbs_def HasPrefix_def)
  then have c: "canonical (Join [root, path, name])" "parts (Join [root, path, name]) = parts root @ [path, name]"
    using parts_below [OF assms(1), of "[path, name]"] assms(2,3) by simp_all
  show "locate f (Join [root, path, name]) = parts root @ [path, name]" using c canonical_abs by (simp add: locate_parts)
  show "Join [root, path, name] \<noteq> ''''" using canonical_abs [OF c(1)] by (auto simp: IsAbs_def HasPrefix_def)
qed

text \<open>
  C36: the search for a random file name ends.  If the directory is not below a regular
  file and its status can be read, and the attempts draw more different names than the file
  system has nodes, the search returns one of the attempts with the extension of the URL;
  no file of that name is there, and the two results name the same file.
\<close>

theorem GenerateRandomFilename_ends:
  assumes "canonical root" and "proper_name path" and "\<And>x. \<not> through_file f [] (parts root @ [path, x])"
    and "\<And>k. fault f ''stat'' k = None" and "length (nodes f) < card (attempt now rnd ` {..<n})"
  shows "\<exists>j name. name = attempt now rnd j @ URLFileExtension parseURL url \<and>
    GenerateRandomFilename parseURL f now rnd url root path = Some (Join [path, name], name) \<and>
    \<not> Exists f (Join [root, path, name])"
proof -
  let ?ext = "URLFileExtension parseURL url"
  let ?name = "\<lambda>i. attempt now rnd i @ ?ext"
  have "\<exists>i. \<not> Exists f (Join [root, path, ?name i])"
  proof (rule ccontr)
    assume "\<not> ?thesis"
    then have ex: "Exists f (Join [root, path, ?name i])" for i by blast
    have "parts root @ [path, ?name i] \<in> fst ` set (nodes f)" for i
    proof -
      note loc = target_location [OF assms(1,2) attempt_proper]
      have "node_at f (parts root @ [path, ?name i]) \<noteq> None"
        using ex [of i] assms(3,4) loc by (auto simp: Exists_def Stat_def Let_def split: option.splits if_splits)
      then show ?thesis by (simp add: node_at_def map_of_eq_None_iff)
    qed
    then have "(\<lambda>a. parts root @ [path, a @ ?ext]) ` attempt now rnd ` {..<n} \<subseteq> fst ` set (nodes f)" by auto
    then have "card ((\<lambda>a. parts root @ [path, a @ ?ext]) ` attempt now rnd ` {..<n}) \<le> card (fst ` set (nodes f))"
      by (intro card_mono) auto
    also have "card ((\<lambda>a. parts root @ [path, a @ ?ext]) ` attempt now rnd ` {..<n}) = card (attempt now rnd ` {..<n})"
      by (intro card_image inj_onI) simp
    also have "card (fst ` set (nodes f)) \<le> length (nodes f)"
      using card_image_le [of "set (nodes f)" fst] card_length [of "nodes f"] by simp
    finally show False using assms(5) by simp
  qed
  then obtain i where "\<not> Exists f (Join [root, path, ?name i])" by blast
  then show ?thesis
    using random_name_finds [of f root path now rnd 0 i ?ext] by (auto simp: GenerateRandomFilename_def Let_def)
qed

theorem GenerateRandomFilename_ends_witness:
  "\<exists>name. GenerateRandomFilename (\<lambda>u. Some u) sample_fs (\<lambda>_. 0) (\<lambda>i _. i) ''/x.jpg'' ''/srv'' ''img''
     = Some (Join [''img'', name], name) \<and> \<not> Exists sample_fs (Join [''/srv'', ''img'', name])"
proof -
  let ?a = "attempt (\<lambda>_. 0) (\<lambda>i _. i)"
  have can: "canonical ''/srv''" unfolding canonical_def by (intro exI [of _ "[''srv'']"]) (simp add: proper_name_def)
  have p: "parts ''/srv'' = [''srv'']" by code_simp
  have "RandomString (\<lambda>_. 0) 4 \<noteq> RandomString (\<lambda>_. 1) 4" "RandomString (\<lambda>_. 0) 4 \<noteq> RandomString (\<lambda>_. 2) 4"
    "RandomString (\<lambda>_. 1) 4 \<noteq> RandomString (\<lambda>_. 2) 4" by code_simp+
  then have "?a 0 \<noteq> ?a 1" "?a 0 \<noteq> ?a 2" "?a 1 \<noteq> ?a 2" by (simp_all add: attempt_def)
  then have "card {?a 0, ?a 1, ?a 2} = 3" by simp
  moreover have "?a ` {..<3} = {?a 0, ?a 1, ?a 2}" by (auto simp: numeral_eq_Suc lessThan_Suc)
  ultimately have c: "length (nodes sample_fs) < card (?a ` {..<3})" by (simp add: sample_fs_def)
  have "\<not> through_file sample_fs [] (parts ''/srv'' @ [''img'', x])" "fault sample_fs ''stat'' k = None" for x k
    by (simp_all add: p sample_fs_def node_at_def)
  from GenerateRandomFilename_ends [OF can _ this c] show ?thesis by (auto simp: proper_name_def)
qed

text \<open>
  Below a regular file the search never ends: the status of every name is an error other
  than \<open>os.ErrNotExist\<close>, which \<open>Exists\<close> takes for a file that is there.
\<close>

lemma GenerateRandomFilename_below_a_file:
  assumes "canonical root" and "proper_name path" and "\<And>x. through_file f [] (parts root @ [path, x])"
  shows "GenerateRandomFilename parseURL f now rnd url root path = None"
proof -
  let ?ext = "URLFileExtension parseURL url"
  have ex: "Exists f (Join [root, path, attempt now rnd i @ ?ext])" for i
    using target_location [OF assms(1,2) attempt_proper] assms(3)
    by (simp add: Exists_def Stat_def Let_def split: option.splits)
  have "random_name f now rnd root path ?ext i \<noteq> Some a" for i a
    using random_name_attempt [of f now rnd root path ?ext i a] ex by blast
  then show ?thesis by (cases "random_name f now rnd root path ?ext 0") (simp_all add: GenerateRandomFilename_def Let_def)
qed

end
