(* ===== verification/Conftool.thy ===== *)
theory Conftool
  imports Complex_Main Files
begin

text \<open>
  Package \<open>conftool\<close> (src/conftool/conftool.go): reading a configuration file,
  replacing \<open>{{VAR}}\<close> by environment values, and filling in defaults by reflection.
  A struct seen through \<open>reflect\<close> is a list of fields with their tags and values.
  The YAML and JSON decoders, \<open>strconv.ParseFloat\<close> and the floating-point fraction of
  \<open>time.ParseDuration\<close> are arguments.
\<close>

subsection \<open>Environment variables\<close>

definition word_char :: "char \<Rightarrow> bool" where
  "word_char c \<longleftrightarrow> is_digit c \<or> (CHR ''a'' \<le> c \<and> c \<le> CHR ''z'') \<or> (CHR ''A'' \<le> c \<and> c \<le> CHR ''Z'') \<or> c = CHR ''_''"

text \<open>The leftmost match of the pattern: the name between the braces.\<close>

definition var_here :: "string \<Rightarrow> string option" where
  "var_here s =
     (if HasPrefix s ''{{'' then
        (let w = takeWhile word_char (drop 2 s)
         in if w \<noteq> [] \<and> HasPrefix (dropWhile word_char (drop 2 s)) ''}}'' then Some w else None)
      else None)"

fun find_var :: "string \<Rightarrow> string option" where
  "find_var [] = None"
| "find_var (c # s) = (case var_here (c # s) of Some w \<Rightarrow> Some w | None \<Rightarrow> find_var s)"

partial_function (option) ParseEnvVars :: "(string \<Rightarrow> string) \<Rightarrow> string \<Rightarrow> string option" where
  "ParseEnvVars getenv buf = (case find_var buf of
      None \<Rightarrow> Some buf
    | Some w \<Rightarrow> ParseEnvVars getenv (ReplaceAll buf (''{{'' @ w @ ''}}'') (getenv (map to_upper w))))"

subsection \<open>Durations and booleans\<close>

definition pow63 :: int where
  "pow63 = 9223372036854775808"

text \<open>\<open>leadingInt\<close>: the value of the leading digits and the rest; \<open>None\<close> on overflow.\<close>

fun leadingInt :: "int \<Rightarrow> string \<Rightarrow> (int \<times> string) option" where
  "leadingInt x [] = Some (x, [])"
| "leadingInt x (c # s) =
     (if \<not> is_digit c then Some (x, c # s)
      else if x > pow63 div 10 then None
      else let x' = x * 10 + int (digit_val c) in if x' > pow63 then None else leadingInt x' s)"

text \<open>\<open>leadingFraction\<close>: digits that would overflow are skipped; the scale is returned.\<close>

fun leadingFraction :: "int \<Rightarrow> int \<Rightarrow> bool \<Rightarrow> string \<Rightarrow> int \<times> int \<times> string" where
  "leadingFraction x scale over [] = (x, scale, [])"
| "leadingFraction x scale over (c # s) =
     (if \<not> is_digit c then (x, scale, c # s)
      else if over then leadingFraction x scale over s
      else if x > (pow63 - 1) div 10 then leadingFraction x scale True s
      else let y = x * 10 + int (digit_val c)
        in if y > pow63 then leadingFraction x scale True s else leadingFraction y (scale * 10) over s)"

definition unitMap :: "string \<rightharpoonup> int" where
  "unitMap = [''ns'' \<mapsto> 1, ''us'' \<mapsto> 1000, ''ms'' \<mapsto> 1000000, ''s'' \<mapsto> 1000000000, ''m'' \<mapsto> 60000000000,
     ''h'' \<mapsto> 3600000000000, [CHR 0xC2, CHR 0xB5, CHR ''s''] \<mapsto> 1000, [CHR 0xCE, CHR 0xBC, CHR ''s''] \<mapsto> 1000]"

definition not_unit :: "char \<Rightarrow> bool" where
  "not_unit c \<longleftrightarrow> c = CHR ''.'' \<or> is_digit c"

text \<open>
  One round of the loop: a number with its unit.  The result is the value in
  nanoseconds and the rest of the text, or \<open>None\<close> for an invalid duration.
\<close>

definition duration_part :: "(int \<Rightarrow> int \<Rightarrow> int \<Rightarrow> int) \<Rightarrow> string \<Rightarrow> (int \<times> string) option" where
  "duration_part fracNs s =
     (if s = [] \<or> \<not> not_unit (hd s) then None
      else case leadingInt 0 s of
        None \<Rightarrow> None
      | Some (v, s1) \<Rightarrow>
          (let pre = (length s1 \<noteq> length s);
               (f, scale, post, s2) =
                 (if s1 \<noteq> [] \<and> hd s1 = CHR ''.'' then
                    (case leadingFraction 0 1 False (tl s1) of (f, sc, t) \<Rightarrow> (f, sc, length t \<noteq> length (tl s1), t))
                  else (0, 1, False, s1))
           in if \<not> pre \<and> \<not> post then None
              else let u = takeWhile (\<lambda>c. \<not> not_unit c) s2; rest = dropWhile (\<lambda>c. \<not> not_unit c) s2
                in if u = [] then None
                   else case unitMap u of
                     None \<Rightarrow> None
                   | Some unit \<Rightarrow>
                       if v > pow63 div unit then None
                       else let v' = v * unit + (if f > 0 then fracNs f unit scale else 0)
                         in if v' > pow63 then None else Some (v', rest)))"

lemma leadingInt_length: "leadingInt x s = Some (v, t) \<Longrightarrow> length t \<le> length s"
  by (induction x s rule: leadingInt.induct) (auto simp: Let_def split: if_splits)

lemma leadingFraction_length: "leadingFraction x sc b s = (f, sc', t) \<Longrightarrow> length t \<le> length s"
  by (induction x sc b s rule: leadingFraction.induct) (auto simp: Let_def split: if_splits)

lemma takeWhile_length: "takeWhile P s \<noteq> [] \<Longrightarrow> length (dropWhile P s) < length s"
  by (cases s) (auto simp: length_dropWhile_le less_Suc_eq_le split: if_splits)

lemma duration_part_length: "duration_part fracNs s = Some (v, t) \<Longrightarrow> length t < length s"
  using takeWhile_length [of "\<lambda>c. \<not> not_unit c"]
  by (fastforce simp: duration_part_def Let_def split: if_splits option.splits prod.splits
      dest!: leadingInt_length leadingFraction_length)

function duration_loop :: "(int \<Rightarrow> int \<Rightarrow> int \<Rightarrow> int) \<Rightarrow> int \<Rightarrow> string \<Rightarrow> int option" where
  "duration_loop fracNs d s =
     (if s = [] then Some d
      else case duration_part fracNs s of
        None \<Rightarrow> None
      | Some (v, t) \<Rightarrow> if d + v > pow63 then None else duration_loop fracNs (d + v) t)"
  by pat_completeness auto
termination
  by (relation "measure (\<lambda>(_, _, s). length s)") (auto dest: duration_part_length)

declare duration_loop.simps [simp del]

definition ParseDuration :: "(int \<Rightarrow> int \<Rightarrow> int \<Rightarrow> int) \<Rightarrow> string \<Rightarrow> int option" where
  "ParseDuration fracNs s = (case signed_part s of (neg, t) \<Rightarrow>
     if t = ''0'' then Some 0
     else if t = [] then None
     else case duration_loop fracNs 0 t of
       None \<Rightarrow> None
     | Some d \<Rightarrow> if neg then Some (- d) else if d > pow63 - 1 then None else Some d)"

definition ParseBool :: "string \<Rightarrow> bool option" where
  "ParseBool s =
     (if s \<in> {''1'', ''t'', ''T'', ''TRUE'', ''true'', ''True''} then Some True
      else if s \<in> {''0'', ''f'', ''F'', ''FALSE'', ''false'', ''False''} then Some False else None)"

subsection \<open>Structs by reflection\<close>

record fmeta =
  Name :: string
  exported :: bool
  Tag :: "(string \<times> string) list"

text \<open>
  Values by kind.  Integers carry their width; slices and maps only whether they are
  nil and their length; a pointer or interface only whether it is nil.  A float is a
  \<open>float64\<close>.  There are no values for the kinds that no configuration of the repository
  has: \<open>float32\<close>, for which \<open>SetFloat\<close> would round, arrays, and functions or interfaces
  over uncomparable values, on which the comparison of \<open>isFieldEmpty\<close> would panic.
\<close>

datatype gval = VString string | VInt nat int | VUint nat int | VFloat real | VBool bool
  | VSlice "nat option" | VMap "nat option" | VPtr bool | VStruct "(fmeta \<times> gval) list"

definition Lookup :: "fmeta \<Rightarrow> string \<Rightarrow> string option" where
  "Lookup f key = map_of (Tag f) key"

definition isFieldRequired :: "fmeta \<Rightarrow> bool" where
  "isFieldRequired f = (Lookup f ''required'' = Some ''true'')"

fun isFieldEmpty :: "gval \<Rightarrow> bool" where
  "isFieldEmpty (VSlice n) = (case n of None \<Rightarrow> True | Some k \<Rightarrow> k = 0)"
| "isFieldEmpty (VMap n) = (case n of None \<Rightarrow> True | Some k \<Rightarrow> k = 0)"
| "isFieldEmpty (VString s) = (s = '''')"
| "isFieldEmpty (VInt w i) = (i = 0)"
| "isFieldEmpty (VUint w i) = (i = 0)"
| "isFieldEmpty (VFloat x) = (x = 0)"
| "isFieldEmpty (VBool b) = (b = False)"
| "isFieldEmpty (VPtr isnil) = isnil"
| "isFieldEmpty (VStruct fs) = False"

text \<open>\<open>reflect.Value.SetInt\<close> and \<open>SetUint\<close> cut the value to the width of the field.\<close>

definition cut_int :: "nat \<Rightarrow> int \<Rightarrow> int" where
  "cut_int w i = (i + 2 ^ (w - 1)) mod 2 ^ w - 2 ^ (w - 1)"

definition cut_uint :: "nat \<Rightarrow> int \<Rightarrow> int" where
  "cut_uint w i = i mod 2 ^ w"

fun setField :: "(string \<Rightarrow> real option) \<Rightarrow> (int \<Rightarrow> int \<Rightarrow> int \<Rightarrow> int) \<Rightarrow> gval \<Rightarrow> string \<Rightarrow> gval" where
  "setField parseFloat fracNs (VString _) dv = VString dv"
| "setField parseFloat fracNs (VInt w i) dv = (case ParseInt dv of
     (v, None) \<Rightarrow> VInt w (cut_int w v)
   | (_, Some ErrSyntax) \<Rightarrow> (case ParseDuration fracNs dv of Some d \<Rightarrow> VInt w (cut_int w d) | None \<Rightarrow> VInt w i)
   | (_, Some ErrRange) \<Rightarrow> VInt w i)"
| "setField parseFloat fracNs (VUint w i) dv = (case ParseUint dv of
     (v, None) \<Rightarrow> VUint w (cut_uint w v)
   | (_, Some _) \<Rightarrow> VUint w i)"
| "setField parseFloat fracNs (VFloat x) dv = (case parseFloat dv of Some y \<Rightarrow> VFloat y | None \<Rightarrow> VFloat x)"
| "setField parseFloat fracNs (VBool b) dv = (case ParseBool dv of Some c \<Rightarrow> VBool c | None \<Rightarrow> VBool b)"
| "setField parseFloat fracNs (VSlice n) dv = VSlice n"
| "setField parseFloat fracNs (VMap n) dv = VMap n"
| "setField parseFloat fracNs (VPtr p) dv = VPtr p"
| "setField parseFloat fracNs (VStruct fs) dv = VStruct fs"

text \<open>
  \<open>defsAndReqs\<close>: the missing parameters and the struct after the call.  \<open>None\<close> is
  the panic of taking the interface of an unexported struct field.
\<close>

definition set_default :: "(string \<Rightarrow> real option) \<Rightarrow> (int \<Rightarrow> int \<Rightarrow> int \<Rightarrow> int) \<Rightarrow> fmeta \<Rightarrow> gval \<Rightarrow> string list \<times> gval" where
  "set_default parseFloat fracNs m v =
     (if exported m then
        (if \<not> isFieldEmpty v then ([], v)
         else case Lookup m ''default'' of
             None \<Rightarrow> (if isFieldRequired m then [Name m] else [], v)
           | Some dv \<Rightarrow> ([], setField parseFloat fracNs v dv))
      else ([], v))"

function defsAndReqs :: "(string \<Rightarrow> real option) \<Rightarrow> (int \<Rightarrow> int \<Rightarrow> int \<Rightarrow> int) \<Rightarrow> (fmeta \<times> gval) list \<Rightarrow>
    (string list \<times> (fmeta \<times> gval) list) option" where
  "defsAndReqs parseFloat fracNs [] = Some ([], [])"
| "defsAndReqs parseFloat fracNs ((m, v) # rest) = (case v of
     VStruct fs \<Rightarrow>
       (if \<not> exported m then None
        else case defsAndReqs parseFloat fracNs fs of
          None \<Rightarrow> None
        | Some (dive, fs') \<Rightarrow> (case defsAndReqs parseFloat fracNs rest of
            None \<Rightarrow> None
          | Some (reqs, rest') \<Rightarrow> Some (map (\<lambda>d. Name m @ ''.'' @ d) dive @ reqs, (m, VStruct fs') # rest')))
   | _ \<Rightarrow> (case set_default parseFloat fracNs m v of (own, v') \<Rightarrow>
       (case defsAndReqs parseFloat fracNs rest of
          None \<Rightarrow> None
        | Some (reqs, rest') \<Rightarrow> Some (own @ reqs, (m, v') # rest'))))"
  by pat_completeness auto
termination
  by (relation "measure (\<lambda>(_, _, fs). size_list (size_prod (\<lambda>_. 0) size) fs)") auto

definition DefaultsAndRequired :: "(string \<Rightarrow> real option) \<Rightarrow> (int \<Rightarrow> int \<Rightarrow> int \<Rightarrow> int) \<Rightarrow> (fmeta \<times> gval) list \<Rightarrow>
    (string option \<times> (fmeta \<times> gval) list) option" where
  "DefaultsAndRequired parseFloat fracNs cfg = (case defsAndReqs parseFloat fracNs cfg of
      None \<Rightarrow> None
    | Some (reqs, cfg') \<Rightarrow>
        Some (if length reqs > 0 then Some (''required config parameters not set: '' @ join_str '', '' reqs) else None, cfg'))"

subsection \<open>Reading the file\<close>

datatype unmarshaller = YAML | JSON_dec

definition getConfigType :: "string \<Rightarrow> string + unmarshaller" where
  "getConfigType fname =
     (let ext = Ext fname
      in if ext = ''.yaml'' \<or> ext = ''.yml'' then Inr YAML
         else if ext = ''.json'' then Inr JSON_dec
         else Inl (''unsupported config file type: '' @ ext))"

datatype 'a run = Diverges | Crashes | Ends 'a

text \<open>
  The result of reading: the error, if any, and the struct as it is then.  The loop of
  \<open>ParseEnvVars\<close> may not end.
\<close>

definition parseRead :: "(unmarshaller \<Rightarrow> string \<Rightarrow> (fmeta \<times> gval) list \<Rightarrow> string option \<times> (fmeta \<times> gval) list) \<Rightarrow>
    (string \<Rightarrow> real option) \<Rightarrow> (int \<Rightarrow> int \<Rightarrow> int \<Rightarrow> int) \<Rightarrow> (string \<Rightarrow> string) \<Rightarrow>
    (fs_error + string) \<Rightarrow> unmarshaller \<Rightarrow> (fmeta \<times> gval) list \<Rightarrow> (string option \<times> (fmeta \<times> gval) list) run" where
  "parseRead unmarshal parseFloat fracNs getenv content decoder cfg = (case content of
      Inl e \<Rightarrow> Ends (Some ''config file ReadAll'', cfg)
    | Inr conf \<Rightarrow> (case ParseEnvVars getenv conf of
        None \<Rightarrow> Diverges
      | Some conf' \<Rightarrow> (case unmarshal decoder conf' cfg of
          (Some e, cfg') \<Rightarrow> Ends (Some (''decoding config file: '' @ e), cfg')
        | (None, cfg') \<Rightarrow> (case DefaultsAndRequired parseFloat fracNs cfg' of None \<Rightarrow> Crashes | Some r \<Rightarrow> Ends r))))"

definition ReadFromFile :: "(unmarshaller \<Rightarrow> string \<Rightarrow> (fmeta \<times> gval) list \<Rightarrow> string option \<times> (fmeta \<times> gval) list) \<Rightarrow>
    (string \<Rightarrow> real option) \<Rightarrow> (int \<Rightarrow> int \<Rightarrow> int \<Rightarrow> int) \<Rightarrow> (string \<Rightarrow> string) \<Rightarrow>
    fs \<Rightarrow> string \<Rightarrow> (fmeta \<times> gval) list \<Rightarrow> (string option \<times> (fmeta \<times> gval) list) run" where
  "ReadFromFile unmarshal parseFloat fracNs getenv f fname cfg =
     (let fullname = Abs_path (cwd f) fname
      in case Open f fullname of
           Inl e \<Rightarrow> Ends (Some ''open config file'', cfg)
         | Inr h \<Rightarrow> (case getConfigType fname of
             Inl e \<Rightarrow> Ends (Some e, cfg)
           | Inr decoder \<Rightarrow> parseRead unmarshal parseFloat fracNs getenv (read_handle f h) decoder cfg))"

subsection \<open>Replacing variables\<close>

definition var_pattern :: "string \<Rightarrow> string" where
  "var_pattern w = ''{{'' @ w @ ''}}''"

lemma var_here_pattern: "var_here s = Some w \<Longrightarrow> HasPrefix s (var_pattern w)"
proof -
  assume h: "var_here s = Some w"
  then have w: "w = takeWhile word_char (drop 2 s)" and p: "HasPrefix s ''{{''"
    and q: "HasPrefix (dropWhile word_char (drop 2 s)) ''}}''"
    by (auto simp: var_here_def Let_def split: if_splits)
  from p obtain t where t: "s = ''{{'' @ t" by (auto simp: HasPrefix_append)
  moreover from q t obtain u where "dropWhile word_char t = ''}}'' @ u" by (auto simp: HasPrefix_append)
  ultimately have "s = ''{{'' @ takeWhile word_char t @ ''}}'' @ u"
    by (metis takeWhile_dropWhile_id)
  then show ?thesis using w t by (auto simp: HasPrefix_append var_pattern_def)
qed

lemma find_var_contains: "find_var s = Some w \<Longrightarrow> Contains s (var_pattern w)"
  by (induction s) (auto split: option.splits dest: var_here_pattern)

lemma ReplaceAll_hit:
  "HasPrefix s old \<Longrightarrow> old \<noteq> [] \<Longrightarrow> ReplaceAll s old new = new @ ReplaceAll (drop (length old) s) old new"
  by (subst ReplaceAll.simps) (auto simp: HasPrefix_def)

lemma ReplaceAll_miss: "\<not> HasPrefix (c # s) old \<Longrightarrow> ReplaceAll (c # s) old new = c # ReplaceAll s old new"
  by (subst ReplaceAll.simps) (auto simp: HasPrefix_def)

lemma count_replace_le:
  "CHR ''{'' \<notin> set new \<Longrightarrow> count_list (ReplaceAll s old new) CHR ''{'' \<le> count_list s CHR ''{''"
proof (induction s old new rule: ReplaceAll.induct)
  case (1 s old new)
  show ?case
  proof (cases "old = [] \<or> s = []")
    case True
    then show ?thesis by (simp add: ReplaceAll.simps [of s])
  next
    case ne: False
    show ?thesis
    proof (cases "HasPrefix s old")
      case True
      then have "count_list s CHR ''{'' = count_list old CHR ''{'' + count_list (drop (length old) s) CHR ''{''"
        by (metis HasPrefix_def append_take_drop_id count_list_append)
      then show ?thesis using 1 ne True by (simp add: ReplaceAll.simps [of s] count_list_append count_notin)
    next
      case False
      then show ?thesis using 1 ne by (cases s) (auto simp: ReplaceAll_miss)
    qed
  qed
qed

lemma count_replace_less:
  assumes "CHR ''{'' \<notin> set new" and "CHR ''{'' \<in> set old" and "Contains s old"
  shows "count_list (ReplaceAll s old new) CHR ''{'' < count_list s CHR ''{''"
  using assms
proof (induction s)
  case Nil
  then show ?case by auto
next
  case (Cons c s)
  have ne: "old \<noteq> []" using Cons.prems(2) by auto
  show ?case
  proof (cases "HasPrefix (c # s) old")
    case True
    then have "count_list (c # s) CHR ''{'' = count_list old CHR ''{'' + count_list (drop (length old) (c # s)) CHR ''{''"
      by (metis HasPrefix_def append_take_drop_id count_list_append)
    moreover have "0 < count_list old CHR ''{''" using Cons.prems(2) by (metis count_list_0_iff gr0I)
    ultimately show ?thesis
      using True ne Cons.prems(1) count_replace_le [OF Cons.prems(1), of "drop (length old) (c # s)" old]
      by (simp add: ReplaceAll.simps [of "c # s"] count_list_append count_notin)
  next
    case False
    then have "count_list (ReplaceAll s old new) CHR ''{'' < count_list s CHR ''{''" using Cons by simp
    then show ?thesis using False by (simp add: ReplaceAll_miss)
  qed
qed

lemma ReplaceAll_same: "ReplaceAll s p p = s"
proof (induction "length s" arbitrary: s rule: less_induct)
  case less
  consider "p = [] \<or> s = []" | (hit) "HasPrefix s p" "p \<noteq> []" "s \<noteq> []" | (miss) c t where "s = c # t" "\<not> HasPrefix s p"
    by (cases s) auto
  then show ?case
  proof cases
    case 1
    then show ?thesis by (simp add: ReplaceAll.simps [of s])
  next
    case hit
    then have "ReplaceAll (drop (length p) s) p p = drop (length p) s" by (intro less) (simp add: HasPrefix_def)
    then show ?thesis using hit by (metis ReplaceAll_hit HasPrefix_def append_take_drop_id)
  next
    case miss
    then show ?thesis using less [of t] by (simp add: ReplaceAll_miss)
  qed
qed

lemma ParseEnvVars_ends:
  assumes "\<And>v. CHR ''{'' \<notin> set (getenv v)"
  shows "\<exists>out. ParseEnvVars getenv buf = Some out \<and> find_var out = None"
proof (induction "count_list buf CHR ''{''" arbitrary: buf rule: less_induct)
  case less
  show ?case
  proof (cases "find_var buf")
    case None
    then show ?thesis by (subst ParseEnvVars.simps) simp
  next
    case (Some w)
    have "count_list (ReplaceAll buf (var_pattern w) (getenv (map to_upper w))) CHR ''{'' < count_list buf CHR ''{''"
      using assms find_var_contains [OF Some] by (intro count_replace_less) (auto simp: var_pattern_def)
    from less [OF this] Some show ?thesis by (subst ParseEnvVars.simps) (simp add: var_pattern_def)
  qed
qed

lemma ParseEnvVars_loops:
  assumes "getenv (map to_upper w) = var_pattern w" and "find_var buf = Some w"
  shows "ParseEnvVars getenv buf = None"
proof (cases "ParseEnvVars getenv buf")
  case (Some out)
  have "(getenv (map to_upper w) = var_pattern w \<and> find_var buf = Some w) \<longrightarrow> False"
  proof (rule ParseEnvVars.raw_induct [OF _ Some,
        where P = "\<lambda>getenv buf _. (getenv (map to_upper w) = var_pattern w \<and> find_var buf = Some w) \<longrightarrow> False"])
    fix f :: "(string \<Rightarrow> string) \<Rightarrow> string \<Rightarrow> string option" and g b r
    assume IH: "\<And>g b r. f g b = Some r \<Longrightarrow> (g (map to_upper w) = var_pattern w \<and> find_var b = Some w) \<longrightarrow> False"
      and body: "(case find_var b of None \<Rightarrow> Some b
        | Some w \<Rightarrow> f g (ReplaceAll b (''{{'' @ w @ ''}}'') (g (map to_upper w)))) = Some r"
    show "(g (map to_upper w) = var_pattern w \<and> find_var b = Some w) \<longrightarrow> False"
    proof
      assume h: "g (map to_upper w) = var_pattern w \<and> find_var b = Some w"
      then have "f g (ReplaceAll b (var_pattern w) (var_pattern w)) = Some r"
        using body by (simp add: var_pattern_def)
      then have "f g b = Some r" by (simp only: ReplaceAll_same)
      with IH h show False by blast
    qed
  qed
  with assms show ?thesis by blast
qed simp

subsection \<open>Filling in defaults\<close>

text \<open>
  The leaves of a struct: the dotted name, the tags and the value of every field that is
  not a struct, in order.  \<open>filled\<close> is what a leaf should become, \<open>missing\<close> whether
  it is a required parameter that is not set.
\<close>

function leaves :: "(fmeta \<times> gval) list \<Rightarrow> (string \<times> fmeta \<times> gval) list" where
  "leaves [] = []"
| "leaves ((m, v) # rest) = (case v of
     VStruct fs \<Rightarrow> map (\<lambda>(n, x). (Name m @ ''.'' @ n, x)) (leaves fs) @ leaves rest
   | _ \<Rightarrow> (Name m, m, v) # leaves rest)"
  by pat_completeness auto
termination
  by (relation "measure (\<lambda>fs. size_list (size_prod (\<lambda>_. 0) size) fs)") auto

definition filled :: "(string \<Rightarrow> real option) \<Rightarrow> (int \<Rightarrow> int \<Rightarrow> int \<Rightarrow> int) \<Rightarrow> fmeta \<Rightarrow> gval \<Rightarrow> gval" where
  "filled parseFloat fracNs m v = (case Lookup m ''default'' of
      Some dv \<Rightarrow> if exported m \<and> isFieldEmpty v then setField parseFloat fracNs v dv else v
    | None \<Rightarrow> v)"

definition missing :: "fmeta \<Rightarrow> gval \<Rightarrow> bool" where
  "missing m v \<longleftrightarrow> exported m \<and> isFieldEmpty v \<and> Lookup m ''default'' = None \<and> Lookup m ''required'' = Some ''true''"

lemma set_default_eq: "set_default parseFloat fracNs m v =
    (if missing m v then [Name m] else [], filled parseFloat fracNs m v)"
  by (auto simp: set_default_def missing_def filled_def isFieldRequired_def split: option.splits)

lemma setField_not_struct:
  "(\<forall>fs. v \<noteq> VStruct fs) \<Longrightarrow> \<forall>fs. setField parseFloat fracNs v dv \<noteq> VStruct fs"
  by (cases v) (auto split: option.splits prod.splits num_error.splits)

lemma filled_not_struct: "(\<forall>fs. v \<noteq> VStruct fs) \<Longrightarrow> \<forall>fs. filled parseFloat fracNs m v \<noteq> VStruct fs"
  using setField_not_struct by (auto simp: filled_def split: option.splits)

lemma setField_again: "setField parseFloat fracNs (setField parseFloat fracNs v dv) dv = setField parseFloat fracNs v dv"
  by (cases v) (auto split: option.splits prod.splits num_error.splits)

lemma filled_again: "filled parseFloat fracNs m (filled parseFloat fracNs m v) = filled parseFloat fracNs m v"
  by (auto simp: filled_def setField_again split: option.splits)

lemma missing_filled: "missing m (filled parseFloat fracNs m v) = missing m v"
  by (auto simp: missing_def filled_def split: option.splits)

lemma leaves_plain: "(\<forall>fs. v \<noteq> VStruct fs) \<Longrightarrow> leaves ((m, v) # rest) = (Name m, m, v) # leaves rest"
  by (cases v) auto

lemma defsAndReqs_plain:
  assumes "\<forall>fs. v \<noteq> VStruct fs"
  shows "defsAndReqs parseFloat fracNs ((m, v) # rest) = (case defsAndReqs parseFloat fracNs rest of
      None \<Rightarrow> None
    | Some (reqs, rest') \<Rightarrow> Some ((if missing m v then [Name m] else []) @ reqs, (m, filled parseFloat fracNs m v) # rest'))"
  using assms by (cases v) (auto simp: set_default_eq)

lemma leaves_struct: "leaves ((m, VStruct fs) # rest) = map (\<lambda>(n, x). (Name m @ ''.'' @ n, x)) (leaves fs) @ leaves rest"
  by simp

lemma defsAndReqs_struct:
  "defsAndReqs parseFloat fracNs ((m, VStruct fs) # rest) = Some (reqs, cfg') \<longleftrightarrow> exported m \<and>
    (\<exists>d fs' r rest'. defsAndReqs parseFloat fracNs fs = Some (d, fs') \<and> defsAndReqs parseFloat fracNs rest = Some (r, rest') \<and>
       reqs = map (\<lambda>d. Name m @ ''.'' @ d) d @ r \<and> cfg' = (m, VStruct fs') # rest')"
  by (auto split: if_splits option.splits)

declare leaves.simps(2) [simp del] defsAndReqs.simps(2) [simp del]

lemma struct_induct [case_names Nil Struct Plain]:
  assumes "P []"
    and "\<And>m fs rest. P fs \<Longrightarrow> P rest \<Longrightarrow> P ((m, VStruct fs) # rest)"
    and "\<And>m v rest. (\<forall>fs. v \<noteq> VStruct fs) \<Longrightarrow> P rest \<Longrightarrow> P ((m, v) # rest)"
  shows "P cfg"
proof (induction cfg rule: leaves.induct)
  case 1
  show ?case by (rule assms(1))
next
  case (2 m v rest)
  then show ?case using assms(2,3) by (cases v) auto
qed

lemma defsAndReqs_leaves:
  "defsAndReqs parseFloat fracNs cfg = Some (reqs, cfg') \<Longrightarrow>
     reqs = map fst (filter (\<lambda>(n, m, v). missing m v) (leaves cfg)) \<and>
     leaves cfg' = map (\<lambda>(n, m, v). (n, m, filled parseFloat fracNs m v)) (leaves cfg)"
proof (induction cfg arbitrary: reqs cfg' rule: struct_induct)
  case Nil
  then show ?case by simp
next
  case (Struct m fs rest)
  from Struct.prems obtain d fs' r rest' where d: "defsAndReqs parseFloat fracNs fs = Some (d, fs')"
    and r: "defsAndReqs parseFloat fracNs rest = Some (r, rest')"
    and eq: "reqs = map (\<lambda>d. Name m @ ''.'' @ d) d @ r" "cfg' = (m, VStruct fs') # rest'"
    unfolding defsAndReqs_struct by blast
  from Struct.IH(1) [OF d] Struct.IH(2) [OF r] show ?case
    by (auto simp: eq leaves_struct filter_map comp_def case_prod_beta)
next
  case (Plain m v rest)
  from Plain.prems obtain r rest' where r: "defsAndReqs parseFloat fracNs rest = Some (r, rest')"
    and eq: "reqs = (if missing m v then [Name m] else []) @ r" "cfg' = (m, filled parseFloat fracNs m v) # rest'"
    by (auto simp: defsAndReqs_plain [OF Plain.hyps] split: option.splits)
  from Plain.IH [OF r] show ?case
    by (simp add: eq leaves_plain [OF Plain.hyps] leaves_plain [OF filled_not_struct [OF Plain.hyps]])
qed

lemma defsAndReqs_again:
  "defsAndReqs parseFloat fracNs cfg = Some (reqs, cfg') \<Longrightarrow> defsAndReqs parseFloat fracNs cfg' = Some (reqs, cfg')"
proof (induction cfg arbitrary: reqs cfg' rule: struct_induct)
  case Nil
  then show ?case by simp
next
  case (Struct m fs rest)
  then obtain d fs' r rest' where "exported m" "defsAndReqs parseFloat fracNs fs' = Some (d, fs')"
      "defsAndReqs parseFloat fracNs rest' = Some (r, rest')"
    and eq: "reqs = map (\<lambda>d. Name m @ ''.'' @ d) d @ r" "cfg' = (m, VStruct fs') # rest'"
    unfolding defsAndReqs_struct by blast
  then show ?case unfolding eq(2) defsAndReqs_struct by blast
next
  case (Plain m v rest)
  from Plain.prems obtain r rest' where r: "defsAndReqs parseFloat fracNs rest = Some (r, rest')"
    and eq: "reqs = (if missing m v then [Name m] else []) @ r" "cfg' = (m, filled parseFloat fracNs m v) # rest'"
    by (auto simp: defsAndReqs_plain [OF Plain.hyps] split: option.splits)
  from Plain.IH [OF r] show ?case
    by (simp add: eq defsAndReqs_plain [OF filled_not_struct [OF Plain.hyps]] filled_again missing_filled)
qed

subsection \<open>Types of configuration values\<close>

text \<open>
  The Go type of a value as far as the readers of a configuration tell types apart: its
  kind, the width of an integer, and the named fields of a struct.
\<close>

datatype gtype = TString | TInt nat | TUint nat | TFloat | TBool | TSlice | TMap | TPtr | TStruct "(string \<times> gtype) list"

subsection \<open>Properties\<close>

text \<open>
  C29: if no environment value contains an opening brace, replacing the variables ends
  on every input, and the result contains no variable any more.
\<close>

theorem ParseEnvVars_terminates:
  assumes "\<forall>v. CHR ''{'' \<notin> set (getenv v)"
  shows "\<exists>out. ParseEnvVars getenv buf = Some out \<and> find_var out = None"
  using ParseEnvVars_ends assms by blast

theorem ParseEnvVars_terminates_witness:
  "\<exists>out. ParseEnvVars (\<lambda>v. if v = ''HOST'' then ''db.local'' else '''') ''a: {{host}}:{{{PORT}}'' = Some out \<and> find_var out = None"
  by (rule ParseEnvVars_terminates) simp

text \<open>
  A variable whose value is the variable itself makes the replacement run for
  ever, on every input in which it is the first variable.
\<close>

theorem ParseEnvVars_diverges:
  assumes "getenv (map to_upper w) = ''{{'' @ w @ ''}}''" and "find_var buf = Some w"
  shows "ParseEnvVars getenv buf = None"
  using ParseEnvVars_loops assms by (simp add: var_pattern_def)

theorem ParseEnvVars_diverges_witness:
  "ParseEnvVars (\<lambda>v. if v = ''A'' then ''{{A}}'' else '''') ''x: {{A}}'' = None"
proof (rule ParseEnvVars_diverges [of _ "''A''"])
  show "(if map to_upper ''A'' = ''A'' then ''{{A}}'' else '''') = ''{{'' @ ''A'' @ ''}}''" by code_simp
  show "find_var ''x: {{A}}'' = Some ''A''" by code_simp
qed

text \<open>
  C8: filling in defaults treats each leaf field on its own: an exported empty field
  with a default gets it, every other field keeps its value, and the parameters reported
  as missing are exactly the dotted names of the exported empty fields that are required
  and have no default, in the order of the struct.
\<close>

theorem defaults_fill_leaves:
  assumes "DefaultsAndRequired parseFloat fracNs cfg = Some (err, cfg')"
  shows "leaves cfg' = map (\<lambda>(n, m, v). (n, m, filled parseFloat fracNs m v)) (leaves cfg) \<and>
    err = (let ns = map fst (filter (\<lambda>(n, m, v). missing m v) (leaves cfg))
      in if ns = [] then None else Some (''required config parameters not set: '' @ join_str '', '' ns))"
proof -
  from assms obtain reqs where r: "defsAndReqs parseFloat fracNs cfg = Some (reqs, cfg')"
    and e: "err = (if length reqs > 0 then Some (''required config parameters not set: '' @ join_str '', '' reqs) else None)"
    by (auto simp: DefaultsAndRequired_def split: option.splits)
  from defsAndReqs_leaves [OF r] show ?thesis by (simp add: e Let_def)
qed

definition sample_conf :: "(fmeta \<times> gval) list" where
  "sample_conf = [(\<lparr>Name = ''Host'', exported = True, Tag = [(''required'', ''true'')]\<rparr>, VString ''''),
     (\<lparr>Name = ''HTTP'', exported = True, Tag = []\<rparr>, VStruct
       [(\<lparr>Name = ''Port'', exported = True, Tag = [(''default'', ''8080'')]\<rparr>, VInt 64 0),
        (\<lparr>Name = ''Timeout'', exported = True, Tag = [(''default'', ''2s'')]\<rparr>, VInt 64 5),
        (\<lparr>Name = ''Token'', exported = True, Tag = [(''required'', ''true'')]\<rparr>, VString '''')])]"

theorem defaults_fill_leaves_witness:
  "\<exists>cfg'. DefaultsAndRequired (\<lambda>_. None) (\<lambda>_ _ _. 0) sample_conf
     = Some (Some ''required config parameters not set: Host, HTTP.Token'', cfg') \<and>
     map (snd \<circ> snd) (leaves cfg') = [VString '''', VInt 64 8080, VInt 64 5, VString '''']"
proof -
  have v: "ParseInt ''8080'' = (8080, None)" by code_simp
  obtain err cfg' where eq: "DefaultsAndRequired (\<lambda>_. None) (\<lambda>_ _ _. 0) sample_conf = Some (err, cfg')"
    by (simp add: sample_conf_def DefaultsAndRequired_def defsAndReqs.simps(2) set_default_eq split: prod.splits)
  from defaults_fill_leaves [OF eq] eq show ?thesis
    by (simp add: sample_conf_def leaves.simps(2) filled_def missing_def Lookup_def v cut_int_def Let_def)
qed

text \<open>
  Filling in defaults twice is the same as once: the second pass changes no field
  and reports the same missing parameters, even where a default is the zero value or
  cannot be parsed.
\<close>

theorem defaults_idempotent:
  assumes "DefaultsAndRequired parseFloat fracNs cfg = Some (err, cfg')"
  shows "DefaultsAndRequired parseFloat fracNs cfg' = Some (err, cfg')"
proof -
  from assms obtain reqs where r: "defsAndReqs parseFloat fracNs cfg = Some (reqs, cfg')"
    by (auto simp: DefaultsAndRequired_def split: option.splits)
  from defsAndReqs_again [OF r] r assms show ?thesis by (simp add: DefaultsAndRequired_def)
qed

theorem defaults_idempotent_witness:
  "\<exists>err cfg'. DefaultsAndRequired (\<lambda>_. None) (\<lambda>_ _ _. 0) sample_conf = Some (err, cfg') \<and>
     DefaultsAndRequired (\<lambda>_. None) (\<lambda>_ _ _. 0) cfg' = Some (err, cfg')"
proof -
  obtain err cfg' where eq: "DefaultsAndRequired (\<lambda>_. None) (\<lambda>_ _ _. 0) sample_conf = Some (err, cfg')"
    by (simp add: sample_conf_def DefaultsAndRequired_def defsAndReqs.simps(2) set_default_eq split: prod.splits)
  from defaults_idempotent [OF eq] eq show ?thesis by blast
qed

end
