(* ===== verification/AppConfig.thy ===== *)
theory AppConfig
  imports Conftool
begin

text \<open>
  The configuration reader of the application (src/app/config\_reader.go) and the
  registration of services (src/app/app.go).  A value of type \<open>any\<close> is seen through
  \<open>reflect\<close>: a struct with its type name and fields, or a pointer.  The YAML parser
  and the decoding of a YAML node into a struct are arguments.  Services are registered
  with distinct configuration objects.
\<close>

type_synonym fieldvals = "(fmeta \<times> gval) list"

datatype anyval = ANil | ANilPtr | AScalar string | AStruct string fieldvals | APtr anyval

fun deref :: "anyval \<Rightarrow> anyval" where
  "deref (APtr v) = v"
| "deref ANilPtr = ANil"
| "deref v = v"

fun is_pointer :: "anyval \<Rightarrow> bool" where
  "is_pointer (APtr v) = True"
| "is_pointer ANilPtr = True"
| "is_pointer v = False"

record 'f registeredService =
  rs_Name :: string
  rs_Config :: anyval
  rs_Factory :: 'f

record 'f application =
  serviceDefs :: "string \<rightharpoonup> 'f registeredService"
  app_cfg :: anyval
  cfgPath :: string

subsection \<open>Registration\<close>

definition is_letter :: "char \<Rightarrow> bool" where
  "is_letter c \<longleftrightarrow> (CHR ''a'' \<le> c \<and> c \<le> CHR ''z'') \<or> (CHR ''A'' \<le> c \<and> c \<le> CHR ''Z'')"

text \<open>\<open>MatchString\<close> of the pattern \<open>[a-zA-Z][a-zA-Z_]*\<close>: a match at some position.\<close>

definition reName_prefix :: "string \<Rightarrow> nat option" where
  "reName_prefix s = (case s of
      [] \<Rightarrow> None
    | c # t \<Rightarrow> if is_letter c then Some (Suc (length (takeWhile (\<lambda>d. is_letter d \<or> d = CHR ''_'') t))) else None)"

fun reName_match :: "string \<Rightarrow> bool" where
  "reName_match [] = False"
| "reName_match (c # s) = (reName_prefix (c # s) \<noteq> None \<or> reName_match s)"

definition errInvalidServiceName :: string where
  "errInvalidServiceName = ''service name must match the unquoted yaml key format (e.g. [a-zA-Z_]+)''"

text \<open>\<open>Crashes\<close> is the panic of asking the type of a nil interface.\<close>

definition RegisterService :: "'f application \<Rightarrow> string \<Rightarrow> anyval \<Rightarrow> 'f \<Rightarrow> (string option \<times> 'f application) run" where
  "RegisterService a name cfg factory =
     (if \<not> reName_match name then Ends (Some errInvalidServiceName, a)
      else if cfg = ANil then Crashes
      else let vcfg = (if \<not> is_pointer cfg then APtr cfg else cfg)
        in Ends (None, a\<lparr>serviceDefs := (serviceDefs a)(name \<mapsto> \<lparr>rs_Name = name, rs_Config = vcfg, rs_Factory = factory\<rparr>)\<rparr>))"

subsection \<open>Structs\<close>

definition yamlTag :: "fmeta \<Rightarrow> string" where
  "yamlTag f = (let tag = (case Lookup f ''yaml'' of None \<Rightarrow> '''' | Some t \<Rightarrow> t)
     in if tag = '''' then '''' else hd (split_char CHR '','' tag))"

definition errCopyMustBeStruct :: string where
  "errCopyMustBeStruct = ''copySameType: both must be struct or pointer to struct''"

fun copy_fields :: "fieldvals \<Rightarrow> fieldvals \<Rightarrow> fieldvals" where
  "copy_fields ((m, dv) # ds) ((_, sv) # ss) = (m, if exported m then sv else dv) # copy_fields ds ss"
| "copy_fields ds _ = ds"

text \<open>
  \<open>copySameType\<close> with the destination as it is afterwards.  Only the fields of a
  destination behind a pointer can be set.
\<close>

definition copySameType :: "anyval \<Rightarrow> anyval \<Rightarrow> string option \<times> anyval" where
  "copySameType dst src = (case (deref dst, deref src) of
      (AStruct dt ds, AStruct st ss) \<Rightarrow>
        if dt \<noteq> st then (Some (''copySameType: type mismatch ('' @ dt @ '' vs '' @ st @ '')''), dst)
        else (None, if is_pointer dst then APtr (AStruct dt (copy_fields ds ss)) else dst)
    | _ \<Rightarrow> (Some errCopyMustBeStruct, dst))"

text \<open>\<open>DefaultsAndRequired\<close> on a value of type \<open>any\<close>: a pointer to a struct, or a panic.\<close>

definition defaults_any :: "(string \<Rightarrow> real option) \<Rightarrow> (int \<Rightarrow> int \<Rightarrow> int \<Rightarrow> int) \<Rightarrow> anyval \<Rightarrow> (string option \<times> anyval) run" where
  "defaults_any parseFloat fracNs v = (case v of
      APtr (AStruct t fs) \<Rightarrow> (case DefaultsAndRequired parseFloat fracNs fs of
          None \<Rightarrow> Crashes
        | Some (err, fs') \<Rightarrow> Ends (err, APtr (AStruct t fs')))
    | _ \<Rightarrow> Crashes)"

subsection \<open>Configuration from a struct\<close>

definition set_service_config :: "'f application \<Rightarrow> string \<Rightarrow> anyval \<Rightarrow> 'f application" where
  "set_service_config a name v = (case serviceDefs a name of
      None \<Rightarrow> a
    | Some reg \<Rightarrow> a\<lparr>serviceDefs := (serviceDefs a)(name \<mapsto> reg\<lparr>rs_Config := v\<rparr>)\<rparr>)"

text \<open>
  One field of the source struct, for key \<open>app\<close> or a registered service: copy, then
  defaults, with the texts of the two errors.
\<close>

definition copy_section :: "(string \<Rightarrow> real option) \<Rightarrow> (int \<Rightarrow> int \<Rightarrow> int \<Rightarrow> int) \<Rightarrow> anyval \<Rightarrow> anyval \<Rightarrow> string \<Rightarrow>
    (string option \<times> anyval) run" where
  "copy_section parseFloat fracNs dst src section = (case copySameType dst src of
      (Some e, v) \<Rightarrow> Ends (Some (''copy app config: '' @ e), v)
    | (None, v) \<Rightarrow> (case defaults_any parseFloat fracNs v of
        Ends (Some e, v') \<Rightarrow> Ends (Some (''required field not set in '' @ section @ '' section: '' @ e), v')
      | other \<Rightarrow> other))"

fun apply_sections :: "(string \<Rightarrow> real option) \<Rightarrow> (int \<Rightarrow> int \<Rightarrow> int \<Rightarrow> int) \<Rightarrow> 'f application \<Rightarrow> (fmeta \<times> anyval) list \<Rightarrow>
    (string option \<times> 'f application) run" where
  "apply_sections parseFloat fracNs a [] = Ends (None, a)"
| "apply_sections parseFloat fracNs a ((m, fv) # rest) =
     (let yamlKey = yamlTag m
      in if yamlKey = '''' \<or> \<not> exported m then apply_sections parseFloat fracNs a rest
         else if yamlKey = ''app'' then
           (case copy_section parseFloat fracNs (app_cfg a) fv ''app'' of
              Ends (Some e, v) \<Rightarrow> Ends (Some e, a\<lparr>app_cfg := v\<rparr>)
            | Ends (None, v) \<Rightarrow> apply_sections parseFloat fracNs (a\<lparr>app_cfg := v\<rparr>) rest
            | Crashes \<Rightarrow> Crashes
            | Diverges \<Rightarrow> Diverges)
         else (case serviceDefs a yamlKey of
             None \<Rightarrow> apply_sections parseFloat fracNs a rest
           | Some service \<Rightarrow>
               (case copy_section parseFloat fracNs (rs_Config service) fv (rs_Name service) of
                  Ends (Some e, v) \<Rightarrow> Ends (Some e, set_service_config a yamlKey v)
                | Ends (None, v) \<Rightarrow> apply_sections parseFloat fracNs (set_service_config a yamlKey v) rest
                | Crashes \<Rightarrow> Crashes
                | Diverges \<Rightarrow> Diverges)))"

text \<open>
  The source is a struct of sections, possibly behind a pointer; \<open>None\<close> is any other
  value.
\<close>

definition applyConfigStruct :: "(string \<Rightarrow> real option) \<Rightarrow> (int \<Rightarrow> int \<Rightarrow> int \<Rightarrow> int) \<Rightarrow> 'f application \<Rightarrow>
    (fmeta \<times> anyval) list option \<Rightarrow> (string option \<times> 'f application) run" where
  "applyConfigStruct parseFloat fracNs a src = (case src of
      None \<Rightarrow> Ends (Some ''config must be a struct or pointer to struct'', a)
    | Some sections \<Rightarrow> apply_sections parseFloat fracNs a sections)"

text \<open>\<open>Inl\<close> is \<open>syslog.Fatalf\<close>, which ends the process.\<close>

definition readConfigStruct :: "(string \<Rightarrow> real option) \<Rightarrow> (int \<Rightarrow> int \<Rightarrow> int \<Rightarrow> int) \<Rightarrow> (string + string) \<Rightarrow> 'f application \<Rightarrow>
    (fmeta \<times> anyval) list option \<Rightarrow> (string + 'f application) run" where
  "readConfigStruct parseFloat fracNs getwd a src = (case getwd of
      Inl e \<Rightarrow> Ends (Inl (''get current dir: '' @ e))
    | Inr pwd \<Rightarrow> (case applyConfigStruct parseFloat fracNs (a\<lparr>cfgPath := pwd\<rparr>) src of
        Ends (Some e, _) \<Rightarrow> Ends (Inl (''read config data: '' @ e))
      | Ends (None, a') \<Rightarrow> Ends (Inr a')
      | Crashes \<Rightarrow> Crashes
      | Diverges \<Rightarrow> Diverges))"

subsection \<open>Configuration from a file\<close>

datatype ynode = YNode (Value: string) (Content: "ynode list")

text \<open>The key and value nodes of a mapping; \<open>None\<close> is the panic on an odd number of them.\<close>

fun root_nodes :: "ynode list \<Rightarrow> (string \<rightharpoonup> ynode) \<Rightarrow> (string \<rightharpoonup> ynode) option" where
  "root_nodes [] m = Some m"
| "root_nodes [k] m = None"
| "root_nodes (k # v # rest) m = root_nodes rest (m(Value k \<mapsto> v))"

fun decode_services :: "(ynode \<Rightarrow> anyval \<Rightarrow> string option \<times> anyval) \<Rightarrow> (string \<rightharpoonup> ynode) \<Rightarrow> 'f application \<Rightarrow> string list \<Rightarrow>
    string option \<times> 'f application" where
  "decode_services decode rootNodes a [] = (None, a)"
| "decode_services decode rootNodes a (name # ns) = (case (rootNodes name, serviceDefs a name) of
     (Some node, Some service) \<Rightarrow> (case decode node (rs_Config service) of
         (Some e, v) \<Rightarrow> (Some (''decode '' @ name @ '': '' @ e), set_service_config a name v)
       | (None, v) \<Rightarrow> decode_services decode rootNodes (set_service_config a name v) ns)
   | _ \<Rightarrow> decode_services decode rootNodes a ns)"

fun default_services :: "(string \<Rightarrow> real option) \<Rightarrow> (int \<Rightarrow> int \<Rightarrow> int \<Rightarrow> int) \<Rightarrow> 'f application \<Rightarrow> string list \<Rightarrow>
    (string option \<times> 'f application) run" where
  "default_services parseFloat fracNs a [] = Ends (None, a)"
| "default_services parseFloat fracNs a (name # ns) = (case serviceDefs a name of
     None \<Rightarrow> default_services parseFloat fracNs a ns
   | Some service \<Rightarrow> (case defaults_any parseFloat fracNs (rs_Config service) of
       Ends (Some e, v) \<Rightarrow> Ends (Some (name @ '' config: missing required value: '' @ e), set_service_config a name v)
     | Ends (None, v) \<Rightarrow> default_services parseFloat fracNs (set_service_config a name v) ns
     | Crashes \<Rightarrow> Crashes
     | Diverges \<Rightarrow> Diverges))"

definition errEmptyConfig :: string where
  "errEmptyConfig = ''config is empty or invalid YAML document''"

text \<open>
  \<open>parseYAML\<close> gives the content of the document node.  The two loops over the
  services visit the map in the orders \<open>iter1\<close> and \<open>iter2\<close>.
\<close>

definition readConfigData ::
  "(string \<Rightarrow> string + ynode list) \<Rightarrow> (ynode \<Rightarrow> anyval \<Rightarrow> string option \<times> anyval) \<Rightarrow> (string \<Rightarrow> real option) \<Rightarrow>
   (int \<Rightarrow> int \<Rightarrow> int \<Rightarrow> int) \<Rightarrow> (string, 'f registeredService) map_order \<Rightarrow> (string, 'f registeredService) map_order \<Rightarrow>
   'f application \<Rightarrow> string \<Rightarrow> (string option \<times> 'f application) run" where
  "readConfigData parseYAML decode parseFloat fracNs iter1 iter2 a data = (case parseYAML data of
      Inl e \<Rightarrow> Ends (Some e, a)
    | Inr [] \<Rightarrow> Ends (Some errEmptyConfig, a)
    | Inr (mapping # _) \<Rightarrow> (case root_nodes (Content mapping) Map.empty of
        None \<Rightarrow> Crashes
      | Some rootNodes \<Rightarrow>
          (case (case rootNodes ''app'' of None \<Rightarrow> (None, app_cfg a) | Some node \<Rightarrow> decode node (app_cfg a)) of
             (Some e, v) \<Rightarrow> Ends (Some (''app config: '' @ e), a\<lparr>app_cfg := v\<rparr>)
           | (None, v) \<Rightarrow> (case defaults_any parseFloat fracNs v of
               Crashes \<Rightarrow> Crashes
             | Diverges \<Rightarrow> Diverges
             | Ends (Some e, v') \<Rightarrow> Ends (Some (''app config: missing required value: '' @ e), a\<lparr>app_cfg := v'\<rparr>)
             | Ends (None, v') \<Rightarrow>
                 (let a1 = a\<lparr>app_cfg := v'\<rparr>
                  in case decode_services decode rootNodes a1 (iter1 (serviceDefs a1)) of
                       (Some e, a2) \<Rightarrow> Ends (Some e, a2)
                     | (None, a2) \<Rightarrow> default_services parseFloat fracNs a2 (iter2 (serviceDefs a2)))))))"

text \<open>What \<open>printConfig\<close> encodes: one entry per name.\<close>

definition printConfig :: "(string, 'f registeredService) map_order \<Rightarrow> 'f application \<Rightarrow> (string \<rightharpoonup> anyval)" where
  "printConfig iter a = fold (\<lambda>i m. case serviceDefs a i of None \<Rightarrow> m | Some reg \<Rightarrow> m(rs_Name reg \<mapsto> rs_Config reg))
     (iter (serviceDefs a)) [''app'' \<mapsto> app_cfg a]"

text \<open>
  \<open>readConfigFile\<close> with the value of the flag \<open>config-file\<close>; the result carries what
  was printed.  The flag \<open>print-config\<close> is only compared with nil, and the pointer
  that the \<open>flag\<close> package returns is never nil.
\<close>

definition readConfigFile ::
  "(string \<Rightarrow> string + ynode list) \<Rightarrow> (ynode \<Rightarrow> anyval \<Rightarrow> string option \<times> anyval) \<Rightarrow> (string \<Rightarrow> real option) \<Rightarrow>
   (int \<Rightarrow> int \<Rightarrow> int \<Rightarrow> int) \<Rightarrow> (string \<Rightarrow> string) \<Rightarrow> (string, 'f registeredService) map_order \<Rightarrow> (string, 'f registeredService) map_order \<Rightarrow>
   (string, 'f registeredService) map_order \<Rightarrow> fs \<Rightarrow> string \<Rightarrow> string \<Rightarrow> string \<Rightarrow> 'f application \<Rightarrow>
   (string + ('f application \<times> (string \<rightharpoonup> anyval))) run" where
  "readConfigFile parseYAML decode parseFloat fracNs getenv iter1 iter2 iter3 f arg0 pstr doPrint a =
     (if pstr = '''' then Ends (Inl (''Usage: '' @ arg0 @ '' --config-file=/path/to/config.yaml''))
      else let a1 = a\<lparr>cfgPath := Dir pstr\<rparr>; fullname = Abs_path (cwd f) pstr
        in case Read f fullname of
             Inl e \<Rightarrow> Ends (Inl ''read config'')
           | Inr raw \<Rightarrow> (case ParseEnvVars getenv raw of
               None \<Rightarrow> Diverges
             | Some data \<Rightarrow> (case readConfigData parseYAML decode parseFloat fracNs iter1 iter2 a1 data of
                 Crashes \<Rightarrow> Crashes
               | Diverges \<Rightarrow> Diverges
               | Ends (Some e, _) \<Rightarrow> Ends (Inl (''read config data: '' @ e))
               | Ends (None, a2) \<Rightarrow> Ends (Inr (a2, printConfig iter3 a2)))))"

subsection \<open>Completeness\<close>

definition complete :: "anyval \<Rightarrow> bool" where
  "complete v \<longleftrightarrow> (case v of APtr (AStruct t fs) \<Rightarrow> list_all (\<lambda>(n, m, x). \<not> missing m x) (leaves fs) | _ \<Rightarrow> False)"

definition complete_at :: "'f application \<Rightarrow> string \<Rightarrow> bool" where
  "complete_at a n \<longleftrightarrow> (\<exists>reg. serviceDefs a n = Some reg \<and> complete (rs_Config reg))"

lemma defaults_any_complete: "defaults_any parseFloat fracNs v = Ends (None, v') \<Longrightarrow> complete v'"
proof -
  assume "defaults_any parseFloat fracNs v = Ends (None, v')"
  then obtain t fs fs' where d: "DefaultsAndRequired parseFloat fracNs fs = Some (None, fs')" and v': "v' = APtr (AStruct t fs')"
    by (auto simp: defaults_any_def split: anyval.splits option.splits)
  from d obtain reqs where r: "defsAndReqs parseFloat fracNs fs = Some (reqs, fs')" and "reqs = []"
    by (auto simp: DefaultsAndRequired_def split: option.splits if_splits)
  with defsAndReqs_leaves [OF defsAndReqs_again [OF r]] show ?thesis
    by (auto simp: v' complete_def list_all_iff filter_empty_conv)
qed

lemma set_service_config_at:
  "serviceDefs (set_service_config a n v) = (serviceDefs a)(n := map_option (\<lambda>reg. reg\<lparr>rs_Config := v\<rparr>) (serviceDefs a n))"
  by (auto simp: set_service_config_def split: option.splits)

lemma set_service_config_frame [simp]:
  "app_cfg (set_service_config a n v) = app_cfg a" "dom (serviceDefs (set_service_config a n v)) = dom (serviceDefs a)"
  by (auto simp: set_service_config_def split: option.splits)

text \<open>Reading a configuration changes no registration but its configuration value.\<close>

definition registrations :: "'f application \<Rightarrow> string \<Rightarrow> (string \<times> 'f) option" where
  "registrations a n = map_option (\<lambda>reg. (rs_Name reg, rs_Factory reg)) (serviceDefs a n)"

lemma registrations_simps [simp]:
  "registrations (set_service_config a n v) = registrations a" "registrations (app_cfg_update f a) = registrations a"
  "registrations (cfgPath_update g a) = registrations a"
  by (auto simp: registrations_def set_service_config_at option.map_comp comp_def)

lemma decode_services_registrations: "decode_services decode rn a ns = (e, a') \<Longrightarrow> registrations a' = registrations a"
  by (induction ns arbitrary: a) (auto split: option.splits prod.splits)

lemma default_services_registrations: "default_services pf fr a ns = Ends (e, a') \<Longrightarrow> registrations a' = registrations a"
  by (induction ns arbitrary: a) (auto split: option.splits run.splits)

lemma readConfigData_registrations: "readConfigData py dec pf fr i1 i2 a dat = Ends (e, a') \<Longrightarrow> registrations a' = registrations a"
  by (auto simp: readConfigData_def Let_def split: sum.splits list.splits option.splits prod.splits run.splits)
    (metis decode_services_registrations default_services_registrations registrations_simps(2))+

lemma readConfigFile_registrations:
  "readConfigFile py dec pf fr ge i1 i2 i3 f a0 ps dp a = Ends (Inr (a', pr)) \<Longrightarrow> registrations a' = registrations a"
  by (auto simp: readConfigFile_def Let_def split: if_splits sum.splits option.splits run.splits prod.splits)
    (metis readConfigData_registrations registrations_simps(3))

lemma decode_services_frame:
  "decode_services decode rn a ns = (e, a') \<Longrightarrow> app_cfg a' = app_cfg a \<and> dom (serviceDefs a') = dom (serviceDefs a)"
proof (induction ns arbitrary: a)
  case Nil
  then show ?case by simp
next
  case (Cons n ns)
  consider "decode_services decode rn a ns = (e, a')"
    | v where "decode_services decode rn (set_service_config a n v) ns = (e, a')"
    | v where "a' = set_service_config a n v"
    using Cons.prems by (auto split: option.splits prod.splits)
  then show ?case using Cons.IH by cases (fastforce, metis set_service_config_frame, simp)
qed

lemma default_services_complete:
  "default_services parseFloat fracNs a ns = Ends (None, a') \<Longrightarrow>
     app_cfg a' = app_cfg a \<and> dom (serviceDefs a') = dom (serviceDefs a) \<and>
     (\<forall>n\<in>dom (serviceDefs a). n \<in> set ns \<or> complete_at a n \<longrightarrow> complete_at a' n)"
proof (induction ns arbitrary: a)
  case Nil
  then show ?case by simp
next
  case (Cons k ns)
  show ?case
  proof (cases "serviceDefs a k")
    case None
    with Cons.prems Cons.IH [of a] show ?thesis by (auto simp: complete_at_def)
  next
    case (Some reg)
    with Cons.prems obtain v where v: "defaults_any parseFloat fracNs (rs_Config reg) = Ends (None, v)"
      and rest: "default_services parseFloat fracNs (set_service_config a k v) ns = Ends (None, a')"
      by (auto split: run.splits option.splits)
    let ?a = "set_service_config a k v"
    have now: "complete_at ?a k"
      using Some defaults_any_complete [OF v] by (simp add: complete_at_def set_service_config_at)
    have other: "complete_at ?a n" if "complete_at a n" for n
      using that now by (cases "n = k") (auto simp: complete_at_def set_service_config_at)
    from Cons.IH [OF rest] have fr: "app_cfg a' = app_cfg a" "dom (serviceDefs a') = dom (serviceDefs a)"
      and all: "\<And>n. n \<in> dom (serviceDefs a) \<Longrightarrow> n \<in> set ns \<or> complete_at ?a n \<Longrightarrow> complete_at a' n"
      by (simp_all, blast)
    have "complete_at a' n" if "n \<in> dom (serviceDefs a)" "n \<in> set (k # ns) \<or> complete_at a n" for n
      using that now other [of n] by (intro all) auto
    with fr show ?thesis by blast
  qed
qed

lemma reName_match_iff: "reName_match s \<longleftrightarrow> list_ex is_letter s"
  by (induction s) (auto simp: reName_prefix_def)

lemma apply_sections_absent:
  "apply_sections parseFloat fracNs a secs = Ends (e, a') \<Longrightarrow>
   \<forall>(m, v)\<in>set secs. exported m \<longrightarrow> yamlTag m \<noteq> name \<Longrightarrow> serviceDefs a' name = serviceDefs a name"
proof (induction secs arbitrary: a)
  case Nil
  then show ?case by simp
next
  case (Cons sec secs)
  obtain m fv where sec: "sec = (m, fv)" by fastforce
  let ?k = "yamlTag m"
  have IH: "serviceDefs a' name = serviceDefs b name" if "apply_sections parseFloat fracNs b secs = Ends (e, a')" for b
    using Cons.IH [OF that] Cons.prems(2) by simp
  consider (go) "apply_sections parseFloat fracNs a secs = Ends (e, a')"
    | (cfg) v where "a' = a\<lparr>app_cfg := v\<rparr>"
    | (cfg_go) v where "apply_sections parseFloat fracNs (a\<lparr>app_cfg := v\<rparr>) secs = Ends (e, a')"
    | (svc) v where "?k \<noteq> name" "a' = set_service_config a ?k v"
    | (svc_go) v where "?k \<noteq> name" "apply_sections parseFloat fracNs (set_service_config a ?k v) secs = Ends (e, a')"
    using Cons.prems unfolding sec by (auto simp: Let_def split: if_splits option.splits run.splits prod.splits)
  then show ?case
  proof cases
    case go
    then show ?thesis by (rule IH)
  next
    case cfg
    then show ?thesis by simp
  next
    case cfg_go
    from IH [OF this] show ?thesis by simp
  next
    case svc
    then show ?thesis by (simp add: set_service_config_at)
  next
    case svc_go
    from IH [OF this(2)] svc_go(1) show ?thesis by (simp add: set_service_config_at)
  qed
qed

subsection \<open>Properties\<close>

text \<open>
  When the configuration was read from a file without an error, no required
  parameter is missing, neither in the application's own section nor in the section of
  any registered service, whether or not the file has that section and in whatever order
  the services are visited.
\<close>

theorem file_config_is_complete:
  assumes "readConfigData parseYAML decode parseFloat fracNs iter1 iter2 a data = Ends (None, a')"
    and "\<And>m. dom m = dom (serviceDefs a) \<Longrightarrow> orders iter2 m"
  shows "complete (app_cfg a') \<and> dom (serviceDefs a') = dom (serviceDefs a) \<and>
    (\<forall>n\<in>dom (serviceDefs a). complete_at a' n)"
proof -
  from assms(1) obtain rn v v' a2 where d: "defaults_any parseFloat fracNs v = Ends (None, v')"
    and dec: "decode_services decode rn (a\<lparr>app_cfg := v'\<rparr>) (iter1 (serviceDefs a)) = (None, a2)"
    and fin: "default_services parseFloat fracNs a2 (iter2 (serviceDefs a2)) = Ends (None, a')"
    by (auto simp: readConfigData_def Let_def split: sum.splits list.splits option.splits prod.splits run.splits)
  from decode_services_frame [OF dec] have f: "app_cfg a2 = v'" "dom (serviceDefs a2) = dom (serviceDefs a)" by auto
  from assms(2) [OF f(2)] have "set (iter2 (serviceDefs a2)) = dom (serviceDefs a)" by (simp add: orders_def f(2))
  with default_services_complete [OF fin] defaults_any_complete [OF d] f show ?thesis by simp
qed

definition sample_app :: "unit application" where
  "sample_app = \<lparr>serviceDefs = [''db'' \<mapsto> \<lparr>rs_Name = ''db'', rs_Config = APtr (AStruct ''dbConfig''
        [(\<lparr>Name = ''Host'', exported = True, Tag = [(''required'', ''true'')]\<rparr>, VString '''')]), rs_Factory = ()\<rparr>],
     app_cfg = APtr (AStruct ''app.Config'' [(\<lparr>Name = ''LogLevel'', exported = True, Tag = [(''default'', ''info'')]\<rparr>, VString '''')]),
     cfgPath = ''''\<rparr>"

definition sample_decode :: "ynode \<Rightarrow> anyval \<Rightarrow> string option \<times> anyval" where
  "sample_decode n v = (None, APtr (AStruct ''dbConfig''
     [(\<lparr>Name = ''Host'', exported = True, Tag = [(''required'', ''true'')]\<rparr>, VString (Value n))]))"

theorem file_config_is_complete_witness:
  "\<exists>a'. readConfigData (\<lambda>_. Inr [YNode '''' [YNode ''db'' [], YNode ''localhost'' []]]) sample_decode
      (\<lambda>_. None) (\<lambda>_ _ _. 0) (\<lambda>_. [''db'']) (\<lambda>_. [''db'']) sample_app ''db: localhost'' = Ends (None, a') \<and>
    complete (app_cfg a') \<and> complete_at a' ''db''"
proof -
  obtain a' where eq: "readConfigData (\<lambda>_. Inr [YNode '''' [YNode ''db'' [], YNode ''localhost'' []]]) sample_decode
      (\<lambda>_. None) (\<lambda>_ _ _. 0) (\<lambda>_. [''db'']) (\<lambda>_. [''db'']) sample_app ''db: localhost'' = Ends (None, a')"
    by (simp add: readConfigData_def sample_app_def sample_decode_def defaults_any_def DefaultsAndRequired_def
        defsAndReqs.simps(2) set_default_eq missing_def Lookup_def set_service_config_def Let_def)
  have "orders (\<lambda>_. [''db'']) m" if "dom m = dom (serviceDefs sample_app)" for m :: "string \<rightharpoonup> unit registeredService"
    using that by (simp add: orders_def sample_app_def)
  from file_config_is_complete [OF eq this] eq show ?thesis by (auto simp: sample_app_def)
qed

text \<open>
  Reading the configuration from a struct looks only at the sections the struct
  has.  A registered service whose name is not the YAML key of an exported field keeps its
  configuration as it was registered: no defaults are filled in and no required parameter
  is reported for it, unlike when the file is read.
\<close>

theorem struct_config_skips_absent_sections:
  assumes "applyConfigStruct parseFloat fracNs a (Some sections) = Ends (err, a')"
    and "\<forall>(m, v)\<in>set sections. exported m \<longrightarrow> yamlTag m \<noteq> name"
  shows "serviceDefs a' name = serviceDefs a name"
  using apply_sections_absent [OF _ assms(2)] assms(1) by (simp add: applyConfigStruct_def)

theorem struct_config_skips_absent_sections_witness:
  "\<exists>a'. applyConfigStruct (\<lambda>_. None) (\<lambda>_ _ _. 0) sample_app (Some [(\<lparr>Name = ''App'', exported = True, Tag = [(''yaml'', ''app'')]\<rparr>,
      AStruct ''app.Config'' [(\<lparr>Name = ''LogLevel'', exported = True, Tag = [(''default'', ''info'')]\<rparr>, VString ''warn'')])])
      = Ends (None, a') \<and> serviceDefs a' ''db'' = serviceDefs sample_app ''db'' \<and> \<not> complete_at a' ''db''"
proof -
  let ?secs = "[(\<lparr>Name = ''App'', exported = True, Tag = [(''yaml'', ''app'')]\<rparr>,
      AStruct ''app.Config'' [(\<lparr>Name = ''LogLevel'', exported = True, Tag = [(''default'', ''info'')]\<rparr>, VString ''warn'')])]"
  have tag: "yamlTag \<lparr>Name = ''App'', exported = True, Tag = [(''yaml'', ''app'')]\<rparr> = ''app''"
    by (simp add: yamlTag_def Lookup_def Let_def)
  obtain a' where eq: "applyConfigStruct (\<lambda>_. None) (\<lambda>_ _ _. 0) sample_app (Some ?secs) = Ends (None, a')"
    by (simp add: applyConfigStruct_def tag copy_section_def copySameType_def sample_app_def defaults_any_def
        DefaultsAndRequired_def defsAndReqs.simps(2) set_default_eq missing_def Let_def)
  have "serviceDefs a' ''db'' = serviceDefs sample_app ''db''"
    by (rule struct_config_skips_absent_sections [OF eq]) (simp add: tag)
  then show ?thesis
    using eq by (simp add: complete_at_def sample_app_def complete_def leaves.simps(2) missing_def Lookup_def)
qed

text \<open>
  \<open>RegisterService\<close> refuses exactly the names that contain no ASCII letter at all;
  every other name is accepted, whatever else it contains, and the service is then
  registered under it.  The error text demands more than is checked.
\<close>

theorem RegisterService_checks_one_letter:
  assumes "cfg \<noteq> ANil"
  shows "if list_ex is_letter name
    then \<exists>a' reg. RegisterService a name cfg factory = Ends (None, a') \<and> serviceDefs a' name = Some reg \<and>
      rs_Factory reg = factory \<and> is_pointer (rs_Config reg) \<and> deref (rs_Config reg) = (if is_pointer cfg then deref cfg else cfg)
    else RegisterService a name cfg factory = Ends (Some errInvalidServiceName, a)"
  using assms by (auto simp: RegisterService_def reName_match_iff Let_def)

theorem RegisterService_checks_one_letter_witness:
  "\<exists>a' reg. RegisterService sample_app ''1: {x}'' (AStruct ''T'' []) () = Ends (None, a') \<and> serviceDefs a' ''1: {x}'' = Some reg"
proof -
  have "list_ex is_letter ''1: {x}''" by code_simp
  with RegisterService_checks_one_letter [of "AStruct ''T'' []" "''1: {x}''" sample_app "()"] show ?thesis by auto
qed

end
