(* ===== verification/ConfigSchema.thy ===== *)
theory ConfigSchema
  imports AppConfig Server
begin

text \<open>
  The configuration of the application with its tags: \<open>Config\<close> of src/app/config.go with
  \<open>httpserver.Config\<close> (src/httpserver/config.go), \<open>metrics.Config\<close> (src/metrics/metrics.go)
  and \<open>sentry.Config\<close> (src/sentry/sentry.go).  The structs are given as reflection sees
  them, with the tags that the reader looks at (\<open>yaml\<close>, \<open>default\<close>, \<open>required\<close>); the fields
  are read back by their dotted names.
\<close>

subsection \<open>The structs with their tags\<close>

definition field :: "string \<Rightarrow> (string \<times> string) list \<Rightarrow> fmeta" where
  "field n tags = \<lparr>Name = n, exported = True, Tag = tags\<rparr>"

definition metrics_fields :: fieldvals where
  "metrics_fields =
     [(field ''Namespace'' [(''yaml'', ''namespace''), (''required'', ''true'')], VString ''''),
      (field ''Buckets'' [(''yaml'', ''buckets'')], VSlice None)]"

definition http_fields :: fieldvals where
  "http_fields =
     [(field ''Port'' [(''yaml'', ''port''), (''default'', ''8080'')], VInt 64 0),
      (field ''StatsPort'' [(''yaml'', ''statsPort''), (''default'', ''8081'')], VInt 64 0),
      (field ''UseTLS'' [(''yaml'', ''useTLS'')], VBool False),
      (field ''TLSCert'' [(''yaml'', ''tlsCert'')], VString ''''),
      (field ''TLSKey'' [(''yaml'', ''tlsKey'')], VString ''''),
      (field ''TLSCA'' [(''yaml'', ''tlsCA'')], VString ''''),
      (field ''TLSUseClientCert'' [(''yaml'', ''tlsUseClientCert'')], VBool False),
      (field ''TLSClientCA'' [(''yaml'', ''tlsClientCA'')], VString ''''),
      (field ''CORS'' [(''yaml'', ''cors'')], VBool False),
      (field ''Domain'' [(''yaml'', ''domain'')], VString ''''),
      (field ''Token'' [(''yaml'', ''token'')], VString ''''),
      (field ''RateLimit'' [(''yaml'', ''rateLimit''), (''default'', ''10000'')], VFloat 0),
      (field ''OpenConnLimit'' [(''yaml'', ''openConnLimit''), (''default'', ''1000'')], VInt 64 0),
      (field ''ReadTimeout'' [(''yaml'', ''readTimeout''), (''default'', ''5m'')], VInt 64 0),
      (field ''ShutdownTimeout'' [(''yaml'', ''shutdownTimeout''), (''default'', ''2s'')], VInt 64 0),
      (field ''Metrics'' [(''yaml'', ''metrics'')], VStruct metrics_fields)]"

definition sentry_fields :: fieldvals where
  "sentry_fields = [(field ''DSN'' [], VString '''')]"

definition app_fields :: fieldvals where
  "app_fields =
     [(field ''HTTP'' [(''yaml'', ''http'')], VStruct http_fields),
      (field ''Sentry'' [(''yaml'', ''sentry'')], VStruct sentry_fields),
      (field ''ShutdownDelay'' [(''yaml'', ''shutdownDelay'')], VInt 64 0),
      (field ''LogLevel'' [(''yaml'', ''logLevel''), (''default'', ''info'')], VString ''''),
      (field ''Production'' [(''yaml'', ''production'')], VBool False)]"

text \<open>\<open>&Config{}\<close>\<close>

definition zero_Config :: anyval where
  "zero_Config = APtr (AStruct ''app.Config'' app_fields)"

subsection \<open>Reading the fields\<close>

record AppConfig_view =
  HTTP :: Config
  SentryDSN :: string
  ShutdownDelay :: int
  LogLevel :: string
  Production :: bool

definition entry :: "fieldvals \<Rightarrow> string \<Rightarrow> (fmeta \<times> gval) option" where
  "entry fs n = map_of (leaves fs) n"

definition get_string :: "fieldvals \<Rightarrow> string \<Rightarrow> string" where
  "get_string fs n = (case entry fs n of Some (_, VString s) \<Rightarrow> s | _ \<Rightarrow> '''')"

definition get_int :: "fieldvals \<Rightarrow> string \<Rightarrow> int" where
  "get_int fs n = (case entry fs n of Some (_, VInt _ i) \<Rightarrow> i | _ \<Rightarrow> 0)"

definition get_bool :: "fieldvals \<Rightarrow> string \<Rightarrow> bool" where
  "get_bool fs n = (case entry fs n of Some (_, gval.VBool b) \<Rightarrow> b | _ \<Rightarrow> False)"

definition get_float :: "fieldvals \<Rightarrow> string \<Rightarrow> real" where
  "get_float fs n = (case entry fs n of Some (_, VFloat x) \<Rightarrow> x | _ \<Rightarrow> 0)"

text \<open>Of a slice only the length is known here; \<open>buckets\<close> are its elements.\<close>

definition http_of :: "real list \<Rightarrow> fieldvals \<Rightarrow> Config" where
  "http_of buckets fs =
     \<lparr>Port = get_int fs ''HTTP.Port'', StatsPort = get_int fs ''HTTP.StatsPort'', UseTLS = get_bool fs ''HTTP.UseTLS'',
      TLSCert = get_string fs ''HTTP.TLSCert'', TLSKey = get_string fs ''HTTP.TLSKey'', TLSCA = get_string fs ''HTTP.TLSCA'',
      TLSUseClientCert = get_bool fs ''HTTP.TLSUseClientCert'', TLSClientCA = get_string fs ''HTTP.TLSClientCA'',
      CORS = get_bool fs ''HTTP.CORS'', Domain = get_string fs ''HTTP.Domain'', Token = get_string fs ''HTTP.Token'',
      RateLimit = get_float fs ''HTTP.RateLimit'', OpenConnLimit = get_int fs ''HTTP.OpenConnLimit'',
      ReadTimeout = get_int fs ''HTTP.ReadTimeout'', ShutdownTimeout = get_int fs ''HTTP.ShutdownTimeout'',
      Metrics = \<lparr>Namespace = get_string fs ''HTTP.Metrics.Namespace'', Buckets = buckets\<rparr>\<rparr>"

definition view :: "real list \<Rightarrow> anyval \<Rightarrow> AppConfig_view" where
  "view buckets v = (let fs = (case deref v of AStruct _ fs \<Rightarrow> fs | _ \<Rightarrow> []) in
     \<lparr>HTTP = http_of buckets fs, SentryDSN = get_string fs ''Sentry.DSN'', ShutdownDelay = get_int fs ''ShutdownDelay'',
      LogLevel = get_string fs ''LogLevel'', Production = get_bool fs ''Production''\<rparr>)"

subsection \<open>Types of a configuration\<close>

text \<open>
  The shape of a configuration: the names, tags and kinds of its fields.  Decoding a YAML
  node into a struct changes values only.
\<close>

fun kind :: "gval \<Rightarrow> gtype" where
  "kind (VString _) = TString"
| "kind (VInt w _) = TInt w"
| "kind (VUint w _) = TUint w"
| "kind (VFloat _) = TFloat"
| "kind (gval.VBool _) = TBool"
| "kind (VSlice _) = TSlice"
| "kind (VMap _) = TMap"
| "kind (VPtr _) = TPtr"
| "kind (VStruct _) = TStruct []"

definition shape :: "fieldvals \<Rightarrow> (string \<times> fmeta \<times> gtype) list" where
  "shape fs = map (\<lambda>(n, m, v). (n, m, kind v)) (leaves fs)"

definition keeps_shape :: "(ynode \<Rightarrow> anyval \<Rightarrow> string option \<times> anyval) \<Rightarrow> bool" where
  "keeps_shape decode \<longleftrightarrow> (\<forall>node t fs v'. decode node (APtr (AStruct t fs)) = (None, v') \<longrightarrow>
     (\<exists>fs'. v' = APtr (AStruct t fs') \<and> shape fs' = shape fs))"

lemma map_of_triples: "map_of (map (\<lambda>(n, m, v). (n, f m v)) xs) n = map_option (\<lambda>(m, v). f m v) (map_of xs n)"
  by (induction xs) auto

lemma entry_filled:
  "leaves gs = map (\<lambda>(n, m, v). (n, m, filled pf fr m v)) (leaves fs) \<Longrightarrow>
     entry gs n = map_option (\<lambda>(m, v). (m, filled pf fr m v)) (entry fs n)"
  by (simp add: entry_def map_of_triples)

lemma entry_shape: "shape fs = shape fs' \<Longrightarrow>
    map_option (\<lambda>(m, v). (m, kind v)) (entry fs n) = map_option (\<lambda>(m, v). (m, kind v)) (entry fs' n)"
  unfolding entry_def by (metis map_of_triples shape_def)

lemma kind_elims:
  "kind v = TString \<Longrightarrow> \<exists>s. v = VString s" "kind v = TInt w \<Longrightarrow> \<exists>i. v = VInt w i" "kind v = TFloat \<Longrightarrow> \<exists>x. v = VFloat x"
  by (cases v; simp)+

text \<open>The fields of the application's configuration by their dotted names.\<close>

lemma field_lookup [simp]: "Lookup (field n tags) k = map_of tags k" "exported (field n tags) = True" "Name (field n tags) = n"
  by (simp_all add: field_def Lookup_def)

lemma app_leaves: "leaves app_fields =
   [(''HTTP.Port'', field ''Port'' [(''yaml'', ''port''), (''default'', ''8080'')], VInt 64 0),
    (''HTTP.StatsPort'', field ''StatsPort'' [(''yaml'', ''statsPort''), (''default'', ''8081'')], VInt 64 0),
    (''HTTP.UseTLS'', field ''UseTLS'' [(''yaml'', ''useTLS'')], gval.VBool False),
    (''HTTP.TLSCert'', field ''TLSCert'' [(''yaml'', ''tlsCert'')], VString ''''),
    (''HTTP.TLSKey'', field ''TLSKey'' [(''yaml'', ''tlsKey'')], VString ''''),
    (''HTTP.TLSCA'', field ''TLSCA'' [(''yaml'', ''tlsCA'')], VString ''''),
    (''HTTP.TLSUseClientCert'', field ''TLSUseClientCert'' [(''yaml'', ''tlsUseClientCert'')], gval.VBool False),
    (''HTTP.TLSClientCA'', field ''TLSClientCA'' [(''yaml'', ''tlsClientCA'')], VString ''''),
    (''HTTP.CORS'', field ''CORS'' [(''yaml'', ''cors'')], gval.VBool False),
    (''HTTP.Domain'', field ''Domain'' [(''yaml'', ''domain'')], VString ''''),
    (''HTTP.Token'', field ''Token'' [(''yaml'', ''token'')], VString ''''),
    (''HTTP.RateLimit'', field ''RateLimit'' [(''yaml'', ''rateLimit''), (''default'', ''10000'')], VFloat 0),
    (''HTTP.OpenConnLimit'', field ''OpenConnLimit'' [(''yaml'', ''openConnLimit''), (''default'', ''1000'')], VInt 64 0),
    (''HTTP.ReadTimeout'', field ''ReadTimeout'' [(''yaml'', ''readTimeout''), (''default'', ''5m'')], VInt 64 0),
    (''HTTP.ShutdownTimeout'', field ''ShutdownTimeout'' [(''yaml'', ''shutdownTimeout''), (''default'', ''2s'')], VInt 64 0),
    (''HTTP.Metrics.Namespace'', field ''Namespace'' [(''yaml'', ''namespace''), (''required'', ''true'')], VString ''''),
    (''HTTP.Metrics.Buckets'', field ''Buckets'' [(''yaml'', ''buckets'')], VSlice None),
    (''Sentry.DSN'', field ''DSN'' [], VString ''''),
    (''ShutdownDelay'', field ''ShutdownDelay'' [(''yaml'', ''shutdownDelay'')], VInt 64 0),
    (''LogLevel'', field ''LogLevel'' [(''yaml'', ''logLevel''), (''default'', ''info'')], VString ''''),
    (''Production'', field ''Production'' [(''yaml'', ''production'')], gval.VBool False)]"
  by (simp add: app_fields_def http_fields_def metrics_fields_def sentry_fields_def leaves.simps(2))

lemma view_zero: "view b zero_Config = \<lparr>HTTP = \<lparr>Port = 0, StatsPort = 0, UseTLS = False, TLSCert = '''', TLSKey = '''', TLSCA = '''',
     TLSUseClientCert = False, TLSClientCA = '''', CORS = False, Domain = '''', Token = '''', RateLimit = 0, OpenConnLimit = 0, ReadTimeout = 0,
     ShutdownTimeout = 0, Metrics = \<lparr>Namespace = '''', Buckets = b\<rparr>\<rparr>, SentryDSN = '''', ShutdownDelay = 0, LogLevel = '''', Production = False\<rparr>"
  by (simp add: view_def http_of_def zero_Config_def get_int_def get_string_def get_bool_def get_float_def entry_def app_leaves Let_def)

lemma default_numbers:
  "setField pf fr (VInt 64 0) ''8080'' = VInt 64 8080" "setField pf fr (VInt 64 0) ''8081'' = VInt 64 8081"
  "setField pf fr (VInt 64 0) ''1000'' = VInt 64 1000"
  "setField pf fr (VInt 64 0) ''5m'' = VInt 64 300000000000" "setField pf fr (VInt 64 0) ''2s'' = VInt 64 2000000000"
  by code_simp+

text \<open>What filling in the defaults makes of one field, by the tags and the kind of the field.\<close>

definition orelse :: "'a \<Rightarrow> 'a \<Rightarrow> 'a \<Rightarrow> 'a" where
  "orelse zero d x = (if x = zero then d else x)"

lemma get_plain:
  assumes "shape fs = shape app_fields" and "leaves gs = map (\<lambda>(n, m, v). (n, m, filled pf fr m v)) (leaves fs)"
    and "entry app_fields n = Some (m, z)" and "Lookup m ''default'' = None"
  shows "entry gs n = entry fs n"
  using entry_shape [OF assms(1), of n] entry_filled [OF assms(2), of n] assms(3,4) by (auto simp: filled_def)

lemma get_default:
  assumes "shape fs = shape app_fields" and "leaves gs = map (\<lambda>(n, m, v). (n, m, filled pf fr m v)) (leaves fs)"
  shows "entry app_fields n = Some (m, VInt w 0) \<Longrightarrow> Lookup m ''default'' = Some dv \<Longrightarrow> exported m \<Longrightarrow>
      setField pf fr (VInt w 0) dv = VInt w d \<Longrightarrow> get_int gs n = orelse 0 d (get_int fs n)"
    "entry app_fields n = Some (m, VString '''') \<Longrightarrow> Lookup m ''default'' = Some dv \<Longrightarrow> exported m \<Longrightarrow>
      get_string gs n = orelse '''' dv (get_string fs n)"
    "entry app_fields n = Some (m, VFloat 0) \<Longrightarrow> Lookup m ''default'' = Some dv \<Longrightarrow> exported m \<Longrightarrow>
      pf dv = Some x \<Longrightarrow> get_float gs n = orelse 0 x (get_float fs n)"
  using entry_shape [OF assms(1), of n] entry_filled [OF assms(2), of n]
  by (auto simp: filled_def get_int_def get_string_def get_float_def orelse_def dest!: kind_elims)

text \<open>The configuration with the defaults of its tags.\<close>

definition with_defaults :: "AppConfig_view \<Rightarrow> AppConfig_view" where
  "with_defaults c = c\<lparr>LogLevel := orelse '''' ''info'' (LogLevel c), HTTP := (HTTP c)
     \<lparr>Port := orelse 0 8080 (Port (HTTP c)), StatsPort := orelse 0 8081 (StatsPort (HTTP c)),
      RateLimit := orelse 0 10000 (RateLimit (HTTP c)), OpenConnLimit := orelse 0 1000 (OpenConnLimit (HTTP c)),
      ReadTimeout := orelse 0 300000000000 (ReadTimeout (HTTP c)), ShutdownTimeout := orelse 0 2000000000 (ShutdownTimeout (HTTP c))\<rparr>\<rparr>"

lemma view_filled:
  assumes "shape fs = shape app_fields" and "leaves gs = map (\<lambda>(n, m, v). (n, m, filled pf fr m v)) (leaves fs)" and "pf ''10000'' = Some 10000"
  shows "view b (APtr (AStruct t gs)) = with_defaults (view b (APtr (AStruct t fs)))"
proof -
  have f: "entry app_fields = map_of (leaves app_fields)" by (simp add: entry_def fun_eq_iff)
  note f = f [unfolded app_leaves]
  have p: "entry gs n = entry fs n" if "n \<in> {''HTTP.UseTLS'', ''HTTP.TLSCert'', ''HTTP.TLSKey'', ''HTTP.TLSCA'', ''HTTP.TLSUseClientCert'',
    ''HTTP.TLSClientCA'', ''HTTP.CORS'', ''HTTP.Domain'', ''HTTP.Token'', ''HTTP.Metrics.Namespace'', ''Sentry.DSN'', ''ShutdownDelay'', ''Production''}" for n
    using that by (elim insertE emptyE; hypsubst; intro get_plain [OF assms(1,2)]) (simp add: f, simp)+
  note d = get_default [OF assms(1,2)] and num = default_numbers [of pf fr]
  have "get_int gs ''HTTP.Port'' = orelse 0 8080 (get_int fs ''HTTP.Port'')"
    "get_int gs ''HTTP.StatsPort'' = orelse 0 8081 (get_int fs ''HTTP.StatsPort'')"
    "get_int gs ''HTTP.OpenConnLimit'' = orelse 0 1000 (get_int fs ''HTTP.OpenConnLimit'')"
    "get_int gs ''HTTP.ReadTimeout'' = orelse 0 300000000000 (get_int fs ''HTTP.ReadTimeout'')"
    "get_int gs ''HTTP.ShutdownTimeout'' = orelse 0 2000000000 (get_int fs ''HTTP.ShutdownTimeout'')"
    by (rule d(1), simp add: f, simp, simp, rule num)+
  moreover have "get_string gs ''LogLevel'' = orelse '''' ''info'' (get_string fs ''LogLevel'')"
    by (rule d(2), simp add: f, simp, simp)
  moreover have "get_float gs ''HTTP.RateLimit'' = orelse 0 10000 (get_float fs ''HTTP.RateLimit'')"
    by (rule d(3), simp add: f, simp, simp, simp add: assms(3))
  moreover have "get_string gs n = get_string fs n \<and> get_bool gs n = get_bool fs n \<and> get_int gs n = get_int fs n" if "entry gs n = entry fs n" for n
    using that by (simp add: get_string_def get_bool_def get_int_def)
  ultimately show ?thesis using p by (simp add: view_def http_of_def with_defaults_def Let_def)
qed

lemma defaults_any_view:
  assumes "defaults_any parseFloat fracNs (APtr (AStruct t fs)) = Ends (None, v)" and "shape fs = shape app_fields" and "parseFloat ''10000'' = Some 10000"
  shows "view b v = with_defaults (view b (APtr (AStruct t fs)))" "filter (\<lambda>(n, m, v). missing m v) (leaves fs) = []"
proof -
  obtain gs where gs: "v = APtr (AStruct t gs)" "DefaultsAndRequired parseFloat fracNs fs = Some (None, gs)"
    using assms(1) by (auto simp: defaults_any_def split: option.splits)
  from gs(2) have r: "defsAndReqs parseFloat fracNs fs = Some ([], gs)"
    by (auto simp: DefaultsAndRequired_def split: option.splits if_splits)
  note lv = defsAndReqs_leaves [OF r]
  show "view b v = with_defaults (view b (APtr (AStruct t fs)))"
    unfolding gs(1) by (rule view_filled [OF assms(2) lv [THEN conjunct2] assms(3)])
  show "filter (\<lambda>(n, m, v). missing m v) (leaves fs) = []" using lv [THEN conjunct1] by (simp only: Nil_is_map_conv)
qed

text \<open>The top-level keys of a document with their values, in the order of the file.\<close>

fun sections :: "ynode list \<Rightarrow> (string \<times> ynode) list" where
  "sections (k # v # rest) = (Value k, v) # sections rest"
| "sections _ = []"

lemma root_nodes_sections: "root_nodes cs Map.empty = Some rn \<Longrightarrow> rn = map_of (rev (sections cs))"
proof -
  have "root_nodes cs m = Some rn \<Longrightarrow> rn = m ++ map_of (rev (sections cs))" for m
    by (induction cs m rule: root_nodes.induct) (auto simp: map_add_upd_left fun_eq_iff map_add_def split: option.splits)
  then show "root_nodes cs Map.empty = Some rn \<Longrightarrow> rn = map_of (rev (sections cs))" by fastforce
qed

subsection \<open>Properties\<close>

text \<open>
  C28: the configuration with which an application starts.  When the file is read
  without error, the application's configuration is what the value of the last top-level key \<open>app\<close> of the file decodes
  to (or the zero configuration, if there is no such key) with exactly the documented defaults
  filled in where a value is zero - ports 8080 and 8081, 10000 requests per second, 1000
  connections, five minutes and two seconds, level \<open>info\<close> - so that none of these is ever
  zero, and the metrics namespace is set.
\<close>

theorem app_config_defaults:
  assumes "readConfigData parseYAML decode parseFloat fracNs iter1 iter2 a text = Ends (None, a')" and "app_cfg a = zero_Config"
    and "keeps_shape decode" and "parseFloat ''10000'' = Some 10000"
  shows "\<exists>mapping docs v. parseYAML text = Inr (mapping # docs) \<and>
    (case map_of (rev (sections (Content mapping))) ''app'' of
       None \<Rightarrow> v = zero_Config
     | Some node \<Rightarrow> decode node zero_Config = (None, v)) \<and>
    view b (app_cfg a') = with_defaults (view b v) \<and>
    (let c = HTTP (view b (app_cfg a')) in Port c \<noteq> 0 \<and> StatsPort c \<noteq> 0 \<and> RateLimit c \<noteq> 0 \<and> OpenConnLimit c \<noteq> 0 \<and>
       ReadTimeout c \<noteq> 0 \<and> ShutdownTimeout c \<noteq> 0 \<and> Namespace (Metrics c) \<noteq> '''')"
proof -
  obtain mapping docs v v' a2 rn where y: "parseYAML text = Inr (mapping # docs)" and rn: "root_nodes (Content mapping) Map.empty = Some rn"
    and v: "case rn ''app'' of None \<Rightarrow> v = zero_Config | Some node \<Rightarrow> decode node zero_Config = (None, v)"
    and v': "defaults_any parseFloat fracNs v = Ends (None, v')"
    and a2: "decode_services decode rn (a\<lparr>app_cfg := v'\<rparr>) (iter1 (serviceDefs a)) = (None, a2)"
    and fin: "default_services parseFloat fracNs a2 (iter2 (serviceDefs a2)) = Ends (None, a')"
    using assms(1,2) by (auto simp: readConfigData_def Let_def split: sum.splits list.splits option.splits prod.splits run.splits)
  have a': "app_cfg a' = v'" using decode_services_frame [OF a2] default_services_complete [OF fin] by simp
  obtain fs where fs: "v = APtr (AStruct ''app.Config'' fs)" "shape fs = shape app_fields"
    using v assms(3) unfolding keeps_shape_def zero_Config_def by (cases "rn ''app''") (auto, blast)
  note filled = defaults_any_view [OF v' [unfolded fs(1)] fs(2) assms(4)]
  then have eq: "view b v' = with_defaults (view b v)" unfolding fs(1) by blast
  have "entry app_fields ''HTTP.Metrics.Namespace'' = Some (field ''Namespace'' [(''yaml'', ''namespace''), (''required'', ''true'')], VString '''')"
    by (simp add: entry_def app_leaves)
  then obtain s where s: "entry fs ''HTTP.Metrics.Namespace'' = Some (field ''Namespace'' [(''yaml'', ''namespace''), (''required'', ''true'')], VString s)"
    using entry_shape [OF fs(2), of "''HTTP.Metrics.Namespace''"] by (auto dest!: kind_elims)
  then have mem: "(''HTTP.Metrics.Namespace'', field ''Namespace'' [(''yaml'', ''namespace''), (''required'', ''true'')], VString s) \<in> set (leaves fs)"
    unfolding entry_def by (rule map_of_SomeD)
  with filled(2) have "\<not> missing (field ''Namespace'' [(''yaml'', ''namespace''), (''required'', ''true'')]) (VString s)" by (fastforce simp only: filter_empty_conv)
  then have "s \<noteq> ''''" by (auto simp: missing_def)
  then have "Namespace (Metrics (HTTP (view b v))) \<noteq> ''''" using s by (simp add: view_def http_of_def fs(1) get_string_def Let_def)
  then show ?thesis unfolding a' eq
    using y v root_nodes_sections [OF rn] by (intro exI [of _ mapping] exI [of _ docs] exI [of _ v] conjI refl) (simp_all add: with_defaults_def orelse_def Let_def)
qed

text \<open>A file whose section \<open>app\<close> gives the namespace only.\<close>

definition named_fields :: "string \<Rightarrow> fieldvals" where
  "named_fields ns = map (\<lambda>(m, v). if Name m = ''HTTP'' then
      (m, VStruct (map (\<lambda>(m, v). if Name m = ''Metrics'' then
        (m, VStruct (map (\<lambda>(m, v). if Name m = ''Namespace'' then (m, VString ns) else (m, v)) metrics_fields)) else (m, v)) http_fields))
      else (m, v)) app_fields"

definition namespace_decode :: "ynode \<Rightarrow> anyval \<Rightarrow> string option \<times> anyval" where
  "namespace_decode node v = (if v = zero_Config then (None, APtr (AStruct ''app.Config'' (named_fields (Value node)))) else (None, v))"

lemma named_shape: "shape (named_fields ns) = shape app_fields"
  by (simp add: shape_def named_fields_def app_fields_def http_fields_def metrics_fields_def sentry_fields_def leaves.simps(2))

lemma view_named: "view b (APtr (AStruct t (named_fields ns))) = (view b zero_Config)\<lparr>HTTP := (HTTP (view b zero_Config))\<lparr>Metrics := \<lparr>Namespace = ns, Buckets = b\<rparr>\<rparr>\<rparr>"
  by (simp add: view_zero) (simp add: view_def http_of_def get_int_def get_string_def get_bool_def get_float_def entry_def
      named_fields_def app_fields_def http_fields_def metrics_fields_def sentry_fields_def leaves.simps(2) Let_def)

lemma namespace_decode_shape: "keeps_shape namespace_decode"
  using named_shape by (auto simp: keeps_shape_def namespace_decode_def zero_Config_def)

definition config_text :: string where
  "config_text = ''app: demo''"

definition config_yaml :: "string \<Rightarrow> string + ynode list" where
  "config_yaml text = Inr [YNode '''' [YNode ''app'' [], YNode ''demo'' []]]"

definition config_floats :: "string \<Rightarrow> real option" where
  "config_floats s = (if s = ''10000'' then Some 10000 else None)"

lemma config_reads:
  "\<exists>gs. defaults_any config_floats fr (APtr (AStruct ''app.Config'' (named_fields ''demo''))) = Ends (None, APtr (AStruct ''app.Config'' gs))"
  by (simp add: defaults_any_def DefaultsAndRequired_def named_fields_def app_fields_def http_fields_def metrics_fields_def sentry_fields_def
      defsAndReqs.simps(2) set_default_eq missing_def)

theorem app_config_defaults_witness:
  "\<exists>a' :: unit application. readConfigData config_yaml namespace_decode config_floats (\<lambda>_ _ _. 0) (\<lambda>_. []) (\<lambda>_. [])
      \<lparr>serviceDefs = Map.empty, app_cfg = zero_Config, cfgPath = ''''\<rparr> config_text = Ends (None, a') \<and>
    Namespace (Metrics (HTTP (view [] (app_cfg a')))) = ''demo''"
proof -
  obtain gs where d: "defaults_any config_floats (\<lambda>_ _ _. 0) (APtr (AStruct ''app.Config'' (named_fields ''demo''))) =
      Ends (None, APtr (AStruct ''app.Config'' gs))" using config_reads by blast
  let ?a = "\<lparr>serviceDefs = Map.empty, app_cfg = zero_Config, cfgPath = ''''\<rparr> :: unit application"
  obtain a' where eq: "readConfigData config_yaml namespace_decode config_floats (\<lambda>_ _ _. 0) (\<lambda>_. []) (\<lambda>_. []) ?a config_text = Ends (None, a')"
    by (simp add: readConfigData_def config_yaml_def namespace_decode_def d Let_def)
  have "view [] (APtr (AStruct ''app.Config'' (named_fields ''demo''))) = (view [] zero_Config)\<lparr>HTTP := (HTTP (view [] zero_Config))\<lparr>Metrics := \<lparr>Namespace = ''demo'', Buckets = []\<rparr>\<rparr>\<rparr>"
    by (rule view_named)
  with app_config_defaults [OF eq _ namespace_decode_shape, of "[]"] eq show ?thesis
    by (auto simp: config_floats_def config_yaml_def namespace_decode_def with_defaults_def Let_def)
qed

end
