(* ===== verification/Utilities.thy ===== *)
theory Utilities
  imports Retry Server
begin

text \<open>
  The small packages: \<open>mailer\<close> (src/mailer/mailer.go), \<open>clock\<close> (src/clock/clock.go),
  \<open>metrics\<close> (src/metrics/metrics.go) and \<open>sentry\<close> (src/sentry/sentry.go).  The SMTP
  client, the Prometheus registry and the Sentry SDK are arguments.
\<close>

subsection \<open>mailer\<close>

record mailer_config =
  m_Username :: string
  m_Password :: string
  m_Server :: string
  m_Port :: int
  m_From :: string

type_synonym mailer = mailer_config

definition NewMailer :: "mailer_config \<Rightarrow> mailer" where
  "NewMailer c = \<lparr>m_Username = m_Username c, m_Password = m_Password c, m_Server = m_Server c, m_Port = m_Port c, m_From = m_From c\<rparr>"

definition crlf :: string where
  "crlf = [CHR 0x0D, CHR 0x0A]"

definition mail_headers :: "mailer \<Rightarrow> string \<Rightarrow> string \<Rightarrow> string \<rightharpoonup> string" where
  "mail_headers m to subject =
     [''From'' \<mapsto> m_From m, ''To'' \<mapsto> to, ''Subject'' \<mapsto> subject, ''Content-Type'' \<mapsto> ''text/html; charset=utf-8'']"

definition header_line :: "string \<times> string \<Rightarrow> string" where
  "header_line kv = fst kv @ '': '' @ snd kv @ crlf"

text \<open>\<open>iter\<close> is the order in which the map of headers is visited.\<close>

definition mail_message :: "(string, string) map_order \<Rightarrow> mailer \<Rightarrow> string \<Rightarrow> string \<Rightarrow> string \<Rightarrow> string" where
  "mail_message iter m to subject bdy =
     (let h = mail_headers m to subject
      in concat (map (\<lambda>k. header_line (k, map_get '''' h k)) (iter h)) @ crlf @ bdy)"

text \<open>\<open>smtp\<close> is \<open>smtp.SendMail\<close>: address, credentials, sender, recipients, message.\<close>

definition SendMailHTML ::
  "(string \<Rightarrow> string \<times> string \<times> string \<Rightarrow> string \<Rightarrow> string list \<Rightarrow> string \<Rightarrow> string option) \<Rightarrow> (string, string) map_order \<Rightarrow>
   mailer \<Rightarrow> string \<Rightarrow> string \<Rightarrow> string \<Rightarrow> string option" where
  "SendMailHTML smtp iter m to subject bdy =
     (let auth = (m_Username m, m_Password m, m_Server m)
      in case smtp (m_Server m @ '':'' @ Itoa (m_Port m)) auth (m_From m) [to] (mail_message iter m to subject bdy) of
           Some e \<Rightarrow> Some (''send: '' @ e)
         | None \<Rightarrow> None)"

subsection \<open>clock\<close>

text \<open>Times and durations in nanoseconds.\<close>

record FakeClock =
  clock_now :: int

definition NewFakeClock :: "int \<Rightarrow> FakeClock" where
  "NewFakeClock start = \<lparr>clock_now = start\<rparr>"

definition Now :: "FakeClock \<Rightarrow> int" where
  "Now f = clock_now f"

definition Sleep :: "FakeClock \<Rightarrow> int \<Rightarrow> FakeClock" where
  "Sleep f d = f\<lparr>clock_now := clock_now f + d\<rparr>"

text \<open>
  The real clock has no state: it reads and waits for the time of the machine.
  \<open>time.Sleep\<close> pauses for at least the duration, how much longer is \<open>late\<close>, and returns
  at once when the duration is not positive.
\<close>

datatype RealClock = RealClock

record machine =
  wall :: int

definition NewClock :: RealClock where
  "NewClock = RealClock"

definition real_Now :: "RealClock \<Rightarrow> machine \<Rightarrow> int" where
  "real_Now c m = wall m"

definition real_Sleep :: "(int \<Rightarrow> nat) \<Rightarrow> RealClock \<Rightarrow> int \<Rightarrow> machine \<Rightarrow> machine" where
  "real_Sleep late c d m = (if d \<le> 0 then m else m\<lparr>wall := wall m + d + int (late d)\<rparr>)"

text \<open>What code that is given a \<open>Clock\<close> relies on: after sleeping at least that time has passed.\<close>

locale clock_interface =
  fixes now :: "'s \<Rightarrow> int" and sleep :: "int \<Rightarrow> 's \<Rightarrow> 's"
  assumes sleep_waits: "0 \<le> d \<Longrightarrow> now s + d \<le> now (sleep d s)"
begin

lemma sleeps_add_up: "list_all (\<lambda>d. 0 \<le> d) ds \<Longrightarrow> now s + sum_list ds \<le> now (fold sleep ds s)"
proof (induction ds arbitrary: s)
  case (Cons d ds)
  then have "now (sleep d s) + sum_list ds \<le> now (fold sleep ds (sleep d s))" "now s + d \<le> now (sleep d s)"
    using Cons.IH [of "sleep d s"] sleep_waits [of d s] by auto
  then show ?case by simp
qed simp

end

interpretation fake_clock: clock_interface Now "\<lambda>d f. Sleep f d"
  by unfold_locales (simp add: Now_def Sleep_def)

interpretation real_clock: clock_interface "real_Now NewClock" "real_Sleep late NewClock" for late
  by unfold_locales (simp add: real_Now_def real_Sleep_def)

subsection \<open>metrics\<close>

text \<open>
  \<open>register\<close> is the registration of a collector under a prefix; \<open>reg\<close> is the Prometheus
  registry.
\<close>

record 'reg Registry =
  registry :: 'reg
  prefix :: string

definition Get :: "(string \<Rightarrow> string \<Rightarrow> 'reg \<Rightarrow> string option \<times> 'reg) \<Rightarrow> 'reg Registry \<Rightarrow> string \<Rightarrow> string option \<times> 'reg Registry" where
  "Get register r collector = (case register (prefix r) collector (registry r) of (err, g) \<Rightarrow> (err, r\<lparr>registry := g\<rparr>))"

definition NewRegistry :: "(string \<Rightarrow> string \<Rightarrow> 'reg \<Rightarrow> string option \<times> 'reg) \<Rightarrow> 'reg \<Rightarrow> metrics_config \<Rightarrow> string + 'reg Registry" where
  "NewRegistry register empty_reg c =
     (let r0 = \<lparr>registry = empty_reg, prefix = Namespace c @ ''_''\<rparr>
      in case Get register r0 ''go'' of
           (Some e, r1) \<Rightarrow> Inl (''failed to register go collector: '' @ e)
         | (None, r1) \<Rightarrow> (case Get register r1 ''process'' of
             (Some e, r2) \<Rightarrow> Inl (''failed to register process collector: '' @ e)
           | (None, r2) \<Rightarrow> Inr r2))"

text \<open>
  \<open>Handler\<close> registers the metrics of the handler itself under the prefix and serves the
  registry; an error of that registration other than a duplicate is a panic.
\<close>

definition Handler_metrics :: "(string \<Rightarrow> string \<Rightarrow> 'reg \<Rightarrow> string option \<times> 'reg) \<Rightarrow> 'reg Registry \<Rightarrow> string option \<times> 'reg Registry" where
  "Handler_metrics register r = Get register r ''promhttp''"

subsection \<open>sentry\<close>

text \<open>\<open>init\<close> is \<open>sentry.Init\<close> for a DSN with stack traces attached, \<open>handler\<close> what \<open>sentryhttp.New\<close> gives.\<close>

record 'h sentry_service =
  Handler :: 'h

definition NewService :: "(string \<Rightarrow> bool \<Rightarrow> string option) \<Rightarrow> 'h \<Rightarrow> string \<Rightarrow> string + 'h sentry_service" where
  "NewService init handler dsn = (case init dsn True of
      Some e \<Rightarrow> Inl (''sentry init: '' @ e)
    | None \<Rightarrow> Inr \<lparr>Handler = handler\<rparr>)"

definition GetHandler :: "'h sentry_service \<Rightarrow> 'h" where
  "GetHandler srv = Handler srv"

definition Flush_sentry :: "(int \<Rightarrow> bool) \<Rightarrow> 'h sentry_service \<Rightarrow> int \<Rightarrow> bool" where
  "Flush_sentry flush srv timeout = flush timeout"

subsection \<open>Facts\<close>

lemma mail_headers_dom: "dom (mail_headers m to subject) = {''From'', ''To'', ''Subject'', ''Content-Type''}"
  by (auto simp: mail_headers_def)

text \<open>
  The header of a message has the four lines in some order; a line break in the subject is
  not removed, so a subject can add lines of its own.
\<close>

lemma mail_message_lines:
  assumes "orders iter (mail_headers m to subject)"
  shows "\<exists>ks. distinct ks \<and> set ks = {''From'', ''To'', ''Subject'', ''Content-Type''} \<and>
    mail_message iter m to subject bdy = concat (map (\<lambda>k. header_line (k, map_get '''' (mail_headers m to subject) k)) ks) @ crlf @ bdy"
  using assms by (auto simp: orders_def mail_message_def mail_headers_dom Let_def)

lemma subject_injects_headers:
  "header_line (''Subject'', ''hi'' @ crlf @ ''Bcc: eve'') = header_line (''Subject'', ''hi'') @ header_line (''Bcc'', ''eve'')"
  by (simp add: header_line_def crlf_def)

lemma fake_clock_sleeps: "Now (foldl Sleep (NewFakeClock t) ds) = t + sum_list ds"
proof -
  have "clock_now (foldl Sleep f ds) = clock_now f + sum_list ds" for f
    by (induction ds arbitrary: f) (simp_all add: Sleep_def)
  then show ?thesis by (simp add: Now_def NewFakeClock_def)
qed

text \<open>A negative duration turns the fake clock back; the real one only returns.\<close>

lemma fake_clock_turns_back: "d < 0 \<Longrightarrow> Now (Sleep f d) < Now f \<and> real_Sleep late NewClock d m = m"
  by (simp add: Now_def Sleep_def real_Sleep_def)

lemma registry_prefix: "NewRegistry register g c = Inr r \<Longrightarrow> prefix r = Namespace c @ ''_''"
  by (auto simp: NewRegistry_def Get_def Let_def split: prod.splits option.splits)

end
