(* ===== verification/Application.thy ===== *)
theory Application
  imports Utilities Logger ConfigSchema Health
begin

text \<open>
  The application (src/app/app.go, types.go): creating the services,
  registering their handlers, and the life of the process.  \<open>logger.Fatal\<close> and
  \<open>syslog.Fatal\<close> end the process; their message is the \<open>Inl\<close> of the result.  The
  goroutines of \<open>runEverything\<close> are a step relation.  What the libraries below do is
  gathered in \<open>run_env\<close>, what is read of the configuration in \<open>conf_env\<close>.
\<close>

subsection \<open>Types\<close>

record ('d, 's) HandlerDefinition =
  Endpoint :: string
  HMethod :: string
  Path :: string
  Func :: "('d, 's) HandlerWithResult"
  SIDRequired :: bool

record ('d, 's) Service =
  GetSessionData :: "string \<Rightarrow> string + 'd"
  GetHandlers :: "('d, 's) HandlerDefinition list"

text \<open>The Prometheus registry is what was registered; the values of \<open>log.Any\<close> are strings.\<close>

type_synonym prom = "string list"

record Options =
  opt_Logger :: "string logger"
  MetricsRegistry :: "prom Registry"
  ServiceReporter :: serviceReporter
  opt_Production :: bool
  ConfigPath :: string

type_synonym ('d, 's) ServiceFactory = "anyval \<Rightarrow> Options \<Rightarrow> string + ('d, 's) Service"

record ('d, 'l, 'a) run_env =
  maxprocs_err :: "string option"
  register :: "string \<Rightarrow> string \<Rightarrow> prom \<Rightarrow> string option \<times> prom"
  logger_build :: "string option"
  sentry_init :: "string \<Rightarrow> bool \<Rightarrow> string option"
  bucketValues :: "real list"
  tls :: tls_env
  mkLimiter :: "real \<Rightarrow> int \<Rightarrow> 'l"
  allow :: "'l \<Rightarrow> bool \<times> 'l"
  sentryHandler :: "('d, ('l, 'a) srv) http_handler \<Rightarrow> ('d, ('l, 'a) srv) http_handler"
  parseForm :: "'d http_request \<Rightarrow> 'd http_request"
  newUUID :: "'d http_request \<Rightarrow> ('l, 'a) srv \<Rightarrow> string"
  elapsed :: "'d http_request \<Rightarrow> ('l, 'a) srv \<Rightarrow> int \<times> int"

subsection \<open>Creating services\<close>

text \<open>The application and the lines that are printed; \<open>currentUser\<close> gives name, uid and gid.\<close>

definition New_app :: "(string + string \<times> string \<times> string) \<Rightarrow> string \<Rightarrow> string \<Rightarrow> string + ('f application \<times> string list)" where
  "New_app currentUser appName version = (case currentUser of
      Inl e \<Rightarrow> Inl e
    | Inr (name, uid, gid) \<Rightarrow> Inr (\<lparr>serviceDefs = Map.empty, app_cfg = zero_Config, cfgPath = ''''\<rparr>,
        [''Starting '' @ appName @ '', version '' @ version, ''username: '' @ name @ '', uid: '' @ uid @ '', gid: '' @ gid]))"

text \<open>The loop that creates the services; \<open>opts\<close> are the options without the reporter.\<close>

fun create_services :: "('d, 's) ServiceFactory application \<Rightarrow> (serviceReporter \<Rightarrow> Options) \<Rightarrow> statusReporter \<Rightarrow> (string \<rightharpoonup> ('d, 's) Service) \<Rightarrow>
    string list \<Rightarrow> string + (statusReporter \<times> (string \<rightharpoonup> ('d, 's) Service))" where
  "create_services a opts st svcs [] = Inr (st, svcs)"
| "create_services a opts st svcs (name # ns) = (case serviceDefs a name of
     None \<Rightarrow> create_services a opts st svcs ns
   | Some reg \<Rightarrow> (case GetServiceReporter st name of
       (Inl e, st') \<Rightarrow> Inl (''create service reporter'')
     | (Inr rep, st') \<Rightarrow> (case rs_Factory reg (rs_Config reg) (opts rep) of
         Inl e \<Rightarrow> Inl ''create service''
       | Inr svc \<Rightarrow> create_services a opts st' (svcs(name \<mapsto> svc)) ns)))"

definition make_options :: "string logger \<Rightarrow> prom Registry \<Rightarrow> bool \<Rightarrow> string \<Rightarrow> serviceReporter \<Rightarrow> Options" where
  "make_options l g inProduction path rep =
     \<lparr>opt_Logger = l, MetricsRegistry = g, ServiceReporter = rep, opt_Production = inProduction, ConfigPath = path\<rparr>"

text \<open>
  \<open>Run\<close> up to \<open>runEverything\<close>, after the configuration was read: the HTTP server
  with its state, the stat server, the status reporter and the services.
\<close>

definition Run_setup :: "('d, 'l, 'a) run_env \<Rightarrow> (string, ('d, ('l, 'a) srv) ServiceFactory registeredService) map_order \<Rightarrow>
    ('d, ('l, 'a) srv) ServiceFactory application \<Rightarrow> 'a \<Rightarrow>
    string + (('d, 'l, 'a) httpserver \<times> ('l, 'a) srv) \<times> statServer \<times> statusReporter \<times> (string \<rightharpoonup> ('d, ('l, 'a) srv) Service)" where
  "Run_setup env iter a st0 =
     (let c = view (bucketValues env) (app_cfg a);
          appStatus = snd (GetServiceReporter New_status ''app'')
      in case NewRegistry (register env) [] (Metrics (HTTP c)) of
           Inl e \<Rightarrow> Inl (''metrics: '' @ e)
         | Inr metricsRegistry \<Rightarrow> (case Logger.New (logger_build env) (LogLevel c) False of
             Inl e \<Rightarrow> Inl e
           | Inr logger \<Rightarrow> (case NewService (sentry_init env) (sentryHandler env) (SentryDSN c) of
               Inl e \<Rightarrow> Inl ''create sentry service''
             | Inr sentryService \<Rightarrow>
                 (case fst (NewServer (tls env) (mkLimiter env) (allow env) (GetHandler sentryService) (HTTP c) (Metrics (HTTP c)) New_router st0) of
                   Inl e \<Rightarrow> Inl ''create app http server''
                 | Inr sv \<Rightarrow> (case Handler_metrics (register env) metricsRegistry of
                     (Some e, _) \<Rightarrow> Inl (''panic: '' @ e)
                   | (None, g) \<Rightarrow>
                       (case create_services a (make_options logger g (Production c) (cfgPath a)) appStatus Map.empty (iter (serviceDefs a)) of
                          Inl e \<Rightarrow> Inl e
                        | Inr (st, svcs) \<Rightarrow> Inr (sv, New_stat (StatsPort (HTTP c)), st, svcs)))))))"

text \<open>What the reader of the configuration is given: the decoders, the disk, the flags and the map orders.\<close>

record 'f conf_env =
  parseYAML :: "string \<Rightarrow> string + ynode list"
  decode :: "ynode \<Rightarrow> anyval \<Rightarrow> string option \<times> anyval"
  parseFloat :: "string \<Rightarrow> real option"
  fracNs :: "int \<Rightarrow> int \<Rightarrow> int \<Rightarrow> int"
  getenv :: "string \<Rightarrow> string"
  getwd :: "string + string"
  disk :: fs
  arg0 :: string
  config_file :: string
  print_config :: string
  decode_order :: "(string, 'f registeredService) map_order"
  default_order :: "(string, 'f registeredService) map_order"
  print_order :: "(string, 'f registeredService) map_order"

text \<open>\<open>Run\<close> without a configuration reads the file, with one it takes its sections.\<close>

definition read_config :: "'f conf_env \<Rightarrow> (fmeta \<times> anyval) list option option \<Rightarrow> 'f application \<Rightarrow> (string + 'f application) run" where
  "read_config conf config a = (case config of
      Some src \<Rightarrow> readConfigStruct (parseFloat conf) (fracNs conf) (getwd conf) a src
    | None \<Rightarrow> (case readConfigFile (parseYAML conf) (decode conf) (parseFloat conf) (fracNs conf) (getenv conf)
          (decode_order conf) (default_order conf) (print_order conf) (disk conf) (arg0 conf) (config_file conf) (print_config conf) a of
        Ends (Inl e) \<Rightarrow> Ends (Inl e)
      | Ends (Inr (a', printed)) \<Rightarrow> Ends (Inr a')
      | Crashes \<Rightarrow> Crashes
      | Diverges \<Rightarrow> Diverges))"

definition Run_app :: "('d, 'l, 'a) run_env \<Rightarrow> ('d, ('l, 'a) srv) ServiceFactory conf_env \<Rightarrow>
    (string, ('d, ('l, 'a) srv) ServiceFactory registeredService) map_order \<Rightarrow> (fmeta \<times> anyval) list option option \<Rightarrow>
    ('d, ('l, 'a) srv) ServiceFactory application \<Rightarrow> 'a \<Rightarrow>
    (string + (('d, 'l, 'a) httpserver \<times> ('l, 'a) srv) \<times> statServer \<times> statusReporter \<times> (string \<rightharpoonup> ('d, ('l, 'a) srv) Service)) run" where
  "Run_app env conf iter config a st0 = (case maxprocs_err env of
      Some e \<Rightarrow> Ends (Inl ''failed to set GOMAXPROCS'')
    | None \<Rightarrow> (case read_config conf config a of
        Ends (Inl e) \<Rightarrow> Ends (Inl e)
      | Ends (Inr a') \<Rightarrow> Ends (Run_setup env iter a' st0)
      | Crashes \<Rightarrow> Crashes
      | Diverges \<Rightarrow> Diverges))"

subsection \<open>Handlers\<close>

text \<open>The loop of \<open>addHandlers\<close>: the session getter is a variable that the loop assigns.\<close>

fun addHandlers :: "('d, 'l, 'a) run_env \<Rightarrow> ('d, 'l, 'a) httpserver \<Rightarrow> string \<Rightarrow> ('d, ('l, 'a) srv) HandlerDefinition list \<Rightarrow>
    (string \<Rightarrow> string + 'd) option \<Rightarrow> string + ('d, 'l, 'a) httpserver" where
  "addHandlers env sv service [] sessionGetter = Inr sv"
| "addHandlers env sv service (h # hs) sessionGetter =
     (if \<not> SIDRequired h then
        addHandlers env (HandleFunc (parseForm env) (newUUID env) (elapsed env) sv service (Endpoint h) (HMethod h) (Path h) (Func h) None)
          service hs None
      else (case sessionGetter of
        None \<Rightarrow> Inl ''SID required but no session getter provided''
      | Some g \<Rightarrow> addHandlers env
          (HandleFunc (parseForm env) (newUUID env) (elapsed env) sv service (Endpoint h) (HMethod h) (Path h) (Func h) (Some g))
          service hs (Some g)))"

fun start_services :: "('d, 'l, 'a) run_env \<Rightarrow> ('d, 'l, 'a) httpserver \<Rightarrow> (string \<rightharpoonup> ('d, ('l, 'a) srv) Service) \<Rightarrow> string list \<Rightarrow>
    string + ('d, 'l, 'a) httpserver" where
  "start_services env sv svcs [] = Inr sv"
| "start_services env sv svcs (name # ns) = (case svcs name of
     None \<Rightarrow> start_services env sv svcs ns
   | Some svc \<Rightarrow> (case addHandlers env sv name (GetHandlers svc) (Some (GetSessionData svc)) of
       Inl e \<Rightarrow> Inl e
     | Inr sv' \<Rightarrow> start_services env sv' svcs ns))"

subsection \<open>The life of the process\<close>

datatype gname = GStat | GHttp | GService string | GTerm

datatype phase = Starting | Serving | Draining | Terminated

text \<open>The phases are ordered in time.\<close>

fun phase_rank :: "phase \<Rightarrow> nat" where
  "phase_rank Starting = 0"
| "phase_rank Serving = 1"
| "phase_rank Draining = 2"
| "phase_rank Terminated = 3"

lemma phase_rank_inject: "phase_rank p = phase_rank q \<Longrightarrow> p = q"
  by (cases p; cases q) simp_all

lemma phase_rank_max [simp]: "phase_rank p \<le> 3"
  by (cases p) simp_all

instantiation phase :: linorder
begin

definition less_eq_phase :: "phase \<Rightarrow> phase \<Rightarrow> bool" where
  "p \<le> q \<longleftrightarrow> phase_rank p \<le> phase_rank q"

definition less_phase :: "phase \<Rightarrow> phase \<Rightarrow> bool" where
  "p < q \<longleftrightarrow> phase_rank p < phase_rank q"

instance
  by standard (auto simp: less_eq_phase_def less_phase_def intro: phase_rank_inject)

end

text \<open>
  The state of the process: the goroutines that run, the errgroup, whether the signals are
  caught, the services whose handlers are not registered yet, and the HTTP server with the
  routes it has.
\<close>

record ('d, 'l, 'a) life =
  running :: "gname set"
  ctx_done :: bool
  listening :: bool
  first_err :: "string option"
  life_phase :: phase
  life_status :: statusReporter
  life_log :: "log_call list"
  to_start :: "string list"
  life_server :: "('d, 'l, 'a) httpserver"

text \<open>The errgroup: the first error is kept and cancels the context.\<close>

definition finish :: "gname \<Rightarrow> string option \<Rightarrow> ('d, 'l, 'a) life \<Rightarrow> ('d, 'l, 'a) life" where
  "finish g err l = l\<lparr>running := running l - {g}, first_err := (if first_err l = None then err else first_err l),
     ctx_done := (ctx_done l \<or> err \<noteq> None)\<rparr>"

definition wrap_err :: "string \<Rightarrow> string option \<Rightarrow> string option" where
  "wrap_err pre err = map_option (\<lambda>e. pre @ '': '' @ e) err"

fun own_report :: "string \<Rightarrow> status_event \<Rightarrow> bool" where
  "own_report n (Register m) = False"
| "own_report n (ReportReady m) = (m = n)"
| "own_report n (ReportNotReady m) = (m = n)"
| "own_report n (ReportDead m) = (m = n)"

definition appReporter :: serviceReporter where
  "appReporter = \<lparr>serviceName = ''app''\<rparr>"

text \<open>A process that is ended from outside or by a panic leaves no goroutine and no status behind.\<close>

definition crash :: "('d, 'l, 'a) life \<Rightarrow> ('d, 'l, 'a) life" where
  "crash l = l\<lparr>running := {}, life_phase := Terminated, life_status := snd (GetServiceReporter New_status ''app'')\<rparr>"

text \<open>
  The steps.  The two servers run from the beginning; then the handlers of one service
  after the other are registered and its goroutine is started, and only then the
  application reports ready and starts the goroutine that catches the signals.  Until that
  goroutine has called \<open>signal.Notify\<close> a signal ends the process, and so do \<open>Fatal\<close> and, at any
  time, the panic of a service; \<open>Wait\<close> returns when no goroutine is left.  \<open>delay\<close> is the
  configured shutdown delay.
\<close>

inductive runEverything :: "('d, 'l, 'a) run_env \<Rightarrow> (string \<rightharpoonup> ('d, ('l, 'a) srv) Service) \<Rightarrow> statServer \<Rightarrow> int \<Rightarrow>
    ('d, 'l, 'a) life \<Rightarrow> ('d, 'l, 'a) life \<Rightarrow> bool" for env svcs ss delay where
  stat_fails: "\<lbrakk>GStat \<in> running l; life_phase l \<le> Serving\<rbrakk> \<Longrightarrow>
    runEverything env svcs ss delay l (finish GStat (wrap_err ''prometheus server'' (fst (Run_stat ss (ServeReturned (Some e))))) l)"
| stat_stops: "\<lbrakk>GStat \<in> running l; life_phase l \<le> Serving; ctx_done l\<rbrakk> \<Longrightarrow>
    runEverything env svcs ss delay l (finish GStat (wrap_err ''prometheus server'' (fst (Run_stat ss (CtxDone e)))) l)"
| http_fails: "\<lbrakk>GHttp \<in> running l; life_phase l \<le> Serving\<rbrakk> \<Longrightarrow>
    runEverything env svcs ss delay l (finish GHttp (wrap_err ''api server'' (fst (Server.Run (life_server l) (ServeReturned (Some e))))) l)"
| http_stops: "\<lbrakk>GHttp \<in> running l; life_phase l \<le> Serving; ctx_done l\<rbrakk> \<Longrightarrow>
    runEverything env svcs ss delay l (finish GHttp (wrap_err ''api server'' (fst (Server.Run (life_server l) (CtxDone e)))) l)"
| service_reports: "\<lbrakk>GService n \<in> running l; own_report n ev\<rbrakk> \<Longrightarrow>
    runEverything env svcs ss delay l (l\<lparr>life_status := status_step (life_status l) ev\<rparr>)"
| service_returns: "\<lbrakk>GService n \<in> running l; life_phase l \<le> Serving\<rbrakk> \<Longrightarrow>
    runEverything env svcs ss delay l (finish (GService n) err l)"
| service_starts: "\<lbrakk>life_phase l = Starting; to_start l = n # ns; svcs n = Some svc;
      addHandlers env (life_server l) n (GetHandlers svc) (Some (GetSessionData svc)) = Inr sv\<rbrakk> \<Longrightarrow>
    runEverything env svcs ss delay l (l\<lparr>running := insert (GService n) (running l), to_start := ns, life_server := sv\<rparr>)"
| start_fatal: "\<lbrakk>life_phase l = Starting; to_start l = n # ns; svcs n = Some svc;
      addHandlers env (life_server l) n (GetHandlers svc) (Some (GetSessionData svc)) = Inl e\<rbrakk> \<Longrightarrow>
    runEverything env svcs ss delay l ((crash l)\<lparr>life_log := life_log l @ [LogCall ''fatal'' e [(''service'', n)]]\<rparr>)"
| killed: "\<lbrakk>life_phase l \<le> Serving; \<not> listening l\<rbrakk> \<Longrightarrow> runEverything env svcs ss delay l (crash l)"
| service_panics: "GService n \<in> running l \<Longrightarrow> runEverything env svcs ss delay l (crash l)"
| announced: "\<lbrakk>life_phase l = Starting; to_start l = []\<rbrakk> \<Longrightarrow>
    runEverything env svcs ss delay l (l\<lparr>life_phase := Serving, life_status := Ready (life_status l) appReporter, running := insert GTerm (running l)\<rparr>)"
| listens: "\<lbrakk>GTerm \<in> running l; life_phase l = Serving; \<not> listening l\<rbrakk> \<Longrightarrow> runEverything env svcs ss delay l (l\<lparr>listening := True\<rparr>)"
| signal: "\<lbrakk>GTerm \<in> running l; life_phase l = Serving; listening l\<rbrakk> \<Longrightarrow>
    runEverything env svcs ss delay l ((finish GTerm None l)\<lparr>ctx_done := True, life_log := life_log l @
      [LogCall ''info'' ''signal received'' [(''signal'', sig)],
       LogMain ''info'' ''shutting down'' [(''shutdown delay'', Duration_String delay)], LogFlush]\<rparr>)"
| term_ctx: "\<lbrakk>GTerm \<in> running l; life_phase l = Serving; listening l; ctx_done l\<rbrakk> \<Longrightarrow> runEverything env svcs ss delay l (finish GTerm None l)"
| waited: "\<lbrakk>running l = {}; life_phase l = Serving\<rbrakk> \<Longrightarrow>
    runEverything env svcs ss delay l (l\<lparr>life_phase := Draining, life_status := NotReady (life_status l) appReporter\<rparr>)"
| ended: "life_phase l = Draining \<Longrightarrow>
    runEverything env svcs ss delay l (l\<lparr>life_phase := Terminated, life_log := life_log l @
      [case first_err l of Some e \<Rightarrow> LogCall ''error'' ''terminated with error'' [(''error'', e)]
                         | None \<Rightarrow> LogCall ''info'' ''terminated successfully'' []]\<rparr>)"

text \<open>The state when the goroutines of the two servers were started.  \<open>names\<close> are the services in the order of the loop.\<close>

definition life_start :: "('d, 'l, 'a) httpserver \<Rightarrow> statusReporter \<Rightarrow> string list \<Rightarrow> ('d, 'l, 'a) life" where
  "life_start sv st names = \<lparr>running = {GStat, GHttp}, ctx_done = False, listening = False, first_err = None,
     life_phase = Starting, life_status = st, life_log = [], to_start = names, life_server = sv\<rparr>"

inductive_cases runEverything_cases: "runEverything env svcs ss delay l l'"

text \<open>The process never goes back to an earlier phase, and a done context stays done.\<close>

lemma phases_advance:
  assumes "(runEverything env svcs ss delay)\<^sup>*\<^sup>* l l'"
  shows "life_phase l \<le> life_phase l' \<and> (ctx_done l \<longrightarrow> ctx_done l')"
  using assms
proof (induction rule: rtranclp_induct)
  case (step l1 l2)
  from step(2) have "life_phase l1 \<le> life_phase l2 \<and> (ctx_done l1 \<longrightarrow> ctx_done l2)"
    by (cases rule: runEverything_cases) (auto simp: less_eq_phase_def finish_def crash_def)
  with step.IH show ?case by auto
qed simp

subsection \<open>Creation\<close>

lemma GetServiceReporter_cases:
  "GetServiceReporter st n = (r, st') \<Longrightarrow>
    (serviceReady st n \<noteq> None \<and> (\<exists>e. r = Inl e) \<and> st' = st) \<or>
    (serviceReady st n = None \<and> r = Inr \<lparr>serviceName = n\<rparr> \<and> serviceReady st' = (serviceReady st)(n \<mapsto> False))"
  by (auto simp: GetServiceReporter_def split: option.splits)

lemma create_services_taken:
  "n \<in> set ns \<Longrightarrow> serviceDefs a n \<noteq> None \<Longrightarrow> serviceReady st n \<noteq> None \<Longrightarrow> \<exists>e. create_services a opts st svcs ns = Inl e"
proof (induction ns arbitrary: st svcs)
  case Nil
  then show ?case by simp
next
  case (Cons k ns)
  show ?case
  proof (cases "serviceDefs a k")
    case None
    with Cons show ?thesis by auto
  next
    case (Some reg)
    obtain r st' where g: "GetServiceReporter st k = (r, st')" by fastforce
    show ?thesis
    proof (cases r)
      case (Inl e)
      with Some g show ?thesis by simp
    next
      case (Inr rep)
      with GetServiceReporter_cases [OF g] Cons.prems(3) have "serviceReady st' n \<noteq> None" "k \<noteq> n" by auto
      with Cons Some g Inr show ?thesis by (auto split: sum.splits)
    qed
  qed
qed

lemma create_services_result:
  "create_services a opts st svcs ns = Inr (st', svcs') \<Longrightarrow> set ns \<subseteq> dom (serviceDefs a) \<Longrightarrow>
    dom svcs' = dom svcs \<union> set ns \<and> dom (serviceReady st') = dom (serviceReady st) \<union> set ns \<and>
    ((\<forall>n. serviceReady st n \<noteq> Some True) \<longrightarrow> (\<forall>n. serviceReady st' n \<noteq> Some True))"
proof (induction ns arbitrary: st svcs)
  case Nil
  then show ?case by simp
next
  case (Cons k ns)
  then obtain reg where reg: "serviceDefs a k = Some reg" by auto
  obtain r s1 where g: "GetServiceReporter st k = (r, s1)" by fastforce
  with Cons.prems reg obtain rep svc where r: "r = Inr rep"
    and rest: "create_services a opts s1 (svcs(k \<mapsto> svc)) ns = Inr (st', svcs')"
    by (auto split: sum.splits)
  from GetServiceReporter_cases [OF g] r have s1: "serviceReady s1 = (serviceReady st)(k \<mapsto> False)" by auto
  from Cons.IH [OF rest] Cons.prems(2) s1 show ?case by auto
qed

subsection \<open>Handlers in order\<close>

definition registered :: "('d, 'l, 'a) run_env \<Rightarrow> string \<Rightarrow> (string \<Rightarrow> string + 'd) \<Rightarrow> ('d, 'l, 'a) httpserver \<Rightarrow>
    ('d, ('l, 'a) srv) HandlerDefinition \<Rightarrow> ('d, 'l, 'a) httpserver" where
  "registered env service g sv h = HandleFunc (parseForm env) (newUUID env) (elapsed env) sv service (Endpoint h) (HMethod h) (Path h)
     (Func h) (if SIDRequired h then Some g else None)"

lemma addHandlers_no_getter:
  "addHandlers env sv service hs None =
     (if list_ex SIDRequired hs then Inl ''SID required but no session getter provided''
      else Inr (foldl (registered env service g) sv hs))"
  by (induction hs arbitrary: sv) (auto simp: registered_def)

lemma addHandlers_result:
  "addHandlers env sv service hs (Some g) =
     (if list_ex SIDRequired (dropWhile SIDRequired hs) then Inl ''SID required but no session getter provided''
      else Inr (foldl (registered env service g) sv hs))"
  by (induction hs arbitrary: sv) (auto simp: addHandlers_no_getter [where g = g] registered_def)

lemma late_session_index: "list_ex SIDRequired (dropWhile SIDRequired hs) \<longleftrightarrow>
    (\<exists>i j. i < j \<and> j < length hs \<and> \<not> SIDRequired (hs ! i) \<and> SIDRequired (hs ! j))"
proof (induction hs)
  case Nil
  then show ?case by simp
next
  case (Cons h hs)
  have "(\<exists>i j. i < j \<and> j < length (h # hs) \<and> \<not> SIDRequired ((h # hs) ! i) \<and> SIDRequired ((h # hs) ! j)) \<longleftrightarrow>
      (\<not> SIDRequired h \<and> (\<exists>j<length hs. SIDRequired (hs ! j))) \<or>
      (\<exists>i j. i < j \<and> j < length hs \<and> \<not> SIDRequired (hs ! i) \<and> SIDRequired (hs ! j))"
    (is "?l \<longleftrightarrow> ?r")
  proof
    assume ?l
    then obtain i j where ij: "i < Suc j" "j < length hs" "\<not> SIDRequired ((h # hs) ! i)" "SIDRequired (hs ! j)"
      by (metis One_nat_def Suc_less_eq length_Cons less_nat_zero_code nth_Cons_Suc old.nat.exhaust)
    then show ?r by (cases i) auto
  next
    assume ?r
    then show ?l
    proof
      assume "\<not> SIDRequired h \<and> (\<exists>j<length hs. SIDRequired (hs ! j))"
      then obtain j where "j < length hs" "SIDRequired (hs ! j)" "\<not> SIDRequired h" by blast
      then show ?l by (intro exI [of _ 0] exI [of _ "Suc j"]) simp
    next
      assume "\<exists>i j. i < j \<and> j < length hs \<and> \<not> SIDRequired (hs ! i) \<and> SIDRequired (hs ! j)"
      then obtain i j where "i < j" "j < length hs" "\<not> SIDRequired (hs ! i)" "SIDRequired (hs ! j)" by blast
      then show ?l by (intro exI [of _ "Suc i"] exI [of _ "Suc j"]) simp
    qed
  qed
  moreover have "list_ex SIDRequired hs \<longleftrightarrow> (\<exists>j<length hs. SIDRequired (hs ! j))" by (simp add: list_ex_length)
  ultimately show ?case using Cons by (cases "SIDRequired h") auto
qed

lemma registered_routes:
  "set (routes (router (foldl (registered env service g) sv hs))) =
     set (routes (router sv)) \<union> (\<lambda>h. (HMethod h, ''/'' @ TrimPrefix (Path h) ''/'', \<lambda>r w st. instrumentationMiddleware (parseForm env) (newUUID env r st)
       (elapsed env r st) (Func h) service (Endpoint h) (if SIDRequired h then Some g else None) r w st)) ` set hs"
  by (induction hs arbitrary: sv) (auto simp: registered_def HandleFunc_def router_HandleFunc_def)

lemma start_services_routes:
  assumes "start_services env sv svcs names = Inr sv'"
  shows "set (routes (router sv)) \<subseteq> set (routes (router sv'))"
    "n \<in> set names \<Longrightarrow> svcs n = Some svc \<Longrightarrow> h \<in> set (GetHandlers svc) \<Longrightarrow>
      \<exists>f. (HMethod h, ''/'' @ TrimPrefix (Path h) ''/'', f) \<in> set (routes (router sv'))"
  using assms
proof (induction names arbitrary: sv)
  case (Cons k ns)
  {
    case 1
    then show ?case using Cons.IH(1)
      by (fastforce simp: addHandlers_result registered_routes split: option.splits sum.splits if_splits)
  next
    case 2
    show ?case
    proof (cases "n = k")
      case True
      with 2 have "start_services env (foldl (registered env n (GetSessionData svc)) sv (GetHandlers svc)) svcs ns = Inr sv'"
        by (auto simp: addHandlers_result split: sum.splits if_splits)
      from Cons.IH(1) [OF this] show ?thesis using 2(3) by (auto simp: registered_routes)
    next
      case False
      with 2 Cons.IH(2) show ?thesis by (auto split: option.splits sum.splits)
    qed
  }
qed simp_all

subsection \<open>Reachable states\<close>

text \<open>\<open>goal\<close> is what registering all handlers gives.\<close>

definition life_inv :: "('d, 'l, 'a) run_env \<Rightarrow> (string \<rightharpoonup> ('d, ('l, 'a) srv) Service) \<Rightarrow> string + ('d, 'l, 'a) httpserver \<Rightarrow>
    ('d, 'l, 'a) life \<Rightarrow> bool" where
  "life_inv env svcs goal l \<longleftrightarrow> GService ''app'' \<notin> running l \<and> ''app'' \<notin> set (to_start l) \<and>
     serviceReady (life_status l) ''app'' = Some (life_phase l = Serving) \<and>
     (life_phase l = Starting \<longrightarrow> start_services env (life_server l) svcs (to_start l) = goal) \<and>
     (life_phase l = Serving \<longrightarrow> goal = Inr (life_server l)) \<and>
     (life_phase l > Serving \<longrightarrow> running l = {}) \<and> (first_err l \<noteq> None \<longrightarrow> ctx_done l) \<and>
     (life_phase l = Serving \<and> GTerm \<notin> running l \<longrightarrow> ctx_done l \<and> listening l) \<and>
     (life_phase l = Draining \<longrightarrow> listening l)"

lemma finish_simps [simp]:
  "running (finish g e l) = running l - {g}" "life_phase (finish g e l) = life_phase l"
  "life_status (finish g e l) = life_status l" "life_log (finish g e l) = life_log l"
  "ctx_done (finish g e l) = (ctx_done l \<or> e \<noteq> None)" "listening (finish g e l) = listening l" "to_start (finish g e l) = to_start l" "life_server (finish g e l) = life_server l"
  by (simp_all add: finish_def)

lemma status_step_other:
  "own_report n ev \<Longrightarrow> n \<noteq> m \<Longrightarrow> serviceReady (status_step st ev) m = serviceReady st m"
  by (cases ev) (auto simp: Ready_def NotReady_def Dead_def ready_def notReady_def dead_def)

lemma phase_simps [simp]:
  "p \<le> Serving \<longleftrightarrow> p = Starting \<or> p = Serving" "p > Serving \<longleftrightarrow> p = Draining \<or> p = Terminated"
  by (cases p; simp add: less_eq_phase_def less_phase_def)+

lemma status_report_simps [simp]:
  "serviceReady (Ready st rep) = (serviceReady st)(serviceName rep \<mapsto> True)" "serviceReady (NotReady st rep) = (serviceReady st)(serviceName rep \<mapsto> False)"
  by (simp_all add: Ready_def ready_def NotReady_def notReady_def)

lemma finish_inv:
  assumes "life_inv env svcs goal l" and "life_phase l \<le> Serving" and "g \<noteq> GTerm \<or> ctx_done l \<and> listening l"
  shows "life_inv env svcs goal (finish g err l)"
  using assms by (auto simp: life_inv_def finish_def)

lemma crash_inv: "life_inv env svcs goal l \<Longrightarrow> life_inv env svcs goal (crash l)"
  by (auto simp: life_inv_def crash_def GetServiceReporter_def New_status_def)

lemma life_inv_step [inv_rules]: "runEverything env svcs ss delay l l' \<Longrightarrow> life_inv env svcs goal l \<Longrightarrow> life_inv env svcs goal l'"
proof (induction rule: runEverything.induct)
  case (service_reports n l ev)
  then have "n \<noteq> ''app''" by (auto simp: life_inv_def)
  with service_reports status_step_other [of n ev "''app''" "life_status l"] show ?case
    by (simp add: life_inv_def)
next
  case (signal l sig)
  then show ?case by (simp add: life_inv_def finish_def)
next
  case (start_fatal l n ns svc e)
  then have "life_inv env svcs goal (crash l)" by (intro crash_inv)
  moreover have "life_inv env svcs goal (l'\<lparr>life_log := x\<rparr>) = life_inv env svcs goal l'" for l' x by (simp add: life_inv_def)
  ultimately show ?case by simp
qed (simp_all add: finish_inv crash_inv, (simp add: life_inv_def appReporter_def)+)

lemma life_inv_start:
  "''app'' \<notin> set names \<Longrightarrow> serviceReady st ''app'' = Some False \<Longrightarrow>
    life_inv env svcs (start_services env sv svcs names) (life_start sv st names)"
  by (simp add: life_inv_def life_start_def)

lemma life_inv_reachable:
  assumes "(runEverything env svcs ss delay)\<^sup>*\<^sup>* (life_start sv st names) l" and "''app'' \<notin> set names" and "serviceReady st ''app'' = Some False"
  shows "life_inv env svcs (start_services env sv svcs names) l"
  using assms(1) by (induction rule: rtranclp_induct) (auto intro: life_inv_start [OF assms(2,3)] life_inv_step)

text \<open>
  The way down: once the context is done and the services have returned, every step takes
  one goroutine away or leads to the next phase, and there is a step until the process has
  ended.  \<open>e0\<close> is an error that the group had before.
\<close>

definition last_line :: "string option \<Rightarrow> log_call" where
  "last_line err = (case err of
      Some e \<Rightarrow> LogCall ''error'' ''terminated with error'' [(''error'', e)]
    | None \<Rightarrow> LogCall ''info'' ''terminated successfully'' [])"

definition closing :: "string option \<Rightarrow> ('d, 'l, 'a) life \<Rightarrow> bool" where
  "closing e0 l \<longleftrightarrow> ctx_done l \<and> listening l \<and> running l \<subseteq> {GStat, GHttp, GTerm} \<and> (e0 \<noteq> None \<longrightarrow> first_err l = e0) \<and>
     (case life_phase l of
        Starting \<Rightarrow> False
      | Serving \<Rightarrow> True
      | Draining \<Rightarrow> running l = {}
      | Terminated \<Rightarrow> running l = {} \<and> last (life_log l) = last_line (first_err l))"

definition steps_left :: "('d, 'l, 'a) life \<Rightarrow> nat" where
  "steps_left l = card (running l) + (3 - phase_rank (life_phase l))"

lemma finish_closing:
  assumes "closing e0 l" and "life_phase l \<le> Serving" and "g \<in> running l"
  shows "closing e0 (finish g err l) \<and> Suc (steps_left (finish g err l)) = steps_left l"
proof -
  have "finite (running l)" using assms(1) finite_subset [of "running l" "{GStat, GHttp, GTerm}"] by (simp add: closing_def)
  then have "Suc (card (running l - {g})) = card (running l)" using assms(3) by (rule card_Suc_Diff1)
  moreover have "life_phase l = Serving" using assms(1,2) by (auto simp: closing_def)
  ultimately show ?thesis using assms(1) by (auto simp: closing_def steps_left_def finish_def)
qed

lemma closing_step:
  assumes "runEverything env svcs ss delay l l'" and "closing e0 l"
  shows "closing e0 l' \<and> Suc (steps_left l') = steps_left l"
  using assms
proof (induction rule: runEverything.induct)
  case (signal l sig)
  then have "closing e0 (finish GTerm None l) \<and> Suc (steps_left (finish GTerm None l)) = steps_left l" by (intro finish_closing) simp_all
  then show ?case using signal by (simp add: closing_def steps_left_def)
next
  case (term_ctx l)
  then show ?case by (intro finish_closing) simp_all
next
  case (ended l)
  then show ?case by (simp add: closing_def steps_left_def last_line_def)
qed ((rule finish_closing; (assumption | simp)) | (auto simp: closing_def steps_left_def))+

lemma closing_run:
  assumes "(runEverything env svcs ss delay ^^ n) l l'" and "closing e0 l"
  shows "closing e0 l' \<and> steps_left l' + n = steps_left l"
  using assms
proof (induction n arbitrary: l')
  case (Suc n)
  then obtain l1 where l1: "(runEverything env svcs ss delay ^^ n) l l1" "runEverything env svcs ss delay l1 l'" by auto
  then have "closing e0 l1 \<and> steps_left l1 + n = steps_left l" using Suc by simp
  with closing_step [OF l1(2)] show ?case by fastforce
qed simp

lemma closing_progress:
  assumes "closing e0 l" and "life_phase l \<noteq> Terminated"
  shows "\<exists>l'. runEverything env svcs ss delay l l'"
proof (cases "life_phase l = Serving \<and> running l \<noteq> {}")
  case True
  then obtain g where g: "g \<in> running l" by blast
  then have "g \<in> {GStat, GHttp, GTerm}" using assms(1) by (auto simp: closing_def)
  with g True assms(1) show ?thesis
    using runEverything.stat_stops [of l env svcs ss delay] runEverything.http_stops [of l env svcs ss delay]
      runEverything.term_ctx [of l env svcs ss delay]
    by (auto simp: closing_def)
next
  case False
  then show ?thesis
    using assms runEverything.waited [of l env svcs ss delay] runEverything.ended [of l env svcs ss delay]
    by (cases "life_phase l") (auto simp: closing_def)
qed

subsection \<open>Properties\<close>

text \<open>A small environment and application on which the properties are evaluated.\<close>

definition sample_run_env :: "(unit, unit, nat) run_env" where
  "sample_run_env = \<lparr>maxprocs_err = None, register = (\<lambda>pre n g. (None, (pre @ n) # g)), logger_build = None, sentry_init = (\<lambda>_ _. None),
     bucketValues = [], tls = sample_env, mkLimiter = (\<lambda>_ _. ()), allow = (\<lambda>l. (True, l)), sentryHandler = (\<lambda>h. h), parseForm = (\<lambda>r. r),
     newUUID = (\<lambda>_ _. ''id''), elapsed = (\<lambda>_ _. (0, 0))\<rparr>"

definition sample_application :: "string \<Rightarrow> (unit, (unit, nat) srv) ServiceFactory application" where
  "sample_application name = \<lparr>serviceDefs = [name \<mapsto> \<lparr>rs_Name = name, rs_Config = APtr (AStruct ''T'' []),
     rs_Factory = (\<lambda>_ _. Inr \<lparr>GetSessionData = (\<lambda>_. Inr ()), GetHandlers = []\<rparr>)\<rparr>], app_cfg = zero_Config, cfgPath = ''''\<rparr>"

definition sample_httpserver :: "(unit, unit, nat) httpserver" where
  "sample_httpserver = \<lparr>srv_name = ''http'', cfg = sample_config, router = New_router, chain = (\<lambda>h. h), srv_ReadTimeout = 0,
     listener = PlainListener 3\<rparr>"

text \<open>
  C39: a service's handlers are all registered, in order and each with the session
  getter exactly if it requires a session, unless a handler that requires a session comes
  after one that does not: then the process is ended, because the first handler without a
  session clears the getter for all that follow.
\<close>

theorem addHandlers_needs_sessions_first:
  "addHandlers env sv service hs (Some g) =
     (if \<exists>i j. i < j \<and> j < length hs \<and> \<not> SIDRequired (hs ! i) \<and> SIDRequired (hs ! j)
      then Inl ''SID required but no session getter provided''
      else Inr (foldl (\<lambda>sv h. HandleFunc (parseForm env) (newUUID env) (elapsed env) sv service (Endpoint h) (HMethod h)
             (Path h) (Func h) (if SIDRequired h then Some g else None)) sv hs))"
  by (simp only: addHandlers_result late_session_index registered_def [abs_def])

text \<open>
  A service registered under the name \<open>app\<close> can never be started, whatever the
  configuration and the order in which the services are created: the set-up ends the
  process, because the application itself reports its status under that name.
\<close>

theorem service_named_app_is_fatal:
  assumes "serviceDefs a ''app'' = Some reg" and "orders iter (serviceDefs a)"
  shows "\<exists>e. Run_setup env iter a st0 = Inl e"
proof -
  have "''app'' \<in> set (iter (serviceDefs a))" using assms by (auto simp: orders_def)
  moreover have "serviceReady (snd (GetServiceReporter New_status ''app'')) ''app'' \<noteq> None"
    by (simp add: GetServiceReporter_def New_status_def)
  ultimately have "\<exists>e. create_services a opts (snd (GetServiceReporter New_status ''app'')) Map.empty (iter (serviceDefs a)) = Inl e" for opts
    using create_services_taken assms(1) by blast
  then show ?thesis
    by (auto simp: Run_setup_def Let_def split: option.splits sum.splits prod.splits) (metis Inl_Inr_False)
qed

theorem service_named_app_is_fatal_witness:
  "\<exists>e. Run_setup sample_run_env (\<lambda>_. [''app'']) (sample_application ''app'') 0 = Inl e"
  by (rule service_named_app_is_fatal [where reg = "the (serviceDefs (sample_application ''app'') ''app'')"])
    (simp_all add: sample_application_def orders_def)

lemma setup_result:
  assumes "Run_setup env iter a st0 = Inr (sv, ss, st, svcs)" and "orders iter (serviceDefs a)"
  shows "dom svcs = dom (serviceDefs a)" "dom (serviceReady st) = insert ''app'' (dom (serviceDefs a))"
    "\<And>n. n \<in> dom (serviceReady st) \<Longrightarrow> serviceReady st n = Some False"
proof -
  let ?st = "snd (GetServiceReporter New_status ''app'')"
  have st: "serviceReady ?st = [''app'' \<mapsto> False]" by (simp add: GetServiceReporter_def New_status_def)
  from assms(1) obtain opts where cr: "create_services a opts ?st Map.empty (iter (serviceDefs a)) = Inr (st, svcs)"
    by (auto simp: Run_setup_def Let_def split: option.splits sum.splits prod.splits)
  have "set (iter (serviceDefs a)) = dom (serviceDefs a)" using assms(2) by (simp add: orders_def)
  then have r: "dom svcs = dom (serviceDefs a)" "dom (serviceReady st) = {''app''} \<union> dom (serviceDefs a)" "\<forall>n. serviceReady st n \<noteq> Some True"
    using create_services_result [OF cr] st by (simp_all split: if_splits)
  show "dom svcs = dom (serviceDefs a)" by (rule r(1))
  show "dom (serviceReady st) = insert ''app'' (dom (serviceDefs a))" using r(2) by simp
  fix n assume "n \<in> dom (serviceReady st)"
  then obtain b where "serviceReady st n = Some b" by blast
  with r(3) show "serviceReady st n = Some False" by (cases b) auto
qed

text \<open>
  After a successful set-up there is one service per registration, and the status
  reporter knows the application and exactly these services, none of them ready: the
  readiness endpoint answers 500 until the application and every service have reported.
\<close>

theorem setup_starts_not_ready:
  assumes "Run_setup env iter a st0 = Inr (sv, ss, st, svcs)" and "orders iter (serviceDefs a)"
    and "orders iter' (serviceReady st)"
  shows "dom svcs = dom (serviceDefs a) \<and> dom (serviceReady st) = insert ''app'' (dom (serviceDefs a)) \<and>
    (\<forall>n\<in>dom (serviceReady st). serviceReady st n = Some False) \<and> \<not> IsReady iter' st"
proof -
  note r = setup_result [OF assms(1,2)]
  have app: "''app'' \<in> dom (serviceReady st)" using r(2) by simp
  then have "''app'' \<in> unready_names st" using r(3) [OF app] by (simp add: unready_names_def)
  then have "\<not> IsReady iter' st" using IsReady_iff [OF assms(3)] by auto
  then show ?thesis using r(1,2) r(3) by (intro conjI ballI) (assumption | rule r)+
qed

theorem setup_starts_not_ready_witness:
  "\<exists>sv ss st svcs. Run_setup sample_run_env (\<lambda>_. [''db'']) (sample_application ''db'') 0 = Inr (sv, ss, st, svcs) \<and>
     dom svcs = {''db''} \<and> \<not> IsReady (\<lambda>_. [''app'', ''db'']) st"
proof -
  obtain sv ss st svcs where eq: "Run_setup sample_run_env (\<lambda>_. [''db'']) (sample_application ''db'') 0 = Inr (sv, ss, st, svcs)"
    and rd: "serviceReady st = [''app'' \<mapsto> False, ''db'' \<mapsto> False]"
    by (auto simp: Run_setup_def sample_run_env_def sample_application_def NewServer_def Validate_def InitListener_def newListener_def
        view_zero sample_env_def GetServiceReporter_def New_status_def NewRegistry_def Utilities.Get_def Logger.New_def NewService_def
        Handler_metrics_def GetHandler_def Let_def)
  have "orders (\<lambda>_. [''db'']) (serviceDefs (sample_application ''db''))"
    by (simp add: sample_application_def orders_def)
  moreover have "orders (\<lambda>_. [''app'', ''db'']) (serviceReady st)" by (auto simp: rd orders_def)
  ultimately show ?thesis using setup_starts_not_ready [OF eq] eq by (auto simp: sample_application_def)
qed

text \<open>
  C30: from the moment all handlers are registered, and as long as the stat server
  serves, the application is reported ready: the report \<open>NotReady\<close> of the shutdown comes
  only after every goroutine has ended, the stat server among them, so no readiness probe
  can see it.
\<close>

theorem shutdown_report_is_never_served:
  assumes "(runEverything env svcs ss delay)\<^sup>*\<^sup>* (life_start sv st names) l" and "''app'' \<notin> set names"
    and "serviceReady st ''app'' = Some False" and "life_phase l \<noteq> Starting"
  shows "(GStat \<in> running l \<longrightarrow> serviceReady (life_status l) ''app'' = Some True) \<and>
    (serviceReady (life_status l) ''app'' \<noteq> Some True \<longrightarrow> running l = {})"
proof -
  have "life_inv env svcs (start_services env sv svcs names) l" by (rule life_inv_reachable [OF assms(1-3)])
  then show ?thesis using assms(4) by (cases "life_phase l") (auto simp: life_inv_def)
qed

definition sample_life :: "(unit, unit, nat) life" where
  "sample_life = (life_start sample_httpserver (snd (GetServiceReporter New_status ''app'')) [])\<lparr>life_phase := Serving,
     life_status := Ready (snd (GetServiceReporter New_status ''app'')) appReporter, running := {GTerm, GStat, GHttp}, listening := True\<rparr>"

lemma sample_life_reachable:
  "(runEverything sample_run_env Map.empty (New_stat 8081) 0)\<^sup>*\<^sup>* (life_start sample_httpserver (snd (GetServiceReporter New_status ''app'')) []) sample_life"
  (is "?R\<^sup>*\<^sup>* ?s _")
proof -
  let ?l = "?s\<lparr>life_phase := Serving, life_status := Ready (life_status ?s) appReporter, running := insert GTerm (running ?s)\<rparr>"
  have "?R ?s ?l" by (rule runEverything.announced) (simp_all add: life_start_def)
  moreover have "?R ?l (?l\<lparr>listening := True\<rparr>)" by (rule runEverything.listens) (simp_all add: life_start_def)
  ultimately have "?R\<^sup>*\<^sup>* ?s (?l\<lparr>listening := True\<rparr>)" by simp
  then show ?thesis by (simp add: sample_life_def life_start_def)
qed

theorem shutdown_report_is_never_served_witness:
  "serviceReady (life_status sample_life) ''app'' = Some True"
  using shutdown_report_is_never_served [OF sample_life_reachable]
  by (simp add: sample_life_def GetServiceReporter_def New_status_def)

text \<open>
  C7: a readiness probe is answered positively only when the application is completely
  set up: as soon as the status of a running application is ready, every handler of every
  service is registered at the HTTP server, under its method and path, and the loop that
  registers them did not end the process.
\<close>

theorem ready_only_with_all_handlers:
  assumes "(runEverything env svcs ss delay)\<^sup>*\<^sup>* (life_start sv st names) l" and "''app'' \<notin> set names"
    and "serviceReady st ''app'' = Some False" and "orders iter (serviceReady (life_status l))" and "IsReady iter (life_status l)"
  shows "life_phase l = Serving \<and> start_services env sv svcs names = Inr (life_server l) \<and>
    (\<forall>n \<in> set names. \<forall>svc h. svcs n = Some svc \<and> h \<in> set (GetHandlers svc) \<longrightarrow>
       (\<exists>f. (HMethod h, ''/'' @ TrimPrefix (Path h) ''/'', f) \<in> set (routes (router (life_server l)))))"
proof -
  have inv: "life_inv env svcs (start_services env sv svcs names) l" by (rule life_inv_reachable [OF assms(1-3)])
  have "''app'' \<notin> unready_names (life_status l)" using IsReady_iff [OF assms(4)] assms(5) by auto
  then have "life_phase l = Serving" using inv by (auto simp: unready_names_def life_inv_def)
  then show ?thesis using inv start_services_routes [of env sv svcs names "life_server l"] by (auto simp: life_inv_def)
qed

definition sample_service :: "(unit, (unit, nat) srv) Service" where
  "sample_service = \<lparr>GetSessionData = (\<lambda>_. Inr ()), GetHandlers = [\<lparr>Endpoint = ''get'', HMethod = ''GET'', Path = ''/get'',
     Func = (\<lambda>r w s. HReturn w s 200 None), SIDRequired = False\<rparr>]\<rparr>"

theorem ready_only_with_all_handlers_witness:
  "\<exists>l. (runEverything sample_run_env [''db'' \<mapsto> sample_service] (New_stat 8081) 0)\<^sup>*\<^sup>*
       (life_start sample_httpserver \<lparr>appAlive = True, serviceReady = [''app'' \<mapsto> False, ''db'' \<mapsto> False]\<rparr> [''db'']) l \<and>
     IsReady (\<lambda>_. [''app'', ''db'']) (life_status l) \<and> (\<exists>f. (''GET'', ''/get'', f) \<in> set (routes (router (life_server l))))"
proof -
  let ?svcs = "[''db'' \<mapsto> sample_service]"
  let ?R = "runEverything sample_run_env ?svcs (New_stat 8081) 0"
  let ?s = "life_start sample_httpserver \<lparr>appAlive = True, serviceReady = [''app'' \<mapsto> False, ''db'' \<mapsto> False]\<rparr> [''db'']"
  obtain sv where sv: "addHandlers sample_run_env sample_httpserver ''db'' (GetHandlers sample_service) (Some (GetSessionData sample_service)) = Inr sv"
    by (simp add: sample_service_def)
  let ?l1 = "?s\<lparr>running := insert (GService ''db'') (running ?s), to_start := [], life_server := sv\<rparr>"
  let ?l2 = "?l1\<lparr>life_status := status_step (life_status ?l1) (ReportReady ''db'')\<rparr>"
  let ?l3 = "?l2\<lparr>life_phase := Serving, life_status := Ready (life_status ?l2) appReporter, running := insert GTerm (running ?l2)\<rparr>"
  have "?R ?s ?l1" by (rule runEverything.service_starts [where svc = sample_service]) (simp_all add: life_start_def sv)
  moreover have "?R ?l1 ?l2" by (rule runEverything.service_reports [where n = "''db''"]) simp_all
  moreover have "?R ?l2 ?l3" by (rule runEverything.announced) (simp_all add: life_start_def)
  ultimately have reach: "?R\<^sup>*\<^sup>* ?s ?l3" by (meson rtranclp.rtrancl_into_rtrancl rtranclp.rtrancl_refl)
  have st: "serviceReady (life_status ?l3) = [''app'' \<mapsto> True, ''db'' \<mapsto> True]"
    by (auto simp: life_start_def appReporter_def fun_upd_twist)
  have "orders (\<lambda>_. [''app'', ''db'']) (serviceReady (life_status ?l3))" "IsReady (\<lambda>_. [''app'', ''db'']) (life_status ?l3)"
    unfolding IsReady_def st by (auto simp: orders_def)
  from ready_only_with_all_handlers [OF reach _ _ this] this(2) reach show ?thesis
    by (intro exI [of _ ?l3]) (auto simp: sample_service_def TrimPrefix_def HasPrefix_def)
qed

text \<open>
  The API server is started before the loop that registers the handlers, so a client can
  reach it while routes are still missing.
\<close>

lemma served_before_handlers:
  "routes (router sv) = [] \<Longrightarrow> \<exists>l. (runEverything env svcs ss delay)\<^sup>*\<^sup>* (life_start sv st names) l \<and>
     GHttp \<in> running l \<and> to_start l = names \<and> routes (router (life_server l)) = []"
  by (intro exI [of _ "life_start sv st names"]) (simp add: life_start_def)

text \<open>
  C11: in every reachable state in which the context is cancelled or some goroutine has
  failed, and in which the signals are caught and all services have returned, the process ends:
  no run from there makes more than five steps, a run that stops has reached the end of the
  process with no goroutine left, and its last log line is the error of the group, or the
  report of success if there is none.  An error that the group has is kept, so the error that is logged is
  the first.  A failed goroutine always cancels the context, so the other ones are told to stop.
\<close>

theorem cancelled_application_terminates:
  assumes "(runEverything env svcs ss delay)\<^sup>*\<^sup>* (life_start sv st names) l" and "''app'' \<notin> set names"
    and "serviceReady st ''app'' = Some False" and "ctx_done l \<or> first_err l \<noteq> None" and "\<forall>n. GService n \<notin> running l"
    and "life_phase l = Serving" and "listening l"
  shows "ctx_done l \<and> (\<forall>n l'. (runEverything env svcs ss delay ^^ n) l l' \<longrightarrow>
    n \<le> 5 \<and> (\<forall>e. first_err l = Some e \<longrightarrow> first_err l' = Some e) \<and>
    ((\<forall>l''. \<not> runEverything env svcs ss delay l' l'') \<longrightarrow> life_phase l' = Terminated \<and> running l' = {} \<and>
      last (life_log l') = (case first_err l' of
          Some e \<Rightarrow> LogCall ''error'' ''terminated with error'' [(''error'', e)]
        | None \<Rightarrow> LogCall ''info'' ''terminated successfully'' [])))"
proof -
  have "life_inv env svcs (start_services env sv svcs names) l" by (rule life_inv_reachable [OF assms(1-3)])
  then have ctx: "ctx_done l" using assms(4) by (auto simp: life_inv_def)
  have "g \<in> {GStat, GHttp, GTerm}" if "g \<in> running l" for g
    using assms(5) that by (cases g) auto
  then have sub: "running l \<subseteq> {GStat, GHttp, GTerm}" by blast
  then have cl: "closing (first_err l) l" using ctx assms(6,7) by (simp add: closing_def)
  have "card (running l) \<le> 3" using card_mono [OF _ sub] by simp
  then have five: "steps_left l \<le> 5" using assms(6) by (simp add: steps_left_def)
  show ?thesis
  proof (intro conjI allI impI)
    fix n l' assume "(runEverything env svcs ss delay ^^ n) l l'"
    from closing_run [OF this cl] have c: "closing (first_err l) l'" and n: "steps_left l' + n = steps_left l" by auto
    show "n \<le> 5" using n five by simp
    show "first_err l' = Some e" if "first_err l = Some e" for e using that c by (simp add: closing_def)
    assume "\<forall>l''. \<not> runEverything env svcs ss delay l' l''"
    then have t: "life_phase l' = Terminated" using closing_progress [OF c] by blast
    then show "life_phase l' = Terminated" "running l' = {}" "last (life_log l') = (case first_err l' of
          Some e \<Rightarrow> LogCall ''error'' ''terminated with error'' [(''error'', e)]
        | None \<Rightarrow> LogCall ''info'' ''terminated successfully'' [])"
      using c by (auto simp: closing_def last_line_def)
  qed (rule ctx)
qed

theorem cancelled_application_terminates_witness:
  "\<exists>l. (runEverything sample_run_env Map.empty (New_stat 8081) 0)\<^sup>*\<^sup>* sample_life l \<and> life_phase l = Serving \<and> first_err l = Some ''api server: failed to start server: in use'' \<and>
     (\<forall>n l'. (runEverything sample_run_env Map.empty (New_stat 8081) 0 ^^ n) l l' \<longrightarrow> n \<le> 5 \<and> first_err l' = first_err l)"
proof -
  let ?R = "runEverything sample_run_env Map.empty (New_stat 8081) 0"
  let ?l = "finish GHttp (wrap_err ''api server'' (fst (Server.Run (life_server sample_life) (ServeReturned (Some ''in use''))))) sample_life"
  have step: "?R sample_life ?l"
    by (rule runEverything.http_fails) (simp_all add: sample_life_def)
  with sample_life_reachable have reach: "?R\<^sup>*\<^sup>* (life_start sample_httpserver (snd (GetServiceReporter New_status ''app'')) []) ?l"
    by (rule rtranclp.rtrancl_into_rtrancl)
  have e: "first_err ?l = Some ''api server: failed to start server: in use''"
    by (simp add: finish_def sample_life_def life_start_def wrap_err_def Server.Run_def Let_def)
  have "\<forall>n l'. (?R ^^ n) ?l l' \<longrightarrow> n \<le> 5 \<and> first_err l' = first_err ?l"
  proof (intro allI impI)
    fix n l' assume run: "(?R ^^ n) ?l l'"
    have "GService m \<notin> running ?l" for m by (simp add: sample_life_def)
    then show "n \<le> 5 \<and> first_err l' = first_err ?l"
      using cancelled_application_terminates [OF reach, THEN conjunct2, rule_format, OF _ _ _ _ _ _ run] e
      by (simp add: sample_life_def GetServiceReporter_def New_status_def)
  qed
  moreover have "?R\<^sup>*\<^sup>* sample_life ?l" "life_phase ?l = Serving" using step by (auto simp: sample_life_def)
  ultimately show ?thesis using e by (intro exI [of _ ?l] conjI)
qed

text \<open>
  Between the report of readiness and the call of \<open>signal.Notify\<close> in the new goroutine, a
  signal ends a process that is reported ready without any shutdown.
\<close>

lemma ready_process_can_be_killed:
  assumes "life_phase l = Starting" and "to_start l = []" and "\<not> listening l"
  shows "\<exists>l1 l2. runEverything env svcs ss delay l l1 \<and> serviceReady (life_status l1) ''app'' = Some True \<and>
    runEverything env svcs ss delay l1 l2 \<and> life_phase l2 = Terminated \<and> life_log l2 = life_log l"
proof -
  let ?l1 = "l\<lparr>life_phase := Serving, life_status := Ready (life_status l) appReporter, running := insert GTerm (running l)\<rparr>"
  have "runEverything env svcs ss delay l ?l1" using assms(1,2) by (rule runEverything.announced)
  moreover have "runEverything env svcs ss delay ?l1 (crash ?l1)" using assms(3) by (intro runEverything.killed) simp_all
  ultimately show ?thesis by (intro exI [of _ ?l1] exI [of _ "crash ?l1"]) (simp add: crash_def appReporter_def)
qed

end
