(* ===== verification/Streams.thy ===== *)
theory Streams
  imports Prelude "HOL-Library.Sublist"
begin

text \<open>
  The stream demultiplexer of the container manager (\<open>streamOutput\<close> in
  src/containermanager/containers.go).  The reader is the bytes that remain, the error
  \<open>fin\<close> behind them, \<open>None\<close> for \<open>io.EOF\<close>, and a script of what the calls of \<open>Read\<close> for
  payload bytes do, one entry per call: how many bytes the call would like to return -
  zero is a call that returns nothing and no error - and whether the error comes with the
  last bytes or only with the next call, as \<open>bufio.Reader\<close> lets it for reads that go past
  its buffer.  A call gives no more than it was asked for and no more than there is; behind
  the script calls give all they can.  \<open>io.ReadFull\<close> for a header joins such calls and drops an
  error that comes with the last byte it needs.  \<open>stopped k\<close> says whether the stop
  channel is closed at the k-th look.  What was sent is the list of channels and chunks; a
  send on the nil channel of an unknown stream type never returns.
\<close>

type_synonym byte = "8 word"

datatype stream_chan = ToStdout | ToStderr

datatype stream_end = EndEOF | EndError string string | EndStopped | EndBlocked

definition bufLength :: nat where
  "bufLength = 120 * 1024"

definition BigEndian_Uint32 :: "byte list \<Rightarrow> nat" where
  "BigEndian_Uint32 bs = foldl (\<lambda>n b. 256 * n + unat b) 0 bs"

definition stream_channel :: "byte \<Rightarrow> stream_chan option" where
  "stream_channel t = (if t = 1 then Some ToStdout else if t = 2 then Some ToStderr else None)"

type_synonym read_script = "(nat \<times> bool) list"

text \<open>
  One call of \<open>Read\<close>: the bytes it returns, whether it returns the error, the bytes that
  remain and the rest of the script.
\<close>

definition reader_Read :: "read_script \<Rightarrow> nat \<Rightarrow> byte list \<Rightarrow> byte list \<times> bool \<times> byte list \<times> read_script" where
  "reader_Read rd req rest =
     (let (want, eager) = (case rd of [] \<Rightarrow> (req, False) | x # _ \<Rightarrow> x);
          n = min want (min req (length rest))
      in (take n rest, 0 < want \<and> (rest = [] \<or> eager \<and> 0 < n \<and> n = length rest), drop n rest, tl rd))"

text \<open>How a call ends when the reader has no more bytes: only another error than \<open>io.EOF\<close> is logged.\<close>

definition end_of :: "string \<Rightarrow> string option \<Rightarrow> stream_end" where
  "end_of msg fin = (case fin of None \<Rightarrow> EndEOF | Some e \<Rightarrow> EndError msg e)"

text \<open>
  The inner loop: \<open>left\<close> bytes of the frame are to come.  It returns what was sent,
  and either how the whole call ended or the rest of the stream, of the script and the
  counter of looks.  Bytes that are returned together with an error are not sent.
\<close>

function stream_frame :: "(nat \<Rightarrow> bool) \<Rightarrow> string option \<Rightarrow> stream_chan option \<Rightarrow> read_script \<Rightarrow> nat \<Rightarrow> nat \<Rightarrow> byte list \<Rightarrow>
    (stream_chan \<times> byte list) list \<times> (stream_end + byte list \<times> read_script \<times> nat)" where
  "stream_frame stopped fin ch rd k left rest =
     (if left = 0 then ([], Inr (rest, rd, k))
      else case reader_Read rd (min bufLength left) rest of
        (b, err, rest', rd') \<Rightarrow>
          if err then ([], Inl (end_of ''reading stream'' fin))
          else if stopped k then ([], Inl EndStopped)
          else case ch of
             None \<Rightarrow> ([], Inl EndBlocked)
           | Some c \<Rightarrow> (case stream_frame stopped fin ch rd' (Suc k) (left - length b) rest' of
               (out, r) \<Rightarrow> ((c, b) # out, r)))"
  by pat_completeness auto

lemma reader_Read_shrinks:
  assumes "reader_Read rd req rest = (b, False, rest', rd')" and "0 < req"
  shows "length rd' + length rest' < length rd + length rest" and "rest = b @ rest'" and "length b \<le> req"
    and "rd' = tl rd"
proof -
  show "length rd' + length rest' < length rd + length rest"
    using assms by (cases rd) (auto simp: reader_Read_def Let_def split: prod.splits)
  show "rest = b @ rest'" and "length b \<le> req" and "rd' = tl rd"
    using assms by (auto simp: reader_Read_def Let_def split: prod.splits)
qed

termination stream_frame
proof (relation "measure (\<lambda>(_, _, _, rd, _, _, rest). length rd + length rest)", goal_cases)
  case 1
  then show ?case by simp
next
  case (2 stopped fin ch rd k left rest x b err p rest' rd')
  then have "reader_Read rd (min bufLength left) rest = (x, False, rest', rd')" and "0 < min bufLength left"
    by (auto simp: bufLength_def)
  from reader_Read_shrinks(1) [OF this] show ?case by simp
qed

declare stream_frame.simps [simp del]

text \<open>One round of the inner loop.\<close>

lemma stream_frame_round:
  assumes "0 < left"
  obtains (failed) b rest' rd' where "reader_Read rd (min bufLength left) rest = (b, True, rest', rd')"
      "\<And>st. stream_frame st fin ch rd k left rest = ([], Inl (end_of ''reading stream'' fin))"
  | (read) b rest' where "reader_Read rd (min bufLength left) rest = (b, False, rest', tl rd)" "rest = b @ rest'"
      "length b \<le> bufLength" "length b \<le> left" "length (tl rd) + length rest' < length rd + length rest"
      "\<And>st. stream_frame st fin ch rd k left rest = (if st k then ([], Inl EndStopped) else case ch of
          None \<Rightarrow> ([], Inl EndBlocked)
        | Some c \<Rightarrow> (case stream_frame st fin ch (tl rd) (Suc k) (left - length b) rest' of (out, r) \<Rightarrow> ((c, b) # out, r)))"
proof -
  obtain b err rest' rd' where r: "reader_Read rd (min bufLength left) rest = (b, err, rest', rd')" by (metis prod_cases4)
  have pos: "0 < min bufLength left" using assms by (simp add: bufLength_def)
  show thesis
  proof (cases err)
    case True
    then show ?thesis using r assms by (intro failed) (auto simp: stream_frame.simps [of _ fin])
  next
    case False
    from r False have r': "reader_Read rd (min bufLength left) rest = (b, False, rest', rd')" by simp
    note sh = reader_Read_shrinks [OF r' pos]
    show ?thesis
      using r False assms sh by (intro read [of b rest']) (auto simp: stream_frame.simps [of _ fin ch rd])
  qed
qed

lemma stream_frame_shrinks:
  assumes "stream_frame stopped fin ch rd k left rest = (out, Inr (rest', rd', k'))"
  shows "length rest' \<le> length rest"
  using assms
proof (induction "length rd + length rest" arbitrary: rd k left rest out rule: less_induct)
  case less
  show ?case
  proof (cases "left = 0")
    case True
    then show ?thesis using less.prems by (simp add: stream_frame.simps [of stopped])
  next
    case False
    then have "0 < left" by simp
    then show ?thesis
    proof (cases rule: stream_frame_round [where rd = rd and rest = rest and fin = fin and ch = ch and k = k])
      case failed
      then show ?thesis using less.prems by simp
    next
      case (read b rest1)
      from less.prems obtain out1 where "stream_frame stopped fin ch (tl rd) (Suc k) (left - length b) rest1 = (out1, Inr (rest', rd', k'))"
        by (auto simp: read(6) split: if_splits option.splits prod.splits)
      from less.hyps [OF read(5) this] read(2) show ?thesis by simp
    qed
  qed
qed

text \<open>
  The outer loop.  Fewer than eight bytes for a header end the call; only a partial
  header is an error.
\<close>

function streamOutput :: "(nat \<Rightarrow> bool) \<Rightarrow> string option \<Rightarrow> read_script \<Rightarrow> nat \<Rightarrow> byte list \<Rightarrow> (stream_chan \<times> byte list) list \<times> stream_end" where
  "streamOutput stopped fin rd k rest =
     (if length rest < 8 then ([], if rest = [] then end_of ''reading stream header'' fin
        else EndError ''reading stream header'' (case fin of None \<Rightarrow> ''unexpected EOF'' | Some e \<Rightarrow> e))
      else
        let streamType = hd rest;
            dataLen = BigEndian_Uint32 (take 4 (drop 4 rest))
        in case stream_frame stopped fin (stream_channel streamType) rd k dataLen (drop 8 rest) of
             (out, Inl e) \<Rightarrow> (out, e)
           | (out, Inr (rest', rd', k')) \<Rightarrow> (case streamOutput stopped fin rd' k' rest' of (out', e) \<Rightarrow> (out @ out', e)))"
  by pat_completeness auto
termination
proof (relation "measure (\<lambda>(_, _, _, _, rest). length rest)", goal_cases)
  case 1
  then show ?case by simp
next
  case (2 stopped fin rd k rest x xa out y p rest' q rd' k')
  then have "stream_frame stopped fin (stream_channel x) rd k xa (drop 8 rest) = (out, Inr (rest', rd', k'))" by simp
  from stream_frame_shrinks [OF this] 2(1) show ?case by simp
qed

declare streamOutput.simps [simp del]

subsection \<open>Frames\<close>

text \<open>
  The format of the stream: a type byte, three zero bytes, the length of the payload in
  four bytes, the payload.  \<open>tagged\<close> is what arrives, byte by byte with its channel.
\<close>

definition be32 :: "nat \<Rightarrow> byte list" where
  "be32 n = [word_of_nat (n div 16777216), word_of_nat (n div 65536 mod 256), word_of_nat (n div 256 mod 256), word_of_nat (n mod 256)]"

definition encode_frame :: "byte \<times> byte list \<Rightarrow> byte list" where
  "encode_frame f = [fst f, 0, 0, 0] @ be32 (length (snd f)) @ snd f"

definition tagged :: "(stream_chan \<times> byte list) list \<Rightarrow> (stream_chan \<times> byte) list" where
  "tagged out = concat (map (\<lambda>(c, b). map (Pair c) b) out)"

definition good_frame :: "byte \<times> byte list \<Rightarrow> bool" where
  "good_frame f \<longleftrightarrow> fst f \<in> {1, 2} \<and> length (snd f) < 4294967296"

definition good_chunk :: "stream_chan \<times> byte list \<Rightarrow> bool" where
  "good_chunk x \<longleftrightarrow> length (snd x) \<le> bufLength"

text \<open>The payload bytes of frames in their order, each with the channel its frame's type names.\<close>

definition payloads :: "(byte \<times> byte list) list \<Rightarrow> (stream_chan \<times> byte) list" where
  "payloads frames = concat (map (\<lambda>(t, p). map (Pair (if t = 1 then ToStdout else ToStderr)) p) frames)"

text \<open>The error never comes together with bytes.\<close>

definition plain_reads :: "read_script \<Rightarrow> bool" where
  "plain_reads rd \<longleftrightarrow> list_all (\<lambda>(_, eager). \<not> eager) rd"

lemma be32_digits: "256 * (256 * (256 * (n div 16777216) + n div 65536 mod 256) + n div 256 mod 256) + n mod 256 = (n :: nat)"
proof -
  have "n div 65536 = n div 256 div 256" and "n div 16777216 = n div 256 div 256 div 256"
    by (simp_all flip: div_mult2_eq)
  then show ?thesis by (simp only: mult_div_mod_eq)
qed

lemma BigEndian_be32:
  assumes "n < 4294967296"
  shows "BigEndian_Uint32 (be32 n) = n"
proof -
  have u: "unat (word_of_nat m :: byte) = m" if "m < 256" for m
    using that by (simp add: unat_of_nat take_bit_nat_eq_self)
  have "n div 16777216 < 256" using assms by (simp add: div_less_iff_less_mult)
  then have "BigEndian_Uint32 (be32 n) = 256 * (256 * (256 * (n div 16777216) + n div 65536 mod 256) + n div 256 mod 256) + n mod 256"
    by (simp only: BigEndian_Uint32_def be32_def foldl.simps u mod_less_divisor zero_less_numeral mult_0_right add_0)
  then show ?thesis by (simp only: be32_digits)
qed

lemma length_be32 [simp]: "length (be32 n) = 4"
  by (simp add: be32_def)

lemma tagged_simps [simp]: "tagged [] = []" "tagged ((c, b) # out) = map (Pair c) b @ tagged out"
  "tagged (out @ out') = tagged out @ tagged out'"
  by (simp_all add: tagged_def)


lemma plain_reads_tl: "plain_reads rd \<Longrightarrow> plain_reads (tl rd)"
  by (cases rd) (auto simp: plain_reads_def)

lemma failed_read:
  assumes "reader_Read rd req rest = (b, True, rest', rd')" and "rest \<noteq> []"
  shows "b = rest \<and> length rest \<le> req \<and> \<not> plain_reads rd"
  using assms by (auto simp: reader_Read_def Let_def plain_reads_def split: list.splits)

text \<open>
  An undisturbed frame is sent completely, or the bytes of its last read come with the
  error at the end of the whole stream.
\<close>

lemma stream_frame_complete:
  assumes "\<And>k. \<not> stopped k" and "left \<le> length rest"
  shows "(\<exists>out rd' k'. stream_frame stopped fin (Some c) rd k left rest = (out, Inr (drop left rest, rd', k')) \<and>
      tagged out = map (Pair c) (take left rest) \<and> list_all good_chunk out \<and> (plain_reads rd \<longrightarrow> plain_reads rd')) \<or>
    (\<exists>out lost. stream_frame stopped fin (Some c) rd k left rest = (out, Inl (end_of ''reading stream'' fin)) \<and>
      left = length rest \<and> map (Pair c) rest = tagged out @ map (Pair c) lost \<and> lost \<noteq> [] \<and> length lost \<le> bufLength \<and>
      list_all good_chunk out \<and> \<not> plain_reads rd)"
  using assms(2)
proof (induction "length rd + length rest" arbitrary: rd left rest k rule: less_induct)
  case less
  show ?case
  proof (cases "left = 0")
    case True
    then show ?thesis by (simp add: stream_frame.simps [of stopped])
  next
    case False
    with less.prems have ne: "rest \<noteq> []" and pos: "0 < left" by auto
    from pos show ?thesis
    proof (cases rule: stream_frame_round [where rd = rd and rest = rest and fin = fin and ch = "Some c" and k = k])
      case (failed b rest' rd')
      from failed_read [OF failed(1) ne] less.prems ne failed(2) show ?thesis
        by (intro disjI2 exI [of _ "[]"] exI [of _ rest]) auto
    next
      case (read b rest')
      have le: "left - length b \<le> length rest'" using less.prems read(2) by simp
      have eq: "stream_frame stopped fin (Some c) rd k left rest =
          (case stream_frame stopped fin (Some c) (tl rd) (Suc k) (left - length b) rest' of (out, r) \<Rightarrow> ((c, b) # out, r))"
        using read(6) assms(1) by simp
      have g: "good_chunk (c, b)" using read(3) by (simp add: good_chunk_def)
      from less.hyps [OF read(5) le, of "Suc k"] show ?thesis
      proof (elim disjE exE conjE, goal_cases)
        case (1 out rd' k')
        then show ?thesis using eq read(2,4) g plain_reads_tl
          by (intro disjI1 exI [of _ "(c, b) # out"] exI [of _ rd'] exI [of _ k']) simp
      next
        case (2 out lost)
        then show ?thesis using eq read(2,4) g plain_reads_tl less.prems
          by (intro disjI2 exI [of _ "(c, b) # out"] exI [of _ lost]) auto
      qed
    qed
  qed
qed

lemma streamOutput_frame:
  assumes "length (snd f) < 4294967296"
  shows "streamOutput stopped fin rd k (encode_frame f @ rest) =
    (case stream_frame stopped fin (stream_channel (fst f)) rd k (length (snd f)) (snd f @ rest) of
       (out, Inl e) \<Rightarrow> (out, e)
     | (out, Inr (rest', rd', k')) \<Rightarrow> (case streamOutput stopped fin rd' k' rest' of (out', e) \<Rightarrow> (out @ out', e)))"
proof -
  have t: "take 4 (drop 4 (encode_frame f @ rest)) = be32 (length (snd f))" and d: "drop 8 (encode_frame f @ rest) = snd f @ rest"
    and h: "hd (encode_frame f @ rest) = fst f" and l: "\<not> length (encode_frame f @ rest) < 8"
    by (simp_all add: encode_frame_def be32_def del: of_nat_numeral)
  show ?thesis
    by (subst streamOutput.simps) (simp only: t d h l if_False Let_def BigEndian_be32 [OF assms])
qed

lemma payloads_simps [simp]:
  "payloads [] = []" "payloads ((t, p) # fs) = map (Pair (if t = 1 then ToStdout else ToStderr)) p @ payloads fs"
  by (simp_all add: payloads_def)

lemma good_frame_channel: "good_frame (t, p) \<Longrightarrow> stream_channel t = Some (if t = 1 then ToStdout else ToStderr)"
  by (auto simp: good_frame_def stream_channel_def)

lemma encode_frame_nonempty [simp]: "encode_frame f \<noteq> []"
  by (simp add: encode_frame_def)

text \<open>Frames in front of any further bytes.\<close>

lemma streamOutput_frames:
  assumes "\<And>k. \<not> stopped k" and "list_all good_frame frames"
  shows "(\<exists>out rd' k'. streamOutput stopped fin rd k (concat (map encode_frame frames) @ rest)
        = (case streamOutput stopped fin rd' k' rest of (out', e) \<Rightarrow> (out @ out', e)) \<and>
      tagged out = payloads frames \<and> list_all good_chunk out \<and> (plain_reads rd \<longrightarrow> plain_reads rd')) \<or>
    (\<exists>out lost. streamOutput stopped fin rd k (concat (map encode_frame frames) @ rest) = (out, end_of ''reading stream'' fin) \<and>
      rest = [] \<and> payloads frames = tagged out @ lost \<and> lost \<noteq> [] \<and> length lost \<le> bufLength \<and> list_all good_chunk out \<and> \<not> plain_reads rd)"
  using assms(2)
proof (induction frames arbitrary: rd k)
  case Nil
  show ?case by (intro disjI1 exI [of _ "[]"] exI [of _ rd] exI [of _ k]) (simp split: prod.splits)
next
  case (Cons f fs)
  obtain t p where f: "f = (t, p)" by fastforce
  define c where "c = (if t = (1 :: byte) then ToStdout else ToStderr)"
  from Cons.prems f have ch: "stream_channel t = Some c" and lp: "length p < 4294967296"
    using good_frame_channel [of t p] by (auto simp: good_frame_def c_def)
  let ?rest = "concat (map encode_frame fs) @ rest"
  note eq = streamOutput_frame [of f stopped fin rd k ?rest, unfolded f fst_conv snd_conv ch, OF lp]
  have "length p \<le> length (p @ ?rest)" by simp
  from stream_frame_complete [where stopped = stopped and rd = rd and fin = fin and c = c and k = k, OF assms(1) this]
  show ?case
  proof (elim disjE exE conjE, goal_cases)
    case one: (1 out1 rd1 k1)
    from Cons have "list_all good_frame fs" by simp
    from Cons.IH [OF this, of rd1 k1] show ?case
    proof (elim disjE exE conjE, goal_cases)
      case a: (1 out2 rd2 k2)
      have "streamOutput stopped fin rd k (concat (map encode_frame (f # fs)) @ rest)
          = (case streamOutput stopped fin rd2 k2 rest of (out', e) \<Rightarrow> ((out1 @ out2) @ out', e))"
        using eq one(1) a(1) by (simp add: f split: prod.splits)
      then show ?case using one a by (intro disjI1 exI [of _ "out1 @ out2"] exI [of _ rd2] exI [of _ k2]) (simp add: f c_def)
    next
      case b: (2 out2 lost)
      have x: "streamOutput stopped fin rd k (concat (map encode_frame (f # fs)) @ rest) = (out1 @ out2, end_of ''reading stream'' fin)"
        using eq one(1) b(1) by (simp add: f)
      have y: "payloads (f # fs) = tagged (out1 @ out2) @ lost" using one(2) b(3) by (simp add: f c_def)
      have z: "list_all good_chunk (out1 @ out2)" "\<not> plain_reads rd" using one(3,4) b(6,7) by auto
      show ?case by (intro disjI2 exI [of _ "out1 @ out2"] exI [of _ lost] conjI x b(2) y b(4) b(5) z)
    qed
  next
    case lst: (2 out lost)
    from lst(2) have "?rest = []" by simp
    then have nil: "fs = []" "rest = []" by (cases fs; simp)+
    have x: "streamOutput stopped fin rd k (concat (map encode_frame (f # fs)) @ rest) = (out, end_of ''reading stream'' fin)"
      using eq lst(1) by (simp add: f nil)
    have y: "payloads (f # fs) = tagged out @ map (Pair c) lost" using lst(3) by (simp add: f nil c_def)
    have z: "map (Pair c) lost \<noteq> []" "length (map (Pair c) lost) \<le> bufLength" using lst(4,5) by simp_all
    show ?case by (intro disjI2 exI [of _ out] exI [of _ "map (Pair c) lost"] conjI x nil(2) y z lst(6) lst(7))
  qed
qed

lemma streamOutput_whole:
  assumes "\<And>k. \<not> stopped k" and "list_all good_frame frames"
  shows "\<exists>out lost. streamOutput stopped fin rd k (concat (map encode_frame frames)) =
      (out, end_of (if lost = [] then ''reading stream header'' else ''reading stream'') fin) \<and>
    payloads frames = tagged out @ lost \<and> length lost \<le> bufLength \<and> (plain_reads rd \<longrightarrow> lost = []) \<and> list_all good_chunk out"
  using streamOutput_frames [where rest = "[]" and stopped = stopped and rd = rd and fin = fin and k = k, OF assms]
proof (elim disjE exE conjE, goal_cases)
  case (1 out rd' k')
  then show ?case by (intro exI [of _ out] exI [of _ "[]"]) (simp add: streamOutput.simps [of stopped fin rd' k' "[]"])
next
  case (2 out lost)
  then show ?case by (intro exI [of _ out] exI [of _ lost]) simp
qed

subsection \<open>Stopping\<close>

text \<open>A stopped call has sent a prefix of what the undisturbed call sends.\<close>

lemma stream_frame_stopped:
  assumes "stream_frame stopped fin ch rd k left rest = (out, r)"
    and "stream_frame (\<lambda>_. False) fin ch rd k left rest = (out0, r0)"
  shows "out = out0 \<and> r = r0 \<or> prefix out out0 \<and> r = Inl EndStopped"
  using assms
proof (induction "length rd + length rest" arbitrary: rd k left rest out out0 rule: less_induct)
  case less
  show ?case
  proof (cases "left = 0")
    case True
    then show ?thesis using less.prems by (simp add: stream_frame.simps [of _ fin ch rd k 0])
  next
    case False
    then have "0 < left" by simp
    then show ?thesis
    proof (cases rule: stream_frame_round [where rd = rd and rest = rest and fin = fin and ch = ch and k = k])
      case failed
      then show ?thesis using less.prems by simp
    next
      case (read b rest')
      show ?thesis
      proof (cases "stopped k \<or> ch = None")
        case True
        then show ?thesis using less.prems read(6) [of stopped] read(6) [of "\<lambda>_. False"] by (auto split: if_splits)
      next
        case False
        then obtain c where c: "ch = Some c" and st: "\<not> stopped k" by auto
        obtain o1 where o1: "stream_frame stopped fin ch (tl rd) (Suc k) (left - length b) rest' = (o1, r)" "out = (c, b) # o1"
          using less.prems(1) read(6) [of stopped] st c by (auto split: prod.splits)
        obtain o2 where o2: "stream_frame (\<lambda>_. False) fin ch (tl rd) (Suc k) (left - length b) rest' = (o2, r0)" "out0 = (c, b) # o2"
          using less.prems(2) read(6) [of "\<lambda>_. False"] c by (auto split: prod.splits)
        from less.hyps [OF read(5) o1(1) o2(1)] show ?thesis using o1(2) o2(2) by auto
      qed
    qed
  qed
qed

lemma streamOutput_stopped:
  "prefix (fst (streamOutput stopped fin rd k rest)) (fst (streamOutput (\<lambda>_. False) fin rd k rest))"
proof (induction stopped fin rd k rest rule: streamOutput.induct)
  case (1 stopped fin rd k rest)
  show ?case
  proof (cases "length rest < 8")
    case True
    then show ?thesis by (subst streamOutput.simps) simp
  next
    case False
    let ?run = "\<lambda>st. stream_frame st fin (stream_channel (hd rest)) rd k (BigEndian_Uint32 (take 4 (drop 4 rest))) (drop 8 rest)"
    obtain o1 r1 o2 r2 where f: "?run stopped = (o1, r1)" "?run (\<lambda>_. False) = (o2, r2)" by fastforce
    from stream_frame_stopped [OF this] consider "o1 = o2" "r1 = r2" | "prefix o1 o2" "r1 = Inl EndStopped" by blast
    then show ?thesis
    proof cases
      case 1
      show ?thesis
      proof (cases r1)
        case (Inl e)
        then show ?thesis using False f 1 by (subst (1 2) streamOutput.simps) (simp add: Let_def)
      next
        case (Inr p)
        obtain rest' rd' k' where p: "p = (rest', rd', k')" by (metis prod_cases3)
        have "prefix (fst (streamOutput stopped fin rd' k' rest')) (fst (streamOutput (\<lambda>_. False) fin rd' k' rest'))"
          using "1.IH" [OF False refl refl f(1) [symmetric] Inr p [symmetric] refl] by simp
        then show ?thesis using False f 1 Inr p by (subst (1 2) streamOutput.simps) (auto simp: Let_def split: prod.splits)
      qed
    next
      case 2
      then show ?thesis using False f
        by (subst (1 2) streamOutput.simps) (auto simp: Let_def prefix_def split: prod.splits sum.splits)
    qed
  qed
qed

subsection \<open>Properties\<close>

text \<open>
  C5: a stream of well-formed frames is delivered: whatever sizes the reads return, empty
  ones included, the payload bytes are sent in the order of the stream, to standard output if
  their frame has type 1 and to standard error if it has type 2, in chunks no longer than
  the buffer, and the call ends at the end of the stream.  All of them are sent when the
  reader gives the error at the end of the stream on its own; when it gives it together
  with the last bytes, these, at most one buffer, are lost.
\<close>

theorem streamOutput_demultiplexes:
  assumes "\<And>k. \<not> stopped k" and "list_all good_frame frames"
  shows "\<exists>out lost. streamOutput stopped fin rd k (concat (map encode_frame frames)) =
      (out, end_of (if lost = [] then ''reading stream header'' else ''reading stream'') fin) \<and>
    payloads frames = tagged out @ lost \<and> length lost \<le> bufLength \<and> (plain_reads rd \<longrightarrow> lost = []) \<and> list_all good_chunk out"
  by (rule streamOutput_whole [OF assms])

theorem streamOutput_demultiplexes_witness:
  "\<exists>out. streamOutput (\<lambda>_. False) None [(1, False), (0, False), (7, False)] 0
       (concat (map encode_frame [(1, [65, 66]), (2, [67]), (1, [68])])) = (out, EndEOF) \<and>
     tagged out = [(ToStdout, 65), (ToStdout, 66), (ToStderr, 67), (ToStdout, 68)]"
  using streamOutput_demultiplexes [of "\<lambda>_. False" "[(1, [65, 66]), (2, [67]), (1, [68])]" None "[(1, False), (0, False), (7, False)]" 0]
  by (auto simp: good_frame_def end_of_def plain_reads_def)

text \<open>The loss happens: the only byte of the only frame comes with the end of the stream.\<close>

lemma last_bytes_lost:
  "streamOutput (\<lambda>_. False) None [(1, True)] 0 (encode_frame (1, [65])) = ([], EndEOF)"
proof -
  have "stream_frame (\<lambda>_. False) None (Some ToStdout) [(1, True)] 0 1 [65] = ([], Inl EndEOF)"
    by (simp add: stream_frame.simps reader_Read_def bufLength_def end_of_def)
  then show ?thesis using streamOutput_frame [of "(1, [65])" "\<lambda>_. False" None "[(1, True)]" 0 "[]"] by (simp add: stream_channel_def)
qed

text \<open>
  A frame of any other type with a payload blocks the goroutine for ever, after
  the frames before it were delivered: nothing behind it is ever read, and the channel
  that signals the end of streaming is never closed.
\<close>

theorem streamOutput_unknown_type_blocks:
  assumes "\<And>k. \<not> stopped k" and "list_all good_frame frames" and "t \<notin> {1, 2}" and "p \<noteq> []" and "length p < 4294967296"
    and "plain_reads rd"
  shows "\<exists>out. streamOutput stopped fin rd k (concat (map encode_frame frames) @ encode_frame (t, p) @ rest) = (out, EndBlocked) \<and>
    tagged out = payloads frames"
  using streamOutput_frames [where rest = "encode_frame (t, p) @ rest" and stopped = stopped and rd = rd and fin = fin and k = k, OF assms(1,2)]
proof (elim disjE exE conjE, goal_cases)
  case (1 out rd' k')
  have "0 < length p" using assms(4) by simp
  then have "stream_frame stopped fin None rd' k' (length p) (p @ rest) = ([], Inl EndBlocked)"
  proof (cases rule: stream_frame_round [where rd = rd' and rest = "p @ rest" and fin = fin and ch = None and k = k'])
    case (failed b rest' rd'')
    with failed_read [OF failed(1)] assms(4,6) 1(4) show ?thesis by simp
  next
    case read
    then show ?thesis using assms(1) by simp
  qed
  then have "streamOutput stopped fin rd' k' (encode_frame (t, p) @ rest) = ([], EndBlocked)"
    using assms(3,5) streamOutput_frame [of "(t, p)" stopped fin rd' k' rest] by (simp add: stream_channel_def)
  then show ?case using 1 by simp
next
  case 2
  then show ?case by simp
qed

theorem streamOutput_unknown_type_blocks_witness:
  "\<exists>out. streamOutput (\<lambda>_. False) None [] 0
      (concat (map encode_frame [(1, [65])]) @ encode_frame (3, [66]) @ encode_frame (1, [67])) = (out, EndBlocked) \<and>
     tagged out = [(ToStdout, 65)]"
  using streamOutput_unknown_type_blocks [of "\<lambda>_. False" "[(1, [65])]" 3 "[66]" "[]" None 0 "encode_frame (1, [67])"]
  by (auto simp: good_frame_def plain_reads_def)

end
