(* ===== verification/Containers.thy ===== *)
theory Containers
  imports Streams Files GoTime
begin

text \<open>
  Package \<open>containermanager\<close> (src/containermanager/containers.go): the registry of
  containers and the execution of commands in them.  The Docker client is the record
  \<open>docker\<close> of its calls on a state of its own; the manager's state is the registry
  together with Docker's, what was logged and the number of response bodies that nobody
  has closed.  A goroutine that a call starts and does not wait for is a
  \<open>task\<close>, returned with the result and run by \<open>run_task\<close> at any later time.  Calls
  under the mutex are atomic.
\<close>

subsection \<open>Data\<close>

datatype containerState = ContainerIdle | ContainerBusy

record Resources =
  RAM :: "64 word"
  CPUs :: "64 word"
  Net :: bool
  TmpDir :: "64 word"

record RuntimeLimits =
  CPUTime :: "64 word"
  NetLimit :: "64 word"
  RunTime :: "64 word"
  lim_TmpDir :: "64 word"

record ContainerSetup =
  Image :: string
  DefaultCmd :: bool
  ReadyString :: string
  ReadyTimeout :: int
  WorkingDir :: string
  WorkingDirRO :: bool
  CacheVolume :: "string list"
  CacheVolumeMount :: "string list"
  Envs :: "string \<rightharpoonup> string"
  Label :: string
  setup_Resources :: Resources

record ContainerPipe =
  StdIn_set :: bool
  StdOut_set :: bool
  StdErr_set :: bool
  Consumed_set :: bool

record ConsumedResources =
  consumed_CPU :: "64 word"
  consumed_Net :: "64 word"

datatype mount = BindMount bool string string | TmpfsMount int string | VolumeMount string string

record container_config =
  cc_Image :: string
  cc_Cmd :: "string list option"
  cc_Tty :: bool
  cc_WorkingDir :: string
  cc_NetworkDisabled :: bool
  cc_AutoRemove :: bool
  cc_ReadonlyRootfs :: bool
  cc_Mounts :: "mount list"
  cc_NetworkMode :: string
  cc_NanoCPUs :: int
  cc_Memory :: int
  cc_MemorySwap :: int

datatype volume_result = VolumeFound | VolumeNotFound string | VolumeError string

text \<open>
  The calls of the Docker client.  A statistics answer is the total CPU time and the sent
  and received bytes, or a body that is not such an answer.  Log lines come with the time at
  which they arrive.  Attaching to a command gives the bytes of its stream and the error
  after the last of them.
\<close>

datatype stats_answer = StatsRefused string | StatsUndecodable string | StatsOK "64 word" "64 word" "64 word"

record 'k docker =
  ContainerList :: "'k \<Rightarrow> string + (string \<times> string list) list"
  ImageList :: "'k \<Rightarrow> string + string list list"
  VolumeInspect :: "string \<Rightarrow> 'k \<Rightarrow> volume_result"
  VolumeCreate :: "string \<Rightarrow> 'k \<Rightarrow> string option \<times> 'k"
  ContainerCreate :: "container_config \<Rightarrow> string \<Rightarrow> 'k \<Rightarrow> (string + string) \<times> 'k"
  ContainerStart :: "string \<Rightarrow> 'k \<Rightarrow> string option \<times> 'k"
  ContainerInspect :: "string \<Rightarrow> 'k \<Rightarrow> (string + string) \<times> 'k"
  ContainerLogs :: "string \<Rightarrow> 'k \<Rightarrow> string + (int \<times> string) list"
  ContainerStop :: "string \<Rightarrow> 'k \<Rightarrow> string option \<times> 'k"
  ContainerRemove :: "string \<Rightarrow> 'k \<Rightarrow> string option \<times> 'k"
  ContainerExecCreate :: "string \<Rightarrow> string \<Rightarrow> string list \<Rightarrow> 'k \<Rightarrow> (string + string) \<times> 'k"
  ContainerExecAttach :: "string \<Rightarrow> 'k \<Rightarrow> (string + byte list \<times> string option) \<times> 'k"
  ContainerExecStart :: "string \<Rightarrow> 'k \<Rightarrow> string option \<times> 'k"
  ContainerExecInspect :: "string \<Rightarrow> 'k \<Rightarrow> (string + bool \<times> int) \<times> 'k"
  ContainerStatsOneShot :: "string \<Rightarrow> 'k \<Rightarrow> stats_answer \<times> 'k"

record 'k manager =
  containers :: "string \<rightharpoonup> containerState"
  dk :: 'k
  journal :: "log_entry list"
  open_bodies :: nat

definition log_cm :: "string \<Rightarrow> string \<Rightarrow> string \<Rightarrow> 'k manager \<Rightarrow> 'k manager" where
  "log_cm lvl msg detail cm = cm\<lparr>journal := journal cm @ [(lvl, msg, detail)]\<rparr>"

datatype 'a call_result = CallErr string | CallFileErr fs_error | CallOK 'a | CallPanic

datatype task = StopTask string bool | TeardownTask string

subsection \<open>Registry\<close>

definition New_manager :: "string option \<Rightarrow> 'k \<Rightarrow> string + 'k manager" where
  "New_manager clientErr k = (case clientErr of Some e \<Rightarrow> Inl e | None \<Rightarrow> Inr \<lparr>containers = Map.empty, dk = k, journal = [], open_bodies = 0\<rparr>)"

definition Stats :: "'k manager \<Rightarrow> (string \<rightharpoonup> string)" where
  "Stats cm = (\<lambda>cid. case containers cm cid of
      None \<Rightarrow> None
    | Some st \<Rightarrow> Some (if st = ContainerBusy then ''busy'' else ''idle''))"

definition ContainerExist :: "'k manager \<Rightarrow> string \<Rightarrow> bool" where
  "ContainerExist cm cid = (containers cm cid \<noteq> None)"

definition registerContainer :: "'k manager \<Rightarrow> string \<Rightarrow> 'k manager" where
  "registerContainer cm cid = cm\<lparr>containers := (containers cm)(cid \<mapsto> ContainerIdle)\<rparr>"

definition unregisterContainer :: "'k manager \<Rightarrow> string \<Rightarrow> 'k manager" where
  "unregisterContainer cm cid = cm\<lparr>containers := (containers cm)(cid := None)\<rparr>"

definition ErrContainerBusy :: string where
  "ErrContainerBusy = ''container is already in use''"

text \<open>An absent entry reads as the zero state, which is idle.\<close>

definition setBusy :: "'k manager \<Rightarrow> string \<Rightarrow> string option \<times> 'k manager" where
  "setBusy cm cid =
     (if map_get ContainerIdle (containers cm) cid = ContainerBusy then (Some ErrContainerBusy, cm)
      else (None, cm\<lparr>containers := (containers cm)(cid \<mapsto> ContainerBusy)\<rparr>))"

definition setIdle :: "'k manager \<Rightarrow> string \<Rightarrow> 'k manager" where
  "setIdle cm cid = (if containers cm cid = None then cm else cm\<lparr>containers := (containers cm)(cid \<mapsto> ContainerIdle)\<rparr>)"

text \<open>
  \<open>WaitForIdle\<close> on the successive states of the registry that its loop sees, with the
  time at each look; \<open>None\<close> when the looks end before the loop does.
\<close>

fun WaitForIdle :: "(int \<times> (string \<rightharpoonup> containerState)) list \<Rightarrow> string \<Rightarrow> int \<Rightarrow> string option option" where
  "WaitForIdle [] cid timeout = None"
| "WaitForIdle ((t, m) # looks) cid timeout = (case m cid of
     None \<Rightarrow> Some (Some ''container not found'')
   | Some st \<Rightarrow> if st = ContainerIdle then Some None
       else if t > timeout then Some (Some ''timeout waiting for container to be idle'')
       else WaitForIdle looks cid timeout)"

fun replace_slash :: "string \<Rightarrow> string" where
  "replace_slash [] = []"
| "replace_slash (c # s) = (if c = CHR ''/'' then s else c # replace_slash s)"

text \<open>\<open>compile\<close> is \<open>regexp.Compile\<close>; an expression that does not compile panics.\<close>

definition FindContainers :: "'k docker \<Rightarrow> (string \<Rightarrow> (string \<Rightarrow> bool) option) \<Rightarrow> 'k manager \<Rightarrow> string \<Rightarrow> string list call_result" where
  "FindContainers d compile cm name = (case compile name of
      None \<Rightarrow> CallPanic
    | Some matches \<Rightarrow> (case ContainerList d (dk cm) of
        Inl e \<Rightarrow> CallErr e
      | Inr cs \<Rightarrow> CallOK (map fst (filter (\<lambda>(_, names). list_ex (\<lambda>nm. matches (replace_slash nm)) names) cs))))"

definition ImageExist :: "'k docker \<Rightarrow> 'k manager \<Rightarrow> string \<Rightarrow> string option" where
  "ImageExist d cm img = (case ImageList d (dk cm) of
      Inl e \<Rightarrow> Some e
    | Inr ims \<Rightarrow> if list_ex (\<lambda>tags. img \<in> set tags) ims then None
        else Some (''docker image not found, consider creating or pulling: '' @ img))"

subsection \<open>Creating and stopping\<close>

definition ensureVolume :: "'k docker \<Rightarrow> string \<Rightarrow> 'k \<Rightarrow> string option \<times> 'k" where
  "ensureVolume d name k = (case VolumeInspect d name k of
      VolumeFound \<Rightarrow> (None, k)
    | VolumeNotFound _ \<Rightarrow> (case VolumeCreate d name k of
        (Some e, k') \<Rightarrow> (Some (''volume create: '' @ e), k')
      | (None, k') \<Rightarrow> (None, k'))
    | VolumeError e \<Rightarrow> (Some (''volume inspect: '' @ e), k))"

text \<open>The loop over the cache volumes; a missing mount point panics.\<close>

fun volume_mounts :: "'k docker \<Rightarrow> string list \<Rightarrow> string list \<Rightarrow> 'k \<Rightarrow> mount list call_result \<times> 'k" where
  "volume_mounts d [] ms k = (CallOK [], k)"
| "volume_mounts d (v # vs) [] k = (CallPanic, k)"
| "volume_mounts d (v # vs) (m # ms) k = (case ensureVolume d v k of
     (Some e, k1) \<Rightarrow> (CallErr (''ensure volume: '' @ e), k1)
   | (None, k1) \<Rightarrow> (case volume_mounts d vs ms k1 of
       (CallOK rest, k2) \<Rightarrow> (CallOK (VolumeMount v m # rest), k2)
     | other \<Rightarrow> other))"

text \<open>The loop that waits until the container runs; \<open>None\<close> if it never ends.\<close>

partial_function (option) wait_running :: "'k docker \<Rightarrow> string \<Rightarrow> 'k \<Rightarrow> (string option \<times> 'k) option" where
  "wait_running d cid k = (case ContainerInspect d cid k of
      (Inl e, k') \<Rightarrow> Some (Some e, k')
    | (Inr st, k') \<Rightarrow> if st = ''running'' then Some (None, k') else wait_running d cid k')"

text \<open>
  \<open>grepLogs\<close>: the scanning goroutine logs every line it reads, up to the one it looks for
  or up to the timeout.
\<close>

definition logs_until :: "string \<Rightarrow> int \<Rightarrow> (int \<times> string) list \<Rightarrow> string list" where
  "logs_until needle timeout ls =
     (let seen = map snd (takeWhile (\<lambda>(t, _). t \<le> timeout) ls);
          before = takeWhile (\<lambda>line. \<not> Contains line needle) seen
      in take (length before + 1) seen)"

definition grepLogs :: "'k docker \<Rightarrow> 'k manager \<Rightarrow> string \<Rightarrow> string \<Rightarrow> int \<Rightarrow> unit call_result \<times> 'k manager" where
  "grepLogs d cm cid needle timeout = (case ContainerLogs d cid (dk cm) of
      Inl e \<Rightarrow> (CallPanic, cm)
    | Inr ls \<Rightarrow>
        (let seen = logs_until needle timeout ls
         in (if list_ex (\<lambda>line. Contains line needle) seen then CallOK () else CallErr ''timeout waiting for log output'',
             fold (log_cm ''info'' ''log'') seen cm)))"

definition defaultReadyTimeout :: int where
  "defaultReadyTimeout = 4000000000"

definition mbytes :: "64 word \<Rightarrow> int" where
  "mbytes n = wrap64 (sint n * 1048576)"

definition make_config :: "ContainerSetup \<Rightarrow> mount list \<Rightarrow> container_config" where
  "make_config setup mounts =
     (let res = setup_Resources setup
      in \<lparr>cc_Image = Image setup,
          cc_Cmd = (if DefaultCmd setup then None
            else Some [''sh'', ''-c'', ''trap 'exit 0' TERM INT; while :; do sleep 0.5; wait || true; done'']),
          cc_Tty = True, cc_WorkingDir = ''/home/dummy/'',
          cc_NetworkDisabled = (\<not> Net res), cc_AutoRemove = True, cc_ReadonlyRootfs = (\<not> DefaultCmd setup), cc_Mounts = mounts,
          cc_NetworkMode = (if Net res then ''bridge'' else ''none''),
          cc_NanoCPUs = wrap64 (sint (CPUs res) * 1000000), cc_Memory = mbytes (RAM res), cc_MemorySwap = mbytes (RAM res)\<rparr>)"

text \<open>
  \<open>CreateAndRunContainer\<close>, on a file system for the working directory.  The result is an
  error or the identifier, the goroutines it started and the new states; \<open>None\<close> if waiting
  for the container never ends.
\<close>

definition wait_ready :: "'k docker \<Rightarrow> 'k manager \<Rightarrow> ContainerSetup \<Rightarrow> string \<Rightarrow> unit call_result \<times> 'k manager" where
  "wait_ready d cm setup cid =
     (if ReadyString setup = '''' then (CallOK (), cm)
      else grepLogs d cm cid (ReadyString setup) (if ReadyTimeout setup > 0 then ReadyTimeout setup else defaultReadyTimeout))"

definition start_container :: "'k docker \<Rightarrow> 'k manager \<Rightarrow> ContainerSetup \<Rightarrow> string \<Rightarrow> (string call_result \<times> task list \<times> 'k manager) option" where
  "start_container d cm setup cid = (case ContainerStart d cid (dk cm) of
      (Some e, k3) \<Rightarrow> Some (CallErr (''container start error: '' @ e), [StopTask cid False], cm\<lparr>dk := k3\<rparr>)
    | (None, k3) \<Rightarrow> (case wait_running d cid k3 of
        None \<Rightarrow> None
      | Some (Some e, k4) \<Rightarrow>
          Some (CallErr (''inspect container: '' @ e), [StopTask cid False], log_cm ''error'' ''wait-ready'' e (cm\<lparr>dk := k4\<rparr>))
      | Some (None, k4) \<Rightarrow> (case wait_ready d (cm\<lparr>dk := k4\<rparr>) setup cid of
          (CallPanic, cm5) \<Rightarrow> Some (CallPanic, [], cm5)
        | (CallOK _, cm5) \<Rightarrow> Some (CallOK cid, [], registerContainer cm5 cid)
        | (_, cm5) \<Rightarrow> Some (CallErr ''ready wait timeout'', [StopTask cid False], log_cm ''error'' ''wait-ready-string'' '''' cm5))))"

definition CreateAndRunContainer :: "'k docker \<Rightarrow> fs \<Rightarrow> 'k manager \<Rightarrow> ContainerSetup \<Rightarrow>
    ((string call_result \<times> task list \<times> 'k manager) \<times> fs) option" where
  "CreateAndRunContainer d f cm setup = (case Mkdir f (WorkingDir setup) of
      (Some e, f1) \<Rightarrow> Some ((CallFileErr e, [], log_cm ''error'' ''create working dir'' (WorkingDir setup) cm), f1)
    | (None, f1) \<Rightarrow>
        (let home = BindMount (WorkingDirRO setup) (WorkingDir setup) ''/home/dummy/'';
             tmp = (if TmpDir (setup_Resources setup) > 0 then [TmpfsMount (mbytes (TmpDir (setup_Resources setup))) ''/tmp/''] else [])
         in case volume_mounts d (CacheVolume setup) (CacheVolumeMount setup) (dk cm) of
              (CallPanic, k1) \<Rightarrow> Some ((CallPanic, [], cm\<lparr>dk := k1\<rparr>), f1)
            | (CallErr e, k1) \<Rightarrow> Some ((CallErr e, [], cm\<lparr>dk := k1\<rparr>), f1)
            | (CallFileErr e, k1) \<Rightarrow> Some ((CallFileErr e, [], cm\<lparr>dk := k1\<rparr>), f1)
            | (CallOK vols, k1) \<Rightarrow>
              (case ContainerCreate d (make_config setup ([home] @ tmp @ vols)) (Label setup) k1 of
                 (Inl e, k2) \<Rightarrow> Some ((CallErr (''container create error: '' @ e), [], cm\<lparr>dk := k2\<rparr>), f1)
               | (Inr cid, k2) \<Rightarrow> (case start_container d (cm\<lparr>dk := k2\<rparr>) setup cid of
                   None \<Rightarrow> None
                 | Some r \<Rightarrow> Some (r, f1)))))"

definition StopContainer :: "'k docker \<Rightarrow> 'k manager \<Rightarrow> string \<Rightarrow> bool \<Rightarrow> 'k manager" where
  "StopContainer d cm cid force =
     (if \<not> ContainerExist cm cid \<and> \<not> force then cm
      else (case ContainerStop d cid (dk cm) of
        (Some e, k1) \<Rightarrow> log_cm ''warn'' ''container stop'' e (cm\<lparr>dk := k1\<rparr>)
      | (None, k1) \<Rightarrow> (case ContainerRemove d cid k1 of
          (Some e, k2) \<Rightarrow> log_cm ''warn'' ''container remove'' e (cm\<lparr>dk := k2\<rparr>)
        | (None, k2) \<Rightarrow> unregisterContainer (cm\<lparr>dk := k2\<rparr>) cid)))"

subsection \<open>Executing\<close>

definition createExecutor :: "'k docker \<Rightarrow> 'k manager \<Rightarrow> string \<Rightarrow> string list \<Rightarrow> (string + string) \<times> 'k manager" where
  "createExecutor d cm cid commands = (case setBusy cm cid of
      (Some e, cm1) \<Rightarrow> (Inl e, cm1)
    | (None, cm1) \<Rightarrow> (case ContainerExecCreate d cid '''' commands (dk cm1) of
        (Inl e, k) \<Rightarrow> (Inl (''ContainerExecCreate: '' @ e), cm1\<lparr>dk := k\<rparr>)
      | (Inr execID, k) \<Rightarrow> (Inr execID, cm1\<lparr>dk := k\<rparr>)))"

text \<open>\<open>getCurrentStats\<close> never closes the body of the answer; \<open>checkLimits\<close> does.\<close>

definition getCurrentStats :: "'k docker \<Rightarrow> 'k manager \<Rightarrow> string \<Rightarrow> (string + 64 word \<times> 64 word) \<times> 'k manager" where
  "getCurrentStats d cm cid = (case ContainerStatsOneShot d cid (dk cm) of
      (StatsRefused e, k) \<Rightarrow> (Inl (''ContainerStats: '' @ e), cm\<lparr>dk := k\<rparr>)
    | (StatsUndecodable e, k) \<Rightarrow> (Inl (''decode stats: '' @ e), cm\<lparr>dk := k, open_bodies := open_bodies cm + 1\<rparr>)
    | (StatsOK cpu tx rx, k) \<Rightarrow> (Inr (cpu, tx + rx), cm\<lparr>dk := k, open_bodies := open_bodies cm + 1\<rparr>))"

definition limit_error :: "int \<Rightarrow> 64 word \<Rightarrow> 64 word \<Rightarrow> RuntimeLimits \<Rightarrow> string option" where
  "limit_error timeElapsed usedCPU usedNet limits =
     (let maxTime = wrap64 (sint (RunTime limits) * 1000000000)
      in if usedCPU div 1000000 > CPUTime limits then Some ''CPU limit exceeded''
         else if usedNet div 1024 div 1024 > NetLimit limits then Some ''network limit exceeded''
         else if timeElapsed > maxTime then
           Some (''run time limit exceeded: elapsed='' @ Duration_String timeElapsed @ '', limit='' @ Duration_String maxTime)
         else None)"

definition checkLimits :: "'k docker \<Rightarrow> 'k manager \<Rightarrow> string \<Rightarrow> int \<Rightarrow> 64 word \<Rightarrow> 64 word \<Rightarrow> RuntimeLimits \<Rightarrow>
    (64 word \<times> 64 word \<times> string option) \<times> 'k manager" where
  "checkLimits d cm cid timeElapsed startCPU startNet limits = (case ContainerStatsOneShot d cid (dk cm) of
      (StatsRefused e, k) \<Rightarrow> ((0, 0, None), log_cm ''error'' ''ContainerStatsOneShot'' e (cm\<lparr>dk := k\<rparr>))
    | (StatsUndecodable e, k) \<Rightarrow> ((0, 0, None), log_cm ''error'' ''startResponse decode'' e (cm\<lparr>dk := k\<rparr>))
    | (StatsOK cpu tx rx, k) \<Rightarrow>
        ((cpu, rx + tx, limit_error timeElapsed (cpu - startCPU) (rx + tx - startNet) limits), cm\<lparr>dk := k\<rparr>))"

text \<open>
  What the loop of \<open>execAttach\<close> sees: streaming is done, or a tick of the stats ticker
  with the time since the start and whether streaming is done by the time of the inner
  look.  The loop returns nothing while events are still to come.
\<close>

datatype exec_event = StreamingDone | Tick int bool

datatype exec_result = ExecReturned int "string option" | ExecBlocked

text \<open>What a call of \<open>Execute\<close> leaves with its caller: the result, what was sent on the
  channels of the pipe, and the goroutines started.\<close>

record exec_outcome =
  res :: exec_result
  consumed :: "ConsumedResources option"
  sent :: "(stream_chan \<times> byte list) list"
  tasks :: "task list"

text \<open>
  The scheduling of one execution: what the loop sees, the elapsed time at the last check,
  what the reads do, and the look at which the goroutine that streams first finds the
  stop channel closed, once it is closed.
\<close>

record schedule =
  events :: "exec_event list"
  final_time :: int
  reads :: read_script
  stop_look :: nat

definition codeContainerError :: int where "codeContainerError = 300"
definition codeResourceLimit :: int where "codeResourceLimit = 301"

datatype loop_exit = LoopDone | LoopLimit "64 word" "64 word" string

fun exec_loop :: "'k docker \<Rightarrow> string \<Rightarrow> 64 word \<Rightarrow> 64 word \<Rightarrow> RuntimeLimits \<Rightarrow> 'k manager \<Rightarrow> exec_event list \<Rightarrow> (loop_exit \<times> 'k manager) option" where
  "exec_loop d cid startCPU startNet limits cm [] = None"
| "exec_loop d cid startCPU startNet limits cm (StreamingDone # evs) = Some (LoopDone, cm)"
| "exec_loop d cid startCPU startNet limits cm (Tick elapsed done # evs) =
     (case checkLimits d cm cid elapsed startCPU startNet limits of
        ((cpu, net, None), cm1) \<Rightarrow> exec_loop d cid startCPU startNet limits cm1 evs
      | ((cpu, net, Some e), cm1) \<Rightarrow> Some (if done then LoopDone else LoopLimit cpu net e, cm1))"

definition consumed_since :: "64 word \<Rightarrow> 64 word \<Rightarrow> 64 word \<Rightarrow> 64 word \<Rightarrow> ConsumedResources" where
  "consumed_since curCPU curNet startCPU startNet =
     \<lparr>consumed_CPU = (curCPU - startCPU) div 1000000, consumed_Net = curNet - startNet\<rparr>"

text \<open>
  The goroutine that streams closes \<open>doneStreaming\<close> when it ends: if it is blocked for ever
  the loop never sees it done.  What it sends for standard error goes to standard output if
  the caller gave no channel for it; an error of the reader is logged.
\<close>

fun heard :: "stream_end \<Rightarrow> exec_event list \<Rightarrow> exec_event list" where
  "heard e [] = []"
| "heard e (StreamingDone # evs) = (if e = EndBlocked then heard e evs else StreamingDone # heard e evs)"
| "heard e (Tick t done # evs) = Tick t (done \<and> e \<noteq> EndBlocked) # heard e evs"

definition route :: "ContainerPipe \<Rightarrow> (stream_chan \<times> byte list) list \<Rightarrow> (stream_chan \<times> byte list) list" where
  "route pipe out = (if StdErr_set pipe then out else map (\<lambda>(_, b). (ToStdout, b)) out)"

definition log_stream :: "stream_end \<Rightarrow> 'k manager \<Rightarrow> 'k manager" where
  "log_stream e cm = (case e of EndError msg err \<Rightarrow> log_cm ''error'' msg err cm | _ \<Rightarrow> cm)"

text \<open>After the loop: the last measurement, the resources, and the exit code.\<close>

definition finish_exec :: "'k docker \<Rightarrow> 'k manager \<Rightarrow> string \<Rightarrow> string \<Rightarrow> ContainerPipe \<Rightarrow> RuntimeLimits \<Rightarrow> int \<Rightarrow> 64 word \<Rightarrow> 64 word \<Rightarrow>
    (stream_chan \<times> byte list) list \<Rightarrow> exec_outcome \<times> 'k manager" where
  "finish_exec d cm cid execID pipe limits finalTime startCPU startNet out =
     (case checkLimits d cm cid finalTime startCPU startNet limits of
        ((cpu, net, _), cm4) \<Rightarrow>
          if \<not> Consumed_set pipe then (\<lparr>res = ExecBlocked, consumed = None, sent = out, tasks = []\<rparr>, cm4)
          else (case ContainerExecInspect d execID (dk cm4) of
            (Inl e, k5) \<Rightarrow> (\<lparr>res = ExecReturned codeContainerError (Some e),
                consumed = Some (consumed_since cpu net startCPU startNet), sent = out, tasks = []\<rparr>,
                log_cm ''error'' ''ContainerExecInspect'' e (cm4\<lparr>dk := k5\<rparr>))
          | (Inr (_, exitCode), k5) \<Rightarrow> (\<lparr>res = ExecReturned exitCode None,
                consumed = Some (consumed_since cpu net startCPU startNet), sent = out, tasks = [TeardownTask cid]\<rparr>, cm4\<lparr>dk := k5\<rparr>)))"

definition failed_exec :: "string \<Rightarrow> exec_outcome" where
  "failed_exec msg = \<lparr>res = ExecReturned 0 (Some msg), consumed = None, sent = [], tasks = []\<rparr>"

text \<open>\<open>execAttach\<close>.  A send on an unset channel \<open>Consumed\<close> blocks for ever.\<close>

definition execAttach :: "'k docker \<Rightarrow> 'k manager \<Rightarrow> string \<Rightarrow> string \<Rightarrow> ContainerPipe \<Rightarrow> RuntimeLimits \<Rightarrow> schedule \<Rightarrow>
    (exec_outcome \<times> 'k manager) option" where
  "execAttach d cm cid execID pipe limits sch = (case ContainerExecAttach d execID (dk cm) of
      (Inl e, k1) \<Rightarrow> Some (failed_exec (''ContainerExecAttach: '' @ e), cm\<lparr>dk := k1\<rparr>)
    | (Inr (bytes, fin), k1) \<Rightarrow> (case getCurrentStats d (cm\<lparr>dk := k1\<rparr>) cid of
        (Inl e, cm2) \<Rightarrow> Some (failed_exec (''get zero state: '' @ e), cm2)
      | (Inr (startCPU, startNet), cm2) \<Rightarrow>
          (let (out, strEnd) = streamOutput (\<lambda>_. False) fin (reads sch) 0 bytes;
               (cut, cutEnd) = streamOutput (\<lambda>k. stop_look sch \<le> k) fin (reads sch) 0 bytes
           in case exec_loop d cid startCPU startNet limits cm2 (heard strEnd (events sch)) of
                None \<Rightarrow> None
              | Some (LoopLimit cpu net e, cm3) \<Rightarrow>
                  Some (if Consumed_set pipe
                        then \<lparr>res = ExecReturned codeResourceLimit (Some e), consumed = Some (consumed_since cpu net startCPU startNet),
                              sent = route pipe cut, tasks = [StopTask cid False]\<rparr>
                        else \<lparr>res = ExecBlocked, consumed = None, sent = route pipe cut, tasks = [StopTask cid False]\<rparr>,
                        log_stream cutEnd cm3)
              | Some (LoopDone, cm3) \<Rightarrow>
                  Some (finish_exec d (log_stream strEnd cm3) cid execID pipe limits (final_time sch) startCPU startNet (route pipe out)))))"

definition Execute :: "'k docker \<Rightarrow> 'k manager \<Rightarrow> string \<Rightarrow> string list \<Rightarrow> ContainerPipe \<Rightarrow> RuntimeLimits \<Rightarrow> schedule \<Rightarrow>
    (exec_outcome \<times> 'k manager) option" where
  "Execute d cm cid commands pipe limits sch =
     (if \<not> StdOut_set pipe then Some (failed_exec ''stdout channel is not set'', cm)
      else (case createExecutor d cm cid commands of
        (Inl msg, cm1) \<Rightarrow>
          if Contains msg ''No such container''
          then Some (failed_exec (''container does not exist: '' @ msg), unregisterContainer cm1 cid)
          else Some (failed_exec (''create executor: '' @ msg), cm1)
      | (Inr execID, cm1) \<Rightarrow> execAttach d cm1 cid execID pipe limits sch))"

subsection \<open>Goroutines\<close>

partial_function (option) wait_killed :: "'k docker \<Rightarrow> string \<Rightarrow> 'k \<Rightarrow> 'k option" where
  "wait_killed d execID k = (case ContainerExecInspect d execID k of
      (Inl e, k') \<Rightarrow> Some k'
    | (Inr (isRunning, _), k') \<Rightarrow> if \<not> isRunning then Some k' else wait_killed d execID k')"

definition killAll :: "'k docker \<Rightarrow> 'k manager \<Rightarrow> string \<Rightarrow> 'k manager option" where
  "killAll d cm cid = (case ContainerExecCreate d cid ''root'' [''kill'', ''--'', ''-1''] (dk cm) of
      (Inl e, k1) \<Rightarrow> Some (cm\<lparr>dk := k1\<rparr>)
    | (Inr execID, k1) \<Rightarrow> (case ContainerExecStart d execID k1 of
        (Some e, k2) \<Rightarrow> Some (cm\<lparr>dk := k2\<rparr>)
      | (None, k2) \<Rightarrow> (case wait_killed d execID k2 of None \<Rightarrow> None | Some k3 \<Rightarrow> Some (cm\<lparr>dk := k3\<rparr>))))"

definition teardown :: "'k docker \<Rightarrow> 'k manager \<Rightarrow> string \<Rightarrow> 'k manager option" where
  "teardown d cm cid = (case killAll d cm cid of None \<Rightarrow> None | Some cm1 \<Rightarrow> Some (setIdle cm1 cid))"

fun run_task :: "'k docker \<Rightarrow> 'k manager \<Rightarrow> task \<Rightarrow> 'k manager option" where
  "run_task d cm (StopTask cid force) = Some (StopContainer d cm cid force)"
| "run_task d cm (TeardownTask cid) = teardown d cm cid"

subsection \<open>The registry during an execution\<close>

lemma registry_simps [simp]:
  "containers (registerContainer cm cid) = (containers cm)(cid \<mapsto> ContainerIdle)"
  "containers (unregisterContainer cm cid) = (containers cm)(cid := None)"
  by (simp_all add: registerContainer_def unregisterContainer_def)

lemma log_cm_simps [simp]:
  "containers (log_cm lvl msg x cm) = containers cm" "dk (log_cm lvl msg x cm) = dk cm"
  "open_bodies (log_cm lvl msg x cm) = open_bodies cm"
  by (simp_all add: log_cm_def)

lemma log_stream_simps [simp]:
  "containers (log_stream e cm) = containers cm" "dk (log_stream e cm) = dk cm" "open_bodies (log_stream e cm) = open_bodies cm"
  by (simp_all add: log_stream_def split: stream_end.splits)

lemma log_fold_frame [simp]:
  "containers (fold (log_cm lvl msg) xs cm) = containers cm" "dk (fold (log_cm lvl msg) xs cm) = dk cm"
  by (induction xs arbitrary: cm) simp_all

lemma setBusy_cases:
  "setBusy cm cid = (if containers cm cid = Some ContainerBusy then (Some ErrContainerBusy, cm)
     else (None, cm\<lparr>containers := (containers cm)(cid \<mapsto> ContainerBusy)\<rparr>))"
  by (auto simp: setBusy_def map_get_def split: option.splits)

lemma getCurrentStats_frame: "getCurrentStats d cm cid = (r, cm') \<Longrightarrow> containers cm' = containers cm"
  by (auto simp: getCurrentStats_def split: prod.splits stats_answer.splits)

lemma checkLimits_frame: "checkLimits d cm cid t c n l = (r, cm') \<Longrightarrow> containers cm' = containers cm \<and> open_bodies cm' = open_bodies cm"
  by (auto simp: checkLimits_def split: prod.splits stats_answer.splits)

lemma exec_loop_frame: "exec_loop d cid c n l cm evs = Some (r, cm') \<Longrightarrow> containers cm' = containers cm \<and> open_bodies cm' = open_bodies cm"
proof (induction evs arbitrary: cm)
  case Nil
  then show ?case by simp
next
  case (Cons ev evs)
  show ?case
  proof (cases ev)
    case StreamingDone
    with Cons.prems show ?thesis by simp
  next
    case (Tick t b)
    obtain cpu net err cm1 where "checkLimits d cm cid t c n l = ((cpu, net, err), cm1)" by (metis prod_cases3 surj_pair)
    with Cons Tick checkLimits_frame [OF this] show ?thesis by (cases err) auto
  qed
qed

lemma finish_exec_frame:
  "finish_exec d cm cid x pipe l t c n out = (oc, cm') \<Longrightarrow> containers cm' = containers cm \<and> open_bodies cm' = open_bodies cm"
  by (auto simp: finish_exec_def split: prod.splits sum.splits if_splits dest!: checkLimits_frame)

lemma finish_exec_outcome:
  "finish_exec d cm cid x pipe l t c n out = (oc, cm') \<Longrightarrow> sent oc = out \<and>
     (\<forall>code. res oc = ExecReturned code None \<longrightarrow> tasks oc = [TeardownTask cid] \<and> consumed oc \<noteq> None)"
  by (auto simp: finish_exec_def split: prod.splits sum.splits if_splits)

text \<open>How \<open>execAttach\<close> can end, once it is attached and has measured.\<close>

lemma execAttach_cases:
  assumes "execAttach d cm cid x pipe l sch = Some (oc, cm')"
  obtains (failed) msg where "oc = failed_exec msg" and "containers cm' = containers cm"
  | (limit) bytes fin k1 where "ContainerExecAttach d x (dk cm) = (Inr (bytes, fin), k1)" and "tasks oc = [StopTask cid False]"
      and "res oc = ExecBlocked \<or> (\<exists>e. res oc = ExecReturned codeResourceLimit (Some e))"
      and "sent oc = route pipe (fst (streamOutput (\<lambda>k. stop_look sch \<le> k) fin (reads sch) 0 bytes))"
      and "containers cm' = containers cm" and "open_bodies cm' = open_bodies cm + 1"
  | (ended) bytes fin k1 where "ContainerExecAttach d x (dk cm) = (Inr (bytes, fin), k1)"
      and "sent oc = route pipe (fst (streamOutput (\<lambda>_. False) fin (reads sch) 0 bytes))"
      and "\<forall>code. res oc = ExecReturned code None \<longrightarrow> tasks oc = [TeardownTask cid] \<and> consumed oc \<noteq> None"
      and "containers cm' = containers cm" and "open_bodies cm' = open_bodies cm + 1"
proof (cases "ContainerExecAttach d x (dk cm)")
  case (Pair a k1)
  show thesis
  proof (cases a)
    case (Inl e)
    with assms Pair failed show thesis by (auto simp: execAttach_def)
  next
    case (Inr p)
    obtain bytes fin where p: "p = (bytes, fin)" by fastforce
    obtain g cm2 where g: "getCurrentStats d (cm\<lparr>dk := k1\<rparr>) cid = (g, cm2)" by fastforce
    have c2: "containers cm2 = containers cm" using getCurrentStats_frame [OF g] by simp
    show thesis
    proof (cases g)
      case (Inl e)
      with assms Pair Inr p g c2 failed show thesis by (auto simp: execAttach_def)
    next
      case (Inr q)
      obtain c0 n0 where q: "q = (c0, n0)" by fastforce
      have b2: "open_bodies cm2 = open_bodies cm + 1"
        using g Inr by (auto simp: getCurrentStats_def split: prod.splits stats_answer.splits)
      note eqs = Pair \<open>a = Inr p\<close> p g Inr q
      let ?out = "streamOutput (\<lambda>_. False) fin (reads sch) 0 bytes"
      from assms eqs obtain r cm3 where l: "exec_loop d cid c0 n0 l cm2 (heard (snd ?out) (events sch)) = Some (r, cm3)"
        by (auto simp: execAttach_def split: prod.splits option.splits)
      note fr = exec_loop_frame [OF l]
      show thesis
      proof (cases r)
        case LoopDone
        with assms eqs l have "finish_exec d (log_stream (snd ?out) cm3) cid x pipe l (final_time sch) c0 n0 (route pipe (fst ?out)) = (oc, cm')"
          by (auto simp: execAttach_def split: prod.splits)
        from finish_exec_frame [OF this] finish_exec_outcome [OF this] fr c2 b2 show thesis
          by (intro ended [of bytes fin k1]) (simp_all add: eqs)
      next
        case (LoopLimit cpu net e)
        with assms eqs l fr c2 b2 show thesis
          by (intro limit [of bytes fin k1]) (auto simp: execAttach_def split: prod.splits if_splits)
      qed
    qed
  qed
qed

lemma execAttach_frame: "execAttach d cm cid x pipe l sch = Some (out, cm') \<Longrightarrow> containers cm' = containers cm"
  by (erule execAttach_cases)

lemma killAll_frame: "killAll d cm cid = Some cm' \<Longrightarrow> containers cm' = containers cm"
  by (auto simp: killAll_def split: prod.splits sum.splits option.splits)

lemma Contains_busy: "\<not> Contains ErrContainerBusy ''No such container''"
  by (simp add: ErrContainerBusy_def HasPrefix_def)

lemma Execute_refused:
  assumes "containers cm cid = Some ContainerBusy" and "StdOut_set pipe"
  shows "Execute d cm cid cmds pipe l sch =
    Some (failed_exec (''create executor: '' @ ErrContainerBusy), cm)"
  using assms Contains_busy by (simp add: Execute_def createExecutor_def setBusy_cases)

lemma Execute_registry:
  assumes "Execute d cm cid cmds pipe l sch = Some (out, cm')" and "StdOut_set pipe"
    and "containers cm cid \<noteq> Some ContainerBusy"
  shows "containers cm' = (containers cm)(cid \<mapsto> ContainerBusy) \<or>
    containers cm' = (containers cm)(cid := None) \<and> (\<exists>m. res out = ExecReturned 0 (Some (''container does not exist: '' @ m)))"
  using assms
  by (auto simp: Execute_def createExecutor_def setBusy_cases failed_exec_def split: prod.splits sum.splits if_splits dest!: execAttach_frame)

subsection \<open>The output of a command\<close>

text \<open>
  What a channel of the pipe receives, and what the frames of the command hold for it:
  without a channel for standard error both kinds of frames go to standard output.
\<close>

definition received :: "(stream_chan \<times> byte list) list \<Rightarrow> stream_chan \<Rightarrow> byte list" where
  "received out c = concat (map snd (filter (\<lambda>x. fst x = c) out))"

definition written :: "ContainerPipe \<Rightarrow> (byte \<times> byte list) list \<Rightarrow> stream_chan \<Rightarrow> byte list" where
  "written pipe frames c =
     concat (map snd (filter (\<lambda>f. (if fst f = 1 \<or> \<not> StdErr_set pipe then ToStdout else ToStderr) = c) frames))"

lemma received_prefix: "prefix out out0 \<Longrightarrow> prefix (received out c) (received out0 c)"
  by (auto simp: received_def prefix_def)

lemma route_prefix: "prefix out out0 \<Longrightarrow> prefix (route pipe out) (route pipe out0)"
  by (auto simp: route_def map_mono_prefix)

lemma received_tagged: "received out c = map snd (filter (\<lambda>x. fst x = c) (tagged out))"
  by (induction out) (auto simp: received_def tagged_def filter_map comp_def)

definition routed :: "ContainerPipe \<Rightarrow> (stream_chan \<times> byte) list \<Rightarrow> stream_chan \<Rightarrow> byte list" where
  "routed pipe bs c = map snd (filter (\<lambda>x. fst x = c) (if StdErr_set pipe then bs else map (\<lambda>x. (ToStdout, snd x)) bs))"

lemma received_route: "received (route pipe out) c = routed pipe (tagged out) c"
proof -
  have "tagged (map (\<lambda>(_, b). (ToStdout, b)) out) = map (\<lambda>x. (ToStdout, snd x)) (tagged out)"
    by (induction out) (auto simp: tagged_def)
  then show ?thesis by (simp add: route_def routed_def received_tagged)
qed

lemma written_routed: "written pipe frames c = routed pipe (payloads frames) c"
proof -
  define f where "f t = (if t = (1 :: byte) \<or> \<not> StdErr_set pipe then ToStdout else ToStderr)" for t
  have "map snd (filter (\<lambda>x. fst x = c) (concat (map (\<lambda>(t, p). map (Pair (f t)) p) frames))) =
      concat (map snd (filter (\<lambda>x. f (fst x) = c) frames))"
    by (induction frames) (auto simp: filter_map comp_def)
  moreover have "(if StdErr_set pipe then payloads frames else map (\<lambda>x. (ToStdout, snd x)) (payloads frames)) =
      concat (map (\<lambda>(t, p). map (Pair (f t)) p) frames)"
    by (induction frames) (auto simp: f_def)
  ultimately show ?thesis unfolding written_def routed_def by (simp only: f_def)
qed

lemma routed_lost:
  assumes "payloads frames = tagged out @ lost"
  obtains lost' where "written pipe frames c = received (route pipe out) c @ lost'" and "length lost' \<le> length lost"
proof
  show "written pipe frames c = received (route pipe out) c @ routed pipe lost c"
    by (simp add: written_routed received_route assms) (simp add: routed_def)
  show "length (routed pipe lost c) \<le> length lost"
    using length_filter_le [of "\<lambda>x. fst x = c" "map (\<lambda>x. (ToStdout, snd x)) lost"] by (auto simp: routed_def)
qed

lemma Execute_attaches:
  assumes "Execute d cm cid cmds pipe l sch = Some (oc, cm')"
  obtains (failed) msg where "oc = failed_exec msg"
  | (attached) x cm1 where "ContainerExecCreate d cid '''' cmds (dk cm) = (Inr x, dk cm1)" "execAttach d cm1 cid x pipe l sch = Some (oc, cm')"
proof (cases "createExecutor d cm cid cmds")
  case (Pair r cm1)
  show thesis
  proof (cases r)
    case (Inl msg)
    with assms Pair failed show thesis by (auto simp: Execute_def split: if_splits)
  next
    case (Inr x)
    with Pair have "ContainerExecCreate d cid '''' cmds (dk cm) = (Inr x, dk cm1)"
      by (auto simp: createExecutor_def setBusy_cases split: if_splits prod.splits sum.splits)
    with assms Pair Inr attached failed show thesis by (auto simp: Execute_def split: if_splits)
  qed
qed

text \<open>The calls of Docker behind an exit code: attach, the first and the last measurement, the inspection.\<close>

lemma execAttach_exit_code:
  assumes "execAttach d cm cid x pipe l sch = Some (oc, cm')" and "res oc = ExecReturned code None"
  shows "\<exists>bytes fin ka c0 tx rx ks kl st ki running. ContainerExecAttach d x (dk cm) = (Inr (bytes, fin), ka) \<and>
    ContainerStatsOneShot d cid ka = (StatsOK c0 tx rx, ks) \<and> ContainerStatsOneShot d cid kl = (st, ki) \<and>
    ContainerExecInspect d x ki = (Inr (running, code), dk cm') \<and>
    consumed oc = Some (case st of StatsOK c1 tx1 rx1 \<Rightarrow> consumed_since c1 (rx1 + tx1) c0 (tx + rx) | _ \<Rightarrow> consumed_since 0 0 c0 (tx + rx))"
proof -
  from assms obtain bytes fin ka c0 n0 cm2 where at: "ContainerExecAttach d x (dk cm) = (Inr (bytes, fin), ka)"
    and g: "getCurrentStats d (cm\<lparr>dk := ka\<rparr>) cid = (Inr (c0, n0), cm2)"
    by (auto simp: execAttach_def failed_exec_def split: prod.splits sum.splits)
  from g obtain tx rx ks where st0: "ContainerStatsOneShot d cid ka = (StatsOK c0 tx rx, ks)" "n0 = tx + rx"
    by (auto simp: getCurrentStats_def split: prod.splits stats_answer.splits)
  from assms at g obtain cm4 out where fin: "finish_exec d cm4 cid x pipe l (final_time sch) c0 n0 out = (oc, cm')"
    by (auto simp: execAttach_def codeResourceLimit_def split: prod.splits option.splits loop_exit.splits if_splits)
  obtain cpu net err cm5 where ck: "checkLimits d cm4 cid (final_time sch) c0 n0 l = ((cpu, net, err), cm5)" by (metis prod_cases3 surj_pair)
  obtain st ki where st: "ContainerStatsOneShot d cid (dk cm4) = (st, ki)" by fastforce
  from fin ck assms(2) obtain running where "ContainerExecInspect d x (dk cm5) = (Inr (running, code), dk cm')"
    and "consumed oc = Some (consumed_since cpu net c0 n0)"
    by (auto simp: finish_exec_def split: if_splits prod.splits sum.splits)
  moreover have "dk cm5 = ki" and "consumed_since cpu net c0 n0 =
      (case st of StatsOK c1 tx1 rx1 \<Rightarrow> consumed_since c1 (rx1 + tx1) c0 n0 | _ \<Rightarrow> consumed_since 0 0 c0 n0)"
    using ck st by (auto simp: checkLimits_def split: stats_answer.splits)
  ultimately show ?thesis using at st0 st by metis
qed

text \<open>A goroutine that is blocked for ever is never seen done: only a limit ends the loop.\<close>

lemma blocked_stream_needs_limit:
  "exec_loop d cid c n l cm (heard EndBlocked evs) \<noteq> Some (LoopDone, cm')"
proof (induction evs arbitrary: cm)
  case Nil
  then show ?case by simp
next
  case (Cons ev evs)
  then show ?case by (cases ev) (auto split: prod.splits option.splits)
qed

subsection \<open>Properties\<close>

text \<open>
  C31: a container is marked busy before the command is created in it, and only the
  goroutine that \<open>Execute\<close> starts on success, or on an exceeded limit, clears the mark.
  Whenever \<open>Execute\<close> returns without starting one (Docker refused to create, attach,
  measure or inspect the command) and the container is still registered, it stays busy,
  and every later \<open>Execute\<close> on it is refused without touching Docker.
\<close>

theorem failed_execute_stays_busy:
  assumes "Execute d cm cid cmds pipe l sch = Some (out, cm')" and "StdOut_set pipe"
    and "containers cm cid \<noteq> Some ContainerBusy" and "tasks out = []" and "containers cm' cid \<noteq> None" and "StdOut_set pipe'"
  shows "containers cm' cid = Some ContainerBusy \<and>
    Execute d' cm' cid cmds' pipe' l' sch' =
      Some (failed_exec ''create executor: container is already in use'', cm')"
proof -
  have b: "containers cm' cid = Some ContainerBusy" using Execute_registry [OF assms(1-3)] assms(5) by auto
  then show ?thesis using Execute_refused [OF b assms(6)] by (simp add: ErrContainerBusy_def)
qed

text \<open>A Docker state machine on which the properties are evaluated: the number of calls made.\<close>

definition sample_docker :: "nat docker" where
  "sample_docker = \<lparr>ContainerList = (\<lambda>_. Inr []), ImageList = (\<lambda>_. Inr []), VolumeInspect = (\<lambda>_ _. VolumeFound),
     VolumeCreate = (\<lambda>_ k. (None, k + 1)), ContainerCreate = (\<lambda>_ _ k. (Inr ''c1'', k + 1)), ContainerStart = (\<lambda>_ k. (None, k + 1)),
     ContainerInspect = (\<lambda>_ k. (Inr ''running'', k + 1)), ContainerLogs = (\<lambda>_ _. Inr []), ContainerStop = (\<lambda>_ k. (None, k + 1)),
     ContainerRemove = (\<lambda>_ k. (None, k + 1)), ContainerExecCreate = (\<lambda>_ _ _ k. (Inr ''x1'', k + 1)),
     ContainerExecAttach = (\<lambda>_ k. (Inr (concat (map encode_frame [(1, [104]), (2, [33]), (1, [105])]), None), k + 1)), ContainerExecStart = (\<lambda>_ k. (None, k + 1)),
     ContainerExecInspect = (\<lambda>_ k. (Inr (False, 7), k + 1)), ContainerStatsOneShot = (\<lambda>_ k. (StatsOK 5000000 1 2, k + 1))\<rparr>"

lemma sample_docker_simps:
  "ContainerCreate sample_docker = (\<lambda>_ _ k. (Inr ''c1'', k + 1))" "ContainerStart sample_docker = (\<lambda>_ k. (None, k + 1))"
  "ContainerInspect sample_docker = (\<lambda>_ k. (Inr ''running'', k + 1))" "ContainerLogs sample_docker = (\<lambda>_ _. Inr [])"
  by (simp_all add: sample_docker_def)

definition sample_pipe :: ContainerPipe where
  "sample_pipe = \<lparr>StdIn_set = False, StdOut_set = True, StdErr_set = True, Consumed_set = True\<rparr>"

definition sample_limits :: RuntimeLimits where
  "sample_limits = \<lparr>CPUTime = 100, NetLimit = 1, RunTime = 5, lim_TmpDir = 0\<rparr>"

definition sample_schedule :: "exec_event list \<Rightarrow> schedule" where
  "sample_schedule evs = \<lparr>events = evs, final_time = 2, reads = [(1, False), (0, False)], stop_look = 0\<rparr>"

definition idle_manager :: "nat manager" where
  "idle_manager = \<lparr>containers = [''c1'' \<mapsto> ContainerIdle], dk = 0, journal = [], open_bodies = 0\<rparr>"

theorem failed_execute_stays_busy_witness:
  "\<exists>out cm'. Execute (sample_docker\<lparr>ContainerExecAttach := (\<lambda>_ k. (Inl ''connection reset'', k))\<rparr>) idle_manager ''c1'' [] sample_pipe
       sample_limits (sample_schedule []) = Some (out, cm') \<and>
     Execute sample_docker cm' ''c1'' [] sample_pipe sample_limits (sample_schedule [StreamingDone]) =
       Some (failed_exec ''create executor: container is already in use'', cm')"
proof -
  let ?d = "sample_docker\<lparr>ContainerExecAttach := (\<lambda>_ k. (Inl ''connection reset'', k))\<rparr>"
  obtain out cm' where eq: "Execute ?d idle_manager ''c1'' [] sample_pipe sample_limits (sample_schedule []) = Some (out, cm')"
    and "tasks out = []" "containers cm' ''c1'' \<noteq> None"
    by (simp add: Execute_def createExecutor_def setBusy_cases execAttach_def failed_exec_def sample_docker_def idle_manager_def sample_pipe_def)
  with failed_execute_stays_busy [OF eq, where pipe' = sample_pipe and d' = sample_docker and cmds' = "[]" and l' = sample_limits
      and sch' = "sample_schedule [StreamingDone]"]
  show ?thesis by (simp add: sample_pipe_def idle_manager_def)
qed

text \<open>
  C12: a successful execution gives the container back: if \<open>Execute\<close> returns an exit
  code without an error on an idle registered container, it has started exactly the
  teardown, and when the teardown has run the registry is what it was before.
\<close>

theorem execute_then_teardown_restores:
  assumes "Execute d cm cid cmds pipe l sch = Some (out, cm1)" and "StdOut_set pipe" and "containers cm cid = Some ContainerIdle"
    and "res out = ExecReturned code None"
  shows "tasks out = [TeardownTask cid] \<and> consumed out \<noteq> None \<and> containers cm1 cid = Some ContainerBusy \<and>
    (\<forall>cm2. run_task d cm1 (TeardownTask cid) = Some cm2 \<longrightarrow> containers cm2 = containers cm)"
proof -
  have t: "tasks out = [TeardownTask cid] \<and> consumed out \<noteq> None"
    using assms(1,2,4)
    by (auto simp: Execute_def failed_exec_def split: prod.splits sum.splits if_splits elim!: execAttach_cases)
  have c: "containers cm1 = (containers cm)(cid \<mapsto> ContainerBusy)"
    using Execute_registry [OF assms(1,2)] assms(3,4) by auto
  have td: "containers cm2 = containers cm" if "run_task d cm1 (TeardownTask cid) = Some cm2" for cm2
  proof -
    from that obtain cm3 where k: "killAll d cm1 cid = Some cm3" and "cm2 = setIdle cm3 cid"
      by (auto simp: teardown_def split: option.splits)
    with killAll_frame [OF k] c have "containers cm2 = (containers cm)(cid \<mapsto> ContainerIdle)" by (simp add: setIdle_def)
    with assms(3) show ?thesis by (simp add: fun_upd_idem)
  qed
  show ?thesis
  proof (intro conjI allI impI)
    show "containers cm1 cid = Some ContainerBusy" using c by simp
  qed (use t td in blast)+
qed

text \<open>A sample run: two letters on standard output and one on standard error.\<close>

lemma sample_run:
  "\<exists>out cm1. Execute sample_docker idle_manager ''c1'' [''ls''] sample_pipe sample_limits (sample_schedule [Tick 1 False, StreamingDone]) = Some (out, cm1) \<and>
     res out = ExecReturned 7 None"
proof -
  let ?rd = "[(1, False), (0, False)]"
  obtain o1 where o1: "streamOutput (\<lambda>_. False) None ?rd 0 (concat (map encode_frame [(1, [104]), (2, [33]), (1, [105])])) = (o1, EndEOF)"
    using streamOutput_whole [where stopped = "\<lambda>_. False" and frames = "[(1, [104]), (2, [33]), (1, [105])]" and rd = ?rd and fin = None and k = 0]
    by (auto simp: good_frame_def end_of_def plain_reads_def)
  obtain o2 e2 where o2: "streamOutput (\<lambda>k. 0 \<le> k) None ?rd 0 (concat (map encode_frame [(1, [104]), (2, [33]), (1, [105])])) = (o2, e2)"
    by fastforce
  have l: "limit_error 1 0 0 sample_limits = None" by (simp add: limit_error_def sample_limits_def Let_def wrap64_def)
  show ?thesis
    using o1 o2
    by (simp add: Execute_def createExecutor_def setBusy_cases execAttach_def getCurrentStats_def checkLimits_def l finish_exec_def log_stream_def
        sample_docker_def idle_manager_def sample_pipe_def sample_schedule_def)
qed

theorem execute_then_teardown_restores_witness:
  "\<exists>out cm1. Execute sample_docker idle_manager ''c1'' [''ls''] sample_pipe sample_limits (sample_schedule [Tick 1 False, StreamingDone]) = Some (out, cm1) \<and>
     res out = ExecReturned 7 None \<and> tasks out = [TeardownTask ''c1''] \<and> containers cm1 ''c1'' = Some ContainerBusy"
proof -
  from sample_run obtain out cm1 where eq: "Execute sample_docker idle_manager ''c1'' [''ls''] sample_pipe sample_limits
      (sample_schedule [Tick 1 False, StreamingDone]) = Some (out, cm1)" and r: "res out = ExecReturned 7 None" by blast
  from execute_then_teardown_restores [OF eq _ _ r] eq r show ?thesis by (auto simp: sample_pipe_def idle_manager_def)
qed

text \<open>
  C6: a caller of \<open>Execute\<close> gets the output, the resources and the exit code of its command.  If
  Docker's stream is well formed, then whatever the reads return and however the checks of
  the limits fall, an execution that returns an exit code has sent what the command wrote to
  standard output and to standard error, in order, on the channel for it (on standard output
  if there is no other) - all of it unless the reader gave its last bytes, at most one
  buffer, together with the error; and an execution that fails or exceeds a limit has sent a
  prefix of that.  The exit code is the one that Docker's inspection of the execution created for the
  commands gives after the last measurement, and the resources on the channel \<open>Consumed\<close> are the difference of the
  measurements behind the attach and before the inspection, where a last one that failed counts as zeros.
\<close>

theorem Execute_delivers_output:
  assumes "Execute d cm cid cmds pipe l sch = Some (oc, cm')"
    and "\<And>x k. fst (ContainerExecAttach d x k) = Inr (concat (map encode_frame frames), fin)" and "list_all good_frame frames"
  shows "(\<exists>lost. written pipe frames c = received (sent oc) c @ lost \<and>
      ((\<exists>code. res oc = ExecReturned code None) \<longrightarrow> length lost \<le> bufLength \<and> (plain_reads (reads sch) \<longrightarrow> lost = []))) \<and>
    (\<forall>code. res oc = ExecReturned code None \<longrightarrow>
      (\<exists>x kc ka c0 tx rx ks kl st ki running. ContainerExecCreate d cid '''' cmds (dk cm) = (Inr x, kc) \<and>
        snd (ContainerExecAttach d x kc) = ka \<and> ContainerStatsOneShot d cid ka = (StatsOK c0 tx rx, ks) \<and>
        ContainerStatsOneShot d cid kl = (st, ki) \<and> ContainerExecInspect d x ki = (Inr (running, code), dk cm') \<and>
        consumed oc = Some (case st of
            StatsOK c1 tx1 rx1 \<Rightarrow> \<lparr>consumed_CPU = (c1 - c0) div 1000000, consumed_Net = rx1 + tx1 - (tx + rx)\<rparr>
          | _ \<Rightarrow> \<lparr>consumed_CPU = (0 - c0) div 1000000, consumed_Net = 0 - (tx + rx)\<rparr>)))"
proof -
  let ?run = "\<lambda>st. fst (streamOutput st fin (reads sch) 0 (concat (map encode_frame frames)))"
  obtain lost where all: "written pipe frames c = received (route pipe (?run (\<lambda>_. False))) c @ lost"
    "length lost \<le> bufLength" "plain_reads (reads sch) \<longrightarrow> lost = []"
  proof -
    from streamOutput_whole [where stopped = "\<lambda>_. False" and frames = frames and rd = "reads sch" and fin = fin and k = 0] assms(3)
    obtain lost where l: "payloads frames = tagged (?run (\<lambda>_. False)) @ lost" "length lost \<le> bufLength" "plain_reads (reads sch) \<longrightarrow> lost = []"
      by fastforce
    from routed_lost [OF l(1), where pipe = pipe and c = c] obtain lost' where
      "written pipe frames c = received (route pipe (?run (\<lambda>_. False))) c @ lost'" "length lost' \<le> length lost" .
    then show thesis using l(2,3) by (intro that [of lost']) auto
  qed
  have same: "bytes = concat (map encode_frame frames) \<and> fin' = fin" if "ContainerExecAttach d x k = (Inr (bytes, fin'), k')" for x k k' bytes fin'
    using assms(2) [of x k] that by simp
  from assms(1) show ?thesis
  proof (cases rule: Execute_attaches)
    case (attached x cm1)
    note calls = execAttach_exit_code [OF attached(2)]
    from attached(2) have "\<exists>lost. written pipe frames c = received (sent oc) c @ lost \<and>
      ((\<exists>code. res oc = ExecReturned code None) \<longrightarrow> length lost \<le> bufLength \<and> (plain_reads (reads sch) \<longrightarrow> lost = []))"
    proof (cases rule: execAttach_cases)
      case (limit bytes fin' k1)
      have "prefix (route pipe (?run (\<lambda>k. stop_look sch \<le> k))) (route pipe (?run (\<lambda>_. False)))"
        by (rule route_prefix [OF streamOutput_stopped])
      from received_prefix [OF this, of c] all(1) limit(4) same [OF limit(1)]
      have "prefix (received (sent oc) c) (written pipe frames c)" by (auto simp: prefix_def)
      then show ?thesis using limit(3) by (auto simp: prefix_def codeResourceLimit_def)
    next
      case (ended bytes fin' k1)
      then show ?thesis using all same [OF ended(1)] by auto
    qed (simp_all add: failed_exec_def received_def)
    moreover have "\<exists>x kc ka c0 tx rx ks kl st ki running. ContainerExecCreate d cid '''' cmds (dk cm) = (Inr x, kc) \<and>
        snd (ContainerExecAttach d x kc) = ka \<and> ContainerStatsOneShot d cid ka = (StatsOK c0 tx rx, ks) \<and>
        ContainerStatsOneShot d cid kl = (st, ki) \<and> ContainerExecInspect d x ki = (Inr (running, code), dk cm') \<and>
        consumed oc = Some (case st of
            StatsOK c1 tx1 rx1 \<Rightarrow> \<lparr>consumed_CPU = (c1 - c0) div 1000000, consumed_Net = rx1 + tx1 - (tx + rx)\<rparr>
          | _ \<Rightarrow> \<lparr>consumed_CPU = (0 - c0) div 1000000, consumed_Net = 0 - (tx + rx)\<rparr>)" if "res oc = ExecReturned code None" for code
      using calls [OF that] attached(1) unfolding consumed_since_def by (metis snd_conv)
    ultimately show ?thesis by blast
  qed (simp_all add: failed_exec_def received_def)
qed

theorem Execute_delivers_output_witness:
  "\<exists>oc cm'. Execute sample_docker idle_manager ''c1'' [''ls''] sample_pipe sample_limits (sample_schedule [Tick 1 False, StreamingDone]) = Some (oc, cm') \<and>
     received (sent oc) ToStdout = [104, 105] \<and> consumed oc = Some \<lparr>consumed_CPU = 0, consumed_Net = 0\<rparr>"
proof -
  from sample_run obtain oc cm' where eq: "Execute sample_docker idle_manager ''c1'' [''ls''] sample_pipe sample_limits
      (sample_schedule [Tick 1 False, StreamingDone]) = Some (oc, cm')" and r: "res oc = ExecReturned 7 None" by blast
  have "list_all good_frame [(1, [104]), (2, [33]), (1, [105])]" by (simp add: good_frame_def)
  from Execute_delivers_output [OF eq _ this, of None ToStdout] r eq show ?thesis
    by (auto simp: sample_docker_def written_def sample_pipe_def sample_schedule_def plain_reads_def)
qed

text \<open>
  The registry changes only when a container was created, started and is ready:
  then exactly that container is added, idle.  When creation fails after Docker has made
  the container, a goroutine is started to stop it; but the container is not registered,
  so that goroutine does nothing and the container is left to Docker.
\<close>

theorem create_registers_or_leaks:
  assumes "CreateAndRunContainer d f cm setup = Some ((r, ts, cm'), f')"
  shows "(\<forall>cid. r = CallOK cid \<longrightarrow> ts = [] \<and> containers cm' = (containers cm)(cid \<mapsto> ContainerIdle)) \<and>
    ((\<forall>cid. r \<noteq> CallOK cid) \<longrightarrow> containers cm' = containers cm) \<and>
    (\<forall>t cid. t \<in> set ts \<and> t = StopTask cid False \<and> containers cm cid = None \<longrightarrow> run_task d cm' t = Some cm') \<and>
    (\<forall>t\<in>set ts. \<exists>cid. t = StopTask cid False)"
proof -
  have ready: "wait_ready d cm1 setup cid = (x, cm2) \<Longrightarrow> containers cm2 = containers cm1" for cm1 cid x cm2
    by (auto simp: wait_ready_def grepLogs_def Let_def split: if_splits sum.splits)
  have start: "(\<forall>cid. r1 = CallOK cid \<longrightarrow> ts1 = [] \<and> containers cm2 = (containers cm1)(cid \<mapsto> ContainerIdle)) \<and>
      ((\<forall>cid. r1 \<noteq> CallOK cid) \<longrightarrow> containers cm2 = containers cm1) \<and> set ts1 \<subseteq> {StopTask cid False}"
    if "start_container d cm1 setup cid = Some (r1, ts1, cm2)" for cm1 cid r1 ts1 cm2
    using that by (auto simp: start_container_def split: prod.splits option.splits call_result.splits dest!: ready)
  consider "ts = []" "containers cm' = containers cm" "\<forall>cid. r \<noteq> CallOK cid"
    | k2 cid where "start_container d (cm\<lparr>dk := k2\<rparr>) setup cid = Some (r, ts, cm')"
    using assms by (auto simp: CreateAndRunContainer_def Let_def split: prod.splits option.splits call_result.splits sum.splits)
  then show ?thesis
  proof cases
    case 1
    then show ?thesis by auto
  next
    case 2
    from start [OF this] show ?thesis
      by (cases r) (auto simp: StopContainer_def ContainerExist_def)
  qed
qed

definition sample_setup :: ContainerSetup where
  "sample_setup = \<lparr>Image = ''golang'', DefaultCmd = False, ReadyString = ''ready'', ReadyTimeout = 0, WorkingDir = ''/w'', WorkingDirRO = True,
     CacheVolume = [], CacheVolumeMount = [], Envs = Map.empty, Label = ''runner'',
     setup_Resources = \<lparr>RAM = 64, CPUs = 500, Net = False, TmpDir = 0\<rparr>\<rparr>"

definition work_fs :: fs where
  "work_fs = \<lparr>nodes = [([''w''], DirNode)], cwd = ''/'', home = None, fault = (\<lambda>_ _. None)\<rparr>"

theorem create_registers_or_leaks_witness:
  "\<exists>cm'. CreateAndRunContainer sample_docker work_fs \<lparr>containers = Map.empty, dk = 0, journal = [], open_bodies = 0\<rparr> sample_setup =
       Some ((CallErr ''ready wait timeout'', [StopTask ''c1'' False], cm'), work_fs) \<and>
     run_task sample_docker cm' (StopTask ''c1'' False) = Some cm'"
proof -
  have w: "wait_running sample_docker ''c1'' k = Some (None, k + 1)" for k
    by (subst wait_running.simps) (simp add: sample_docker_simps)
  have mk: "Mkdir work_fs ''/w'' = (None, work_fs)"
    by (simp add: Mkdir_def locate_def work_fs_def IsAbs_def HasPrefix_def node_at_def Let_def)
  from w mk obtain cm' where eq: "CreateAndRunContainer sample_docker work_fs \<lparr>containers = Map.empty, dk = 0, journal = [], open_bodies = 0\<rparr> sample_setup =
       Some ((CallErr ''ready wait timeout'', [StopTask ''c1'' False], cm'), work_fs)"
    by (simp add: CreateAndRunContainer_def start_container_def wait_ready_def sample_setup_def grepLogs_def logs_until_def sample_docker_simps Let_def)
  from create_registers_or_leaks [OF eq] eq show ?thesis by simp
qed

text \<open>
  The resources reported for a run are right as long as Docker answers: the CPU
  time in milliseconds and the network bytes since the start.  If the last statistics call
  fails the limit check gives zeros without an error, and the subtraction wraps around:
  a run that started with \<open>n > 0\<close> nanoseconds of CPU time is reported with
  \<open>2^64 - n\<close>.
\<close>

theorem consumed_wraps_on_stats_error:
  assumes "ContainerStatsOneShot d cid (dk cm) = (StatsRefused e, k)" and "0 < startCPU"
  shows "\<exists>cpu net cm'. checkLimits d cm cid t startCPU startNet l = ((cpu, net, None), cm') \<and>
    unat (consumed_CPU (consumed_since cpu net startCPU startNet)) = (2 ^ 64 - unat startCPU) div 1000000"
proof -
  have "0 < uint startCPU" "uint startCPU < 2 ^ 64"
    using assms(2) uint_bounded [of startCPU] by (simp_all add: word_less_alt)
  then have "uint (- startCPU) = 2 ^ 64 - uint startCPU"
    by (simp add: uint_word_ariths zmod_zminus1_eq_if)
  then have "unat (- startCPU) = 2 ^ 64 - unat startCPU"
    unfolding unat_eq_nat_uint by (metis (no_types) nat_diff_distrib' nat_numeral nat_power_eq uint_ge_0 zero_le_numeral zero_le_power)
  then show ?thesis
    using assms(1) by (simp add: checkLimits_def consumed_since_def unat_div)
qed

theorem consumed_wraps_on_stats_error_witness:
  "\<exists>cpu net cm'. checkLimits (sample_docker\<lparr>ContainerStatsOneShot := (\<lambda>_ k. (StatsRefused ''gone'', k))\<rparr>) idle_manager ''c1'' 1 3000000 0 sample_limits
       = ((cpu, net, None), cm') \<and>
     unat (consumed_CPU (consumed_since cpu net 3000000 0)) = 18446744073706"
  using consumed_wraps_on_stats_error [of "sample_docker\<lparr>ContainerStatsOneShot := (\<lambda>_ k. (StatsRefused ''gone'', k))\<rparr>" "''c1''" idle_manager "''gone''" 0
      3000000 1 0 sample_limits]
  by (simp add: idle_manager_def)

subsection \<open>What the code does not do\<close>

text \<open>
  Every execution that got past its first measurement leaves a response body behind that
  nobody closes.
\<close>

lemma Execute_leaks_body:
  assumes "Execute d cm cid cmds pipe l sch = Some (oc, cm')" and "tasks oc \<noteq> []"
  shows "open_bodies cm' = open_bodies cm + 1"
proof -
  have cr: "createExecutor d cm cid cmds = (r, cm1) \<Longrightarrow> open_bodies cm1 = open_bodies cm" for r cm1
    by (auto simp: createExecutor_def setBusy_cases split: if_splits prod.splits sum.splits)
  from assms obtain x cm1 where c: "createExecutor d cm cid cmds = (Inr x, cm1)" and a: "execAttach d cm1 cid x pipe l sch = Some (oc, cm')"
    by (auto simp: Execute_def failed_exec_def split: if_splits prod.splits sum.splits)
  from a assms(2) show ?thesis by (cases rule: execAttach_cases) (simp_all add: cr [OF c] failed_exec_def)
qed

text \<open>
  A frame of an unknown type with a payload makes an execution end only by a limit: it never
  returns the exit code of its command.
\<close>

lemma unknown_frame_prevents_exit_code:
  assumes "Execute d cm cid cmds pipe l sch = Some (oc, cm')"
    and "\<And>x k. fst (ContainerExecAttach d x k) = Inr (concat (map encode_frame frames) @ encode_frame (t, p) @ rest, fin)"
    and "list_all good_frame frames" and "t \<notin> {1, 2}" and "p \<noteq> []" and "length p < 4294967296" and "plain_reads (reads sch)"
  shows "res oc \<noteq> ExecReturned code None"
proof
  assume r: "res oc = ExecReturned code None"
  let ?bytes = "concat (map encode_frame frames) @ encode_frame (t, p) @ rest"
  from assms(1) r obtain x cm1 where a: "execAttach d cm1 cid x pipe l sch = Some (oc, cm')"
    by (cases rule: Execute_attaches) (auto simp: failed_exec_def)
  obtain k1 where at: "ContainerExecAttach d x (dk cm1) = (Inr (?bytes, fin), k1)" using assms(2) [of x "dk cm1"] by (cases "ContainerExecAttach d x (dk cm1)") auto
  obtain out where str: "streamOutput (\<lambda>_. False) fin (reads sch) 0 ?bytes = (out, EndBlocked)"
    using streamOutput_unknown_type_blocks [where stopped = "\<lambda>_. False" and frames = frames and t = t and p = p and rd = "reads sch" and fin = fin and k = 0 and rest = rest]
      assms(3-7) by auto
  from a r show False
    using at str blocked_stream_needs_limit [of d cid]
    by (auto simp: execAttach_def failed_exec_def codeResourceLimit_def split: prod.splits sum.splits option.splits loop_exit.splits if_splits)
qed

text \<open>The limit on the network is documented in bytes and enforced in units of \<open>2^20\<close> bytes.\<close>

lemma net_limit_in_megabytes:
  "limit_error 0 0 2097151 \<lparr>CPUTime = 0, NetLimit = 1, RunTime = 1, lim_TmpDir = 0\<rparr> = None"
  "limit_error 0 0 2097152 \<lparr>CPUTime = 0, NetLimit = 1, RunTime = 1, lim_TmpDir = 0\<rparr> = Some ''network limit exceeded''"
  by (simp_all add: limit_error_def Let_def wrap64_def)

text \<open>The environment variables of a set-up are never used.\<close>

lemma create_ignores_environment:
  "CreateAndRunContainer d f cm (setup\<lparr>Envs := env\<rparr>) = CreateAndRunContainer d f cm setup"
  by (simp add: CreateAndRunContainer_def make_config_def start_container_def wait_ready_def
      cong del: option.case_cong_weak prod.case_cong_weak sum.case_cong_weak call_result.case_cong_weak if_weak_cong)

end
