(* ===== verification/Bot.thy ===== *)
theory Bot
  imports GoStrings
begin

text \<open>
  Package \<open>telegram\<close> (src/telegram/telegram.go, types.go, message.go): messages with
  buttons whose callbacks are kept per message until one of them is pressed.  A user
  callback is a value of type \<open>'cb\<close>; \<open>run\<close> gives its result, and \<open>relocks\<close>
  says whether it takes the bot's lock itself.  \<open>post\<close> is the HTTP call to the
  Telegram API; what was posted is recorded in the state.
\<close>

subsection \<open>Types\<close>

datatype ParseMode = Plaintext | HTML | Markdown

fun mode_text :: "ParseMode \<Rightarrow> string" where
  "mode_text Plaintext = ''''"
| "mode_text HTML = ''HTML''"
| "mode_text Markdown = ''MarkdownV2''"

record InlineKeyboardButton =
  Text :: string
  CallbackData :: string

type_synonym InlineKeyboardMarkup = "InlineKeyboardButton list list"

record MessageEntity =
  EType :: string
  Offset :: int
  ELength :: int
  EURL :: string
  ELanguage :: string
  CustomEmojiID :: string

record TelegramMessage =
  MessageID :: int
  MText :: string
  ChatID :: int
  Entities :: "MessageEntity list option"

record CallbackQuery =
  QueryID :: string
  QMessage :: TelegramMessage
  Data :: string

datatype json = JInt int | JStr string | JBool bool | JMarkup InlineKeyboardMarkup | JEntities "MessageEntity list"

type_synonym payload = "string \<rightharpoonup> json"

datatype post_result = MarshalErr string | RequestErr string | SendErr string | Response int string string

text \<open>
  Besides the fields of the struct: the endpoints of the global \<open>http.DefaultServeMux\<close>, what
  was posted, the user's functions that were run, and the log.
\<close>

record 'cb tg =
  endpoint :: string
  msgID :: int
  botToken :: string
  chatID :: int
  port :: int
  callbacks :: "int \<rightharpoonup> 'cb option list"
  mux :: "string list"
  posts :: "(string \<times> payload) list"
  performed :: "'cb list"
  tg_log :: "string list"

record Message =
  mid :: int
  mtext :: string
  mchatID :: int
  parseMode :: ParseMode
  buttons :: "string list"

definition tg_error :: "string \<Rightarrow> 'cb tg \<Rightarrow> 'cb tg" where
  "tg_error m t = t\<lparr>tg_log := tg_log t @ [m]\<rparr>"

subsection \<open>Messages\<close>

definition New :: "string \<Rightarrow> int \<Rightarrow> string \<Rightarrow> int \<Rightarrow> 'cb tg" where
  "New cfg_Endpoint cfg_Port cfg_BotToken cfg_ChatID = \<lparr>endpoint = cfg_Endpoint, msgID = 0, botToken = cfg_BotToken,
     chatID = cfg_ChatID, port = cfg_Port, callbacks = Map.empty, mux = [], posts = [], performed = [], tg_log = []\<rparr>"

definition createMessage :: "'cb tg \<Rightarrow> string \<Rightarrow> Message \<times> 'cb tg" where
  "createMessage t text =
     (let nextID = wrap64 (msgID t + 1)
      in (\<lparr>mid = nextID, mtext = text, mchatID = 0, parseMode = Plaintext, buttons = []\<rparr>, t\<lparr>msgID := nextID\<rparr>))"

definition Message_op :: "'cb tg \<Rightarrow> string \<Rightarrow> Message \<times> 'cb tg" where
  "Message_op t text = createMessage t text"

definition AddCallback :: "'cb tg \<Rightarrow> int \<Rightarrow> 'cb option \<Rightarrow> 'cb tg" where
  "AddCallback t messageID fn =
     (let a = map_get [] (callbacks t) messageID
      in t\<lparr>callbacks := (callbacks t)(messageID \<mapsto> a @ [fn])\<rparr>)"

definition MType :: "Message \<Rightarrow> ParseMode \<Rightarrow> Message" where
  "MType m typ = m\<lparr>parseMode := typ\<rparr>"

definition ToChat :: "Message \<Rightarrow> int \<Rightarrow> Message" where
  "ToChat m c = m\<lparr>mchatID := c\<rparr>"

definition WithButton :: "Message \<times> 'cb tg \<Rightarrow> string \<times> 'cb option \<Rightarrow> Message \<times> 'cb tg" where
  "WithButton mt b = (case mt of (m, t) \<Rightarrow> (m\<lparr>buttons := buttons m @ [fst b]\<rparr>, AddCallback t (mid m) (snd b)))"

text \<open>\<open>send\<close>: the error that is returned, and the request if one was sent.\<close>

definition send :: "(string \<Rightarrow> payload \<Rightarrow> post_result) \<Rightarrow> 'cb tg \<Rightarrow> string \<Rightarrow> payload \<Rightarrow> string option \<times> 'cb tg" where
  "send post t method payload =
     (let apiURL = ''https://api.telegram.org/bot'' @ botToken t @ ''/'' @ method;
          t' = t\<lparr>posts := posts t @ [(method, payload)]\<rparr>
      in case post apiURL payload of
           MarshalErr e \<Rightarrow> (Some (''failed to marshal JSON payload: '' @ e), t)
         | RequestErr e \<Rightarrow> (Some (''failed to create HTTP request: '' @ e), t)
         | SendErr e \<Rightarrow> (Some (''failed to send HTTP request: '' @ e), t')
         | Response code st body \<Rightarrow>
             (if code \<noteq> 200 then Some (''non-200 response: '' @ st @ '', Body: '' @ body) else None, t'))"

definition SendMessage :: "(string \<Rightarrow> payload \<Rightarrow> post_result) \<Rightarrow> 'cb tg \<Rightarrow> string \<Rightarrow> int \<Rightarrow> string \<Rightarrow> InlineKeyboardMarkup option \<Rightarrow>
    string option \<times> 'cb tg" where
  "SendMessage post t message chat pmode replyMarkup =
     (let chat' = (if chat = 0 then chatID t else chat)
      in if botToken t = '''' \<or> chat' = 0 then (None, t)
         else
           let p0 = [''chat_id'' \<mapsto> JInt chat', ''text'' \<mapsto> JStr message];
               p1 = (if pmode \<noteq> '''' then p0(''parse_mode'' \<mapsto> JStr pmode) else p0);
               p2 = (case replyMarkup of None \<Rightarrow> p1 | Some rm \<Rightarrow> p1(''reply_markup'' \<mapsto> JMarkup rm))
           in send post t ''sendMessage'' p2)"

definition callback_data :: "int \<Rightarrow> nat \<Rightarrow> string" where
  "callback_data i n = Itoa i @ '':'' @ Itoa (int n)"

definition keyboard :: "Message \<Rightarrow> InlineKeyboardMarkup option" where
  "keyboard m =
     (if length (buttons m) > 0
      then Some [map (\<lambda>(i, btn). \<lparr>Text = btn, CallbackData = callback_data (mid m) i\<rparr>) (zip [0..<length (buttons m)] (buttons m))]
      else None)"

definition Send :: "(string \<Rightarrow> payload \<Rightarrow> post_result) \<Rightarrow> Message \<times> 'cb tg \<Rightarrow> string option \<times> 'cb tg" where
  "Send post mt = (case mt of (m, t) \<Rightarrow> SendMessage post t (mtext m) (mchatID m) (mode_text (parseMode m)) (keyboard m))"

subsection \<open>Callbacks\<close>

datatype 'a outcome = Ok 'a | IndexPanic | MuxPanic | Deadlock

text \<open>
  \<open>callback\<close> runs the user's function while it holds the lock; a function that
  takes the lock again blocks for ever.
\<close>

definition callback :: "('cb \<Rightarrow> string \<times> bool) \<Rightarrow> ('cb \<Rightarrow> bool) \<Rightarrow> 'cb tg \<Rightarrow> int \<Rightarrow> int \<Rightarrow> ((string \<times> bool) \<times> 'cb tg) outcome" where
  "callback run relocks t messageID iButton = (case callbacks t messageID of
      None \<Rightarrow> Ok (('''', False), tg_error ''callback for message not found'' t)
    | Some a \<Rightarrow>
        if iButton < 0 \<or> int (length a) \<le> iButton then IndexPanic
        else let t' = t\<lparr>callbacks := (callbacks t)(messageID := None)\<rparr>
          in case a ! nat iButton of
               Some fn \<Rightarrow> if relocks fn then Deadlock else Ok (run fn, t'\<lparr>performed := performed t @ [fn]\<rparr>)
             | None \<Rightarrow> Ok (('''', True), tg_error ''fn is empty'' t'))"

definition answerCallbackQuery :: "(string \<Rightarrow> payload \<Rightarrow> post_result) \<Rightarrow> 'cb tg \<Rightarrow> string \<Rightarrow> string \<Rightarrow> bool \<Rightarrow> string option \<times> 'cb tg" where
  "answerCallbackQuery post t queryID message alert =
     (let p0 = [''callback_query_id'' \<mapsto> JStr queryID];
          p1 = (if message \<noteq> '''' then p0(''text'' \<mapsto> JStr message) else p0);
          p2 = (if alert then p1(''show_alert'' \<mapsto> JBool True) else p1)
      in send post t ''answerCallbackQuery'' p2)"

definition appendMessage :: "(string \<Rightarrow> payload \<Rightarrow> post_result) \<Rightarrow> 'cb tg \<Rightarrow> int \<Rightarrow> int \<Rightarrow> string \<Rightarrow> string \<Rightarrow> MessageEntity list option \<Rightarrow>
    string option \<times> 'cb tg" where
  "appendMessage post t chat messageID text appendix entities =
     (let p0 = [''chat_id'' \<mapsto> JInt chat, ''message_id'' \<mapsto> JInt messageID, ''text'' \<mapsto> JStr (text @ appendix)];
          p1 = (case entities of None \<Rightarrow> p0 | Some es \<Rightarrow> p0(''entities'' \<mapsto> JEntities es))
      in send post t ''editMessageText'' p1)"

text \<open>The body of the request as decoded: an error, no callback query, or one.\<close>

definition WebhookHandler :: "(string \<Rightarrow> payload \<Rightarrow> post_result) \<Rightarrow> ('cb \<Rightarrow> string \<times> bool) \<Rightarrow> ('cb \<Rightarrow> bool) \<Rightarrow> 'cb tg \<Rightarrow>
    string + CallbackQuery option \<Rightarrow> 'cb tg outcome" where
  "WebhookHandler post run relocks t update = (case update of
      Inl e \<Rightarrow> Ok (tg_error ''Error decoding update'' t)
    | Inr None \<Rightarrow> Ok t
    | Inr (Some q) \<Rightarrow>
        (case split_char CHR '':'' (Data q) of
           [a, b] \<Rightarrow>
             (case callback run relocks t (fst (Atoi a)) (fst (Atoi b)) of
                IndexPanic \<Rightarrow> IndexPanic
              | MuxPanic \<Rightarrow> MuxPanic
              | Deadlock \<Rightarrow> Deadlock
              | Ok ((appendix, success), t1) \<Rightarrow>
                  (let t2 = (if success then
                        (case appendMessage post t1 (ChatID (QMessage q)) (MessageID (QMessage q)) (MText (QMessage q)) appendix
                            (Entities (QMessage q)) of
                           (Some e, t') \<Rightarrow> tg_error ''appendMessage'' t' | (None, t') \<Rightarrow> t')
                      else t1)
                   in case answerCallbackQuery post t2 (QueryID q) (if success then ''Done'' else ''Error'') (\<not> success) of
                        (Some e, t') \<Rightarrow> Ok (tg_error ''answerCallbackQuery'' t')
                      | (None, t') \<Rightarrow> Ok t'))
         | _ \<Rightarrow> Ok t))"

datatype listen_event = ListenReturned bool string | BotCtxDone

text \<open>
  \<open>Run\<close>: \<open>ListenReturned closed e\<close> is an error of the listener, with \<open>closed\<close> for
  \<open>http.ErrServerClosed\<close>.  \<open>http.HandleFunc\<close> panics on an empty pattern and on one that is
  registered already.
\<close>

definition Run :: "'cb tg \<Rightarrow> listen_event \<Rightarrow> (string option \<times> 'cb tg) outcome" where
  "Run t ev =
     (if endpoint t = '''' \<or> endpoint t \<in> set (mux t) then MuxPanic
      else
        let t0 = tg_error ''TG webhook listening'' (t\<lparr>mux := mux t @ [endpoint t]\<rparr>)
        in case ev of
             BotCtxDone \<Rightarrow> Ok (None, t0)
           | ListenReturned closed e \<Rightarrow>
               if \<not> closed then Ok (None, tg_error ''TG webhook server closed'' t0) else Ok (Some e, t0))"

text \<open>The test of the error is the wrong way round: a port that cannot be opened is no error of \<open>Run\<close>, an orderly close is one.\<close>

lemma Run_reports_wrong_errors:
  assumes "endpoint t \<noteq> ''''" and "endpoint t \<notin> set (mux t)"
  shows "\<exists>t'. Run t (ListenReturned False ''address in use'') = Ok (None, t')"
    and "\<exists>t'. Run t (ListenReturned True ''http: Server closed'') = Ok (Some ''http: Server closed'', t')"
  using assms by (simp_all add: Run_def Let_def)

subsection \<open>Facts\<close>

lemma tg_error_simps [simp]:
  "callbacks (tg_error m t) = callbacks t" "posts (tg_error m t) = posts t" "msgID (tg_error m t) = msgID t"
  "performed (tg_error m t) = performed t"
  by (simp_all add: tg_error_def)

text \<open>The payloads can be encoded and the URL is valid; what becomes of the request is open.\<close>

definition posting :: "(string \<Rightarrow> payload \<Rightarrow> post_result) \<Rightarrow> bool" where
  "posting post \<longleftrightarrow> (\<forall>u p. (\<exists>e. post u p = SendErr e) \<or> (\<exists>code st body. post u p = Response code st body))"

lemma send_posts:
  assumes "posting post"
  shows "callbacks (snd (send post t method p)) = callbacks t" "performed (snd (send post t method p)) = performed t"
    "posts (snd (send post t method p)) = posts t @ [(method, p)]"
proof -
  have "post u p \<noteq> MarshalErr e" "post u p \<noteq> RequestErr e" for u e
    using assms by (metis posting_def post_result.distinct(3,5,7,9))+
  then show "callbacks (snd (send post t method p)) = callbacks t" "performed (snd (send post t method p)) = performed t"
    "posts (snd (send post t method p)) = posts t @ [(method, p)]"
    by (auto simp: send_def Let_def split: post_result.splits)
qed

lemma buttons_added:
  "foldl WithButton (m, t) bs = (m\<lparr>buttons := buttons m @ map fst bs\<rparr>,
     if bs = [] then t else t\<lparr>callbacks := (callbacks t)(mid m \<mapsto> map_get [] (callbacks t) (mid m) @ map snd bs)\<rparr>)"
  by (induction bs arbitrary: m t) (auto simp: WithButton_def AddCallback_def Let_def)

lemma callback_data_split: "split_char CHR '':'' (callback_data i n) = [Itoa i, Itoa (int n)]"
  using split_char_append [OF Itoa_no_colon, of i "Itoa (int n)"] split_char_none [OF Itoa_no_colon]
  by (simp add: callback_data_def)

lemma keyboard_nth:
  assumes "keyboard m = Some [kb]" and "i < length (buttons m)"
  shows "kb ! i = \<lparr>Text = buttons m ! i, CallbackData = callback_data (mid m) i\<rparr>"
  using assms by (auto simp: keyboard_def split: if_splits)

text \<open>The two calls of the API after a callback.\<close>

definition edit_payload :: "CallbackQuery \<Rightarrow> string \<Rightarrow> payload" where
  "edit_payload q appendix = (case Entities (QMessage q) of
      None \<Rightarrow> [''chat_id'' \<mapsto> JInt (ChatID (QMessage q)), ''message_id'' \<mapsto> JInt (MessageID (QMessage q)),
        ''text'' \<mapsto> JStr (MText (QMessage q) @ appendix)]
    | Some es \<Rightarrow> [''chat_id'' \<mapsto> JInt (ChatID (QMessage q)), ''message_id'' \<mapsto> JInt (MessageID (QMessage q)),
        ''text'' \<mapsto> JStr (MText (QMessage q) @ appendix), ''entities'' \<mapsto> JEntities es])"

definition answer_payload :: "CallbackQuery \<Rightarrow> bool \<Rightarrow> payload" where
  "answer_payload q success =
     (if success then [''callback_query_id'' \<mapsto> JStr (QueryID q), ''text'' \<mapsto> JStr ''Done'']
      else [''callback_query_id'' \<mapsto> JStr (QueryID q), ''text'' \<mapsto> JStr ''Error'', ''show_alert'' \<mapsto> JBool True])"

lemma handler_runs:
  assumes "Data q = callback_data i n" and "in_int64 i" and "in_int64 (int n)" and "posting post"
    and "callback run relocks t i (int n) = Ok ((appendix, success), t1)"
  shows "\<exists>t2. WebhookHandler post run relocks t (Inr (Some q)) = Ok t2 \<and> callbacks t2 = callbacks t1 \<and> performed t2 = performed t1 \<and>
    posts t2 = posts t1 @ (if success then [(''editMessageText'', edit_payload q appendix)] else []) @ [(''answerCallbackQuery'', answer_payload q success)]"
proof -
  note h = assms(1) callback_data_split Atoi_Itoa [OF assms(2)] Atoi_Itoa [OF assms(3)]
  have app: "appendMessage post t1 (ChatID (QMessage q)) (MessageID (QMessage q)) (MText (QMessage q)) appendix (Entities (QMessage q))
      = send post t1 ''editMessageText'' (edit_payload q appendix)" for t1
    by (simp add: appendMessage_def edit_payload_def Let_def split: option.splits)
  have ans: "answerCallbackQuery post t2 (QueryID q) ''Done'' False = send post t2 ''answerCallbackQuery'' (answer_payload q True)"
    "answerCallbackQuery post t2 (QueryID q) ''Error'' True = send post t2 ''answerCallbackQuery'' (answer_payload q False)" for t2
    by (simp_all add: answerCallbackQuery_def answer_payload_def Let_def)
  obtain e1 u1 where e1: "send post t1 ''editMessageText'' (edit_payload q appendix) = (e1, u1)" by fastforce
  define t2 where "t2 = (if success then (case e1 of Some e \<Rightarrow> tg_error ''appendMessage'' u1 | None \<Rightarrow> u1) else t1)"
  obtain e2 u2 where e2: "send post t2 ''answerCallbackQuery'' (answer_payload q success) = (e2, u2)" by fastforce
  note p1 = send_posts [OF assms(4), of t1 "''editMessageText''" "edit_payload q appendix", unfolded e1 snd_conv]
  note p2 = send_posts [OF assms(4), of t2 "''answerCallbackQuery''" "answer_payload q success", unfolded e2 snd_conv]
  have t2: "callbacks t2 = callbacks t1" "performed t2 = performed t1" "posts t2 = posts t1 @ (if success then [(''editMessageText'', edit_payload q appendix)] else [])"
    using p1 by (simp_all add: t2_def split: option.splits)
  have "WebhookHandler post run relocks t (Inr (Some q)) = Ok (case e2 of Some e \<Rightarrow> tg_error ''answerCallbackQuery'' u2 | None \<Rightarrow> u2)"
    using e1 e2 by (cases success; cases e1) (simp_all add: WebhookHandler_def h assms(5) app ans t2_def split: option.splits)
  then show ?thesis using t2 p2 by (auto split: option.splits)
qed

subsection \<open>Properties\<close>

text \<open>
  C24: pressing a button runs the callback that was given for it, once, and no other: the
  callback data that \<open>Send\<close> puts on the \<open>i\<close>-th button of a new message leads the
  webhook to the \<open>i\<close>-th function.  If it succeeds, the pressed message is edited in its chat and its text is
  appended to; then the pressed query is answered, as done or with an alert; both calls are made whatever
  the API answers to them, as long as the requests can be formed.  All callbacks of that
  message are removed, so a second press of any of its buttons finds nothing.  The function
  must not use the bot itself, which would block it for ever.
\<close>

theorem button_press_runs_its_callback:
  assumes "createMessage t text = (m0, t0)" and "foldl WithButton (m0, t0) bs = (m, t1)" and "callbacks t (mid m0) = None"
    and "keyboard m = Some [kb]" and "i < length bs" and "snd (bs ! i) = Some fn" and "\<not> relocks fn"
    and "in_int64 (int i)" and "posting post" and "Data q = CallbackData (kb ! i)"
  shows "Text (kb ! i) = fst (bs ! i) \<and> (\<exists>t2. WebhookHandler post run relocks t1 (Inr (Some q)) = Ok t2 \<and> performed t2 = performed t1 @ [fn] \<and>
    posts t2 = posts t1 @ (if snd (run fn)
      then [(''editMessageText'', case Entities (QMessage q) of
          None \<Rightarrow> [''chat_id'' \<mapsto> JInt (ChatID (QMessage q)), ''message_id'' \<mapsto> JInt (MessageID (QMessage q)),
            ''text'' \<mapsto> JStr (MText (QMessage q) @ fst (run fn))]
        | Some es \<Rightarrow> [''chat_id'' \<mapsto> JInt (ChatID (QMessage q)), ''message_id'' \<mapsto> JInt (MessageID (QMessage q)),
            ''text'' \<mapsto> JStr (MText (QMessage q) @ fst (run fn)), ''entities'' \<mapsto> JEntities es]),
        (''answerCallbackQuery'', [''callback_query_id'' \<mapsto> JStr (QueryID q), ''text'' \<mapsto> JStr ''Done''])]
      else [(''answerCallbackQuery'', [''callback_query_id'' \<mapsto> JStr (QueryID q), ''text'' \<mapsto> JStr ''Error'', ''show_alert'' \<mapsto> JBool True])]) \<and>
    (\<forall>j. \<exists>t3. callback run relocks t2 (mid m) j = Ok (('''', False), t3) \<and> performed t3 = performed t2))"
proof -
  have m0: "mid m0 = wrap64 (msgID t + 1)" "callbacks t0 = callbacks t" "buttons m0 = []"
    using assms(1) by (auto simp: createMessage_def Let_def)
  from assms(5) have ne: "bs \<noteq> []" by auto
  with assms(2,3) m0 buttons_added [of m0 t0 bs]
  have m: "mid m = mid m0" "buttons m = map fst bs" and cb: "callbacks t1 (mid m) = Some (map snd bs)"
    by (auto simp: map_get_def)
  note kb = keyboard_nth [OF assms(4), of i]
  have c: "callback run relocks t1 (mid m) (int i) = Ok ((fst (run fn), snd (run fn)), t1\<lparr>callbacks := (callbacks t1)(mid m := None), performed := performed t1 @ [fn]\<rparr>)"
    using assms(5-7) cb by (simp add: callback_def)
  have "in_int64 (mid m)" using m(1) m0(1) wrap64_range by simp
  moreover have "Data q = callback_data (mid m) i" using assms(5,10) kb m(2) by simp
  ultimately obtain t2 where t2: "WebhookHandler post run relocks t1 (Inr (Some q)) = Ok t2" "callbacks t2 = (callbacks t1)(mid m := None)" "performed t2 = performed t1 @ [fn]"
    "posts t2 = posts t1 @ (if snd (run fn) then [(''editMessageText'', edit_payload q (fst (run fn)))] else []) @ [(''answerCallbackQuery'', answer_payload q (snd (run fn)))]"
    using handler_runs [of q "mid m" i post run relocks t1, OF _ _ assms(8,9) c] by auto
  have "\<exists>t3. callback run relocks t2 (mid m) j = Ok (('''', False), t3) \<and> performed t3 = performed t2" for j by (simp add: callback_def t2(2))
  then show ?thesis using t2 kb m(2) assms(5) by (auto simp: edit_payload_def answer_payload_def split: option.splits)
qed

theorem button_press_runs_its_callback_witness:
  "\<exists>m t1 kb t2. foldl WithButton (createMessage (New ''/tg'' 80 ''tok'' 5) ''hi'') [(''yes'', Some True), (''no'', Some False)] = (m, t1) \<and>
     keyboard m = Some [kb] \<and> CallbackData (kb ! 1) = ''1:1'' \<and>
     WebhookHandler (\<lambda>_ _. Response 403 ''Forbidden'' '''') (\<lambda>b. (''!'', b)) (\<lambda>_. False) t1
       (Inr (Some \<lparr>QueryID = ''q'', QMessage = \<lparr>MessageID = 9, MText = ''hi'', ChatID = 5, Entities = None\<rparr>, Data = CallbackData (kb ! 1)\<rparr>)) = Ok t2 \<and>
     performed t2 = [False] \<and> callbacks t2 (mid m) = None"
proof -
  let ?t = "New ''/tg'' 80 ''tok'' 5 :: bool tg"
  let ?bs = "[(''yes'', Some True), (''no'', Some False)]"
  obtain m0 t0 where c: "createMessage ?t ''hi'' = (m0, t0)" by fastforce
  have m0: "mid m0 = 1" "buttons m0 = []" using c by (auto simp: createMessage_def New_def wrap64_def Let_def)
  obtain m t1 where f: "foldl WithButton (m0, t0) ?bs = (m, t1)" by fastforce
  have m: "mid m = 1" "buttons m = [''yes'', ''no'']" using f m0 by (auto simp: WithButton_def)
  have cd: "callback_data 1 (Suc 0) = ''1:1''" by code_simp
  obtain kb where kb: "keyboard m = Some [kb]" by (simp add: keyboard_def m)
  have d: "CallbackData (kb ! 1) = ''1:1''" using keyboard_nth [OF kb, of 1] m cd by simp
  let ?q = "\<lparr>QueryID = ''q'', QMessage = \<lparr>MessageID = 9, MText = ''hi'', ChatID = 5, Entities = None\<rparr>, Data = CallbackData (kb ! 1)\<rparr>"
  have "callbacks ?t (mid m0) = None" by (simp add: New_def)
  from button_press_runs_its_callback [OF c f this kb, where i = 1 and fn = False and relocks = "\<lambda>_. False" and run = "\<lambda>b. (''!'', b)"
      and post = "\<lambda>_ _. Response 403 ''Forbidden'' ''''" and q = ?q]
  obtain t2 where t2: "WebhookHandler (\<lambda>_ _. Response 403 ''Forbidden'' '''') (\<lambda>b. (''!'', b)) (\<lambda>_. False) t1 (Inr (Some ?q)) = Ok t2"
    and r: "performed t2 = performed t1 @ [False]"
    and none: "\<forall>j. \<exists>t3. callback (\<lambda>b. (''!'', b)) (\<lambda>_. False) t2 (mid m) j = Ok (('''', False), t3) \<and> performed t3 = performed t2"
    by (auto simp: in_int64_def min_int64_def max_int64_def posting_def)
  have "performed t1 = []" using c f by (auto simp: createMessage_def New_def WithButton_def AddCallback_def Let_def)
  moreover from none [THEN spec, of "-1"] have "callbacks t2 (mid m) = None" by (auto simp: callback_def split: option.splits)
  ultimately show ?thesis using c f kb d t2 r by auto
qed

text \<open>
  A press with a button number that the message does not have panics, and a callback
  that uses the bot itself never returns.
\<close>

lemma callback_out_of_range:
  assumes "callbacks t i = Some a" and "n < 0 \<or> int (length a) \<le> n"
  shows "callback run relocks t i n = IndexPanic"
  using assms by (auto simp: callback_def)

lemma callback_relock:
  assumes "callbacks t i = Some a" and "n < length a" and "a ! n = Some fn" and "relocks fn"
  shows "callback run relocks t i (int n) = Deadlock"
  using assms by (auto simp: callback_def)

end
