(* ===== verification/Dbase.thy ===== *)
theory Dbase
  imports Files
begin

text \<open>
  Package \<open>dbase\<close> (src/dbase/constructor.go, migrator.go, abstract/abstract.go) and its
  implementation for PostgreSQL (src/dbase/postgresql/impl.go).  The driver pgx, and the
  server behind it, are the argument \<open>drv\<close>: functions on a server state \<open>'s\<close> and
  transactions \<open>'t\<close>.  The migrator walks the file system of theory \<open>Files\<close>; the
  recursion into directories has fuel, and \<open>Migrate_returns\<close> shows that the fuel that
  \<open>Migrate\<close> gives it is enough.  \<open>migration_laws\<close> collects what PostgreSQL promises
  of the five statements that the migrator sends.
\<close>

subsection \<open>The driver\<close>

datatype arg = AStr string | ABytes string | AInt int

datatype dbval = VBool bool | VStr string | VInt int

datatype get_error = NoRows | GetErr string

record ('s, 't) driver =
  parse_config :: "string \<Rightarrow> string option"
  pool_connect :: "string \<Rightarrow> 's \<Rightarrow> string option \<times> 's"
  pool_begin :: "'s \<Rightarrow> (string + 't) \<times> 's"
  tx_begin :: "'t \<Rightarrow> 's \<Rightarrow> (string + 't) \<times> 's"
  tx_rollback :: "'t \<Rightarrow> 's \<Rightarrow> string option \<times> 's"
  tx_commit :: "'t \<Rightarrow> 's \<Rightarrow> string option \<times> 's"
  pool_ping :: "'s \<Rightarrow> string option \<times> 's"
  select_rows :: "'t option \<Rightarrow> string \<Rightarrow> arg list \<Rightarrow> 's \<Rightarrow> (string + dbval list list) \<times> 's"
  get_row :: "'t option \<Rightarrow> string \<Rightarrow> arg list \<Rightarrow> 's \<Rightarrow> (get_error + dbval list) \<times> 's"
  scan_value :: "'t option \<Rightarrow> string \<Rightarrow> arg list \<Rightarrow> 's \<Rightarrow> (string + dbval) \<times> 's"
  exec_sql :: "'t option \<Rightarrow> string \<Rightarrow> arg list \<Rightarrow> 's \<Rightarrow> string option \<times> 's"
  pool_close :: "'s \<Rightarrow> 's"

subsection \<open>postgresql/impl.go\<close>

text \<open>\<open>conn\<close> is the pool (\<open>None\<close>) or the transaction that queries go to.\<close>

record 't Psql =
  pool :: bool
  conn :: "'t option"
  tx :: "'t option"

definition New_psql :: "('s, 't) driver \<Rightarrow> string \<Rightarrow> 's \<Rightarrow> (string + 't Psql) \<times> 's" where
  "New_psql drv c s = (case parse_config drv c of
      Some e \<Rightarrow> (Inl e, s)
    | None \<Rightarrow> (case pool_connect drv c s of
        (Some e, s1) \<Rightarrow> (Inl e, s1)
      | (None, s1) \<Rightarrow> (Inr \<lparr>pool = True, conn = None, tx = None\<rparr>, s1)))"

definition BeginTransaction :: "('s, 't) driver \<Rightarrow> 't Psql \<Rightarrow> 's \<Rightarrow> (string + 't Psql) \<times> 's" where
  "BeginTransaction drv p s = (case (case tx p of Some t \<Rightarrow> tx_begin drv t s | None \<Rightarrow> pool_begin drv s) of
      (Inl e, s1) \<Rightarrow> (Inl e, s1)
    | (Inr t, s1) \<Rightarrow> (Inr \<lparr>pool = pool p, conn = Some t, tx = Some t\<rparr>, s1))"

definition Rollback :: "('s, 't) driver \<Rightarrow> 't Psql \<Rightarrow> 's \<Rightarrow> string option \<times> 't Psql \<times> 's" where
  "Rollback drv p s = (case tx p of
      None \<Rightarrow> (Some ''no transaction on rollback'', p, s)
    | Some t \<Rightarrow> (case tx_rollback drv t s of (err, s1) \<Rightarrow> (err, p\<lparr>tx := None, conn := None\<rparr>, s1)))"

definition Commit :: "('s, 't) driver \<Rightarrow> 't Psql \<Rightarrow> 's \<Rightarrow> string option \<times> 't Psql \<times> 's" where
  "Commit drv p s = (case tx p of
      None \<Rightarrow> (Some ''no transaction on commit'', p, s)
    | Some t \<Rightarrow> (case tx_commit drv t s of (err, s1) \<Rightarrow> (err, p\<lparr>tx := None, conn := None\<rparr>, s1)))"

definition Connect :: "('s, 't) driver \<Rightarrow> 't Psql \<Rightarrow> 's \<Rightarrow> string option \<times> 's" where
  "Connect drv p s = pool_ping drv s"

definition Query :: "('s, 't) driver \<Rightarrow> 't Psql \<Rightarrow> string \<Rightarrow> arg list \<Rightarrow> 's \<Rightarrow> (string + dbval list list) \<times> 's" where
  "Query drv p query args s = select_rows drv (conn p) query args s"

text \<open>\<open>QueryRow\<close>: whether a row was found, the error, and the row.\<close>

definition QueryRow :: "('s, 't) driver \<Rightarrow> 't Psql \<Rightarrow> string \<Rightarrow> arg list \<Rightarrow> 's \<Rightarrow> (bool \<times> string option \<times> dbval list) \<times> 's" where
  "QueryRow drv p query args s = (case get_row drv (conn p) query args s of
      (Inl NoRows, s1) \<Rightarrow> ((False, None, []), s1)
    | (Inl (GetErr e), s1) \<Rightarrow> ((False, Some e, []), s1)
    | (Inr row, s1) \<Rightarrow> ((True, None, row), s1))"

definition QueryValue :: "('s, 't) driver \<Rightarrow> 't Psql \<Rightarrow> string \<Rightarrow> arg list \<Rightarrow> 's \<Rightarrow> (string + dbval) \<times> 's" where
  "QueryValue drv p query args s = scan_value drv (conn p) query args s"

definition Exec :: "('s, 't) driver \<Rightarrow> 't Psql \<Rightarrow> string \<Rightarrow> arg list \<Rightarrow> 's \<Rightarrow> string option \<times> 's" where
  "Exec drv p query args s = exec_sql drv (conn p) query args s"

definition Close :: "('s, 't) driver \<Rightarrow> 't Psql \<Rightarrow> 's \<Rightarrow> 's" where
  "Close drv p s = (if pool p then pool_close drv s else s)"

subsection \<open>migrator.go\<close>

datatype mig_error = MigrationDirNotFound | DBErr string | PathErr string | FileErr fs_error

record ('s, 't) Migrator =
  drv :: "('s, 't) driver"
  db :: "'t Psql"
  sha1 :: "string \<Rightarrow> string"
  disk :: fs

definition NewMigrator :: "('s, 't) driver \<Rightarrow> (string \<Rightarrow> string) \<Rightarrow> fs \<Rightarrow> 't Psql \<Rightarrow> ('s, 't) Migrator" where
  "NewMigrator d h f p = \<lparr>drv = d, db = p, sha1 = h, disk = f\<rparr>"

text \<open>The statements of the source, with runs of white space collapsed.\<close>

definition table_exists_sql :: string where
  "table_exists_sql = ''select exists ( select from information_schema.tables where table_schema = 'public' and table_name = 'schema_migrations' );''"

definition create_table_sql :: string where
  "create_table_sql = ''create table public.schema_migrations ( id serial4 not null, object_name text, hash bytea, dt timestamp default now(), constraint pk_schema_migrations primary key (id), unique(object_name) )''"

definition find_hash_sql :: string where
  "find_hash_sql = ''select exists (select from public.schema_migrations where hash = $1)''"

definition store_hash_sql :: string where
  "store_hash_sql = ''insert into public.schema_migrations (object_name, hash) values ($1, $2) on conflict (object_name) do update set hash = excluded.hash''"

fun scan_bool :: "string + dbval \<Rightarrow> string + bool" where
  "scan_bool (Inl e) = Inl e"
| "scan_bool (Inr (VBool b)) = Inr b"
| "scan_bool (Inr v) = Inl ''cannot scan into bool''"

definition assureMigrationSupported :: "('s, 't) Migrator \<Rightarrow> 's \<Rightarrow> mig_error option \<times> 's" where
  "assureMigrationSupported m s = (case QueryValue (drv m) (db m) table_exists_sql [] s of (r, s1) \<Rightarrow>
      (case scan_bool r of
         Inl e \<Rightarrow> (Some (DBErr e), s1)
       | Inr True \<Rightarrow> (None, s1)
       | Inr False \<Rightarrow> (case Exec (drv m) (db m) create_table_sql [] s1 of
           (Some e, s2) \<Rightarrow> (Some (DBErr e), s2)
         | (None, s2) \<Rightarrow> (None, s2))))"

definition readFileContents :: "fs \<Rightarrow> string \<Rightarrow> fs_error + string" where
  "readFileContents f file = (case Open f file of
      Inl e \<Rightarrow> Inl e
    | Inr h \<Rightarrow> (case read_handle f h of Inl e \<Rightarrow> Inl e | Inr b \<Rightarrow> Inr b))"

definition hex_digit :: "nat \<Rightarrow> char" where
  "hex_digit d = ''0123456789abcdef'' ! d"

definition EncodeToString :: "string \<Rightarrow> string" where
  "EncodeToString bs = concat (map (\<lambda>c. [hex_digit (of_char c div 16), hex_digit (of_char c mod 16)]) bs)"

text \<open>The part of \<open>applyMigration\<close> between the start of the transaction and its deferred rollback.\<close>

definition apply_in_tx :: "('s, 't) Migrator \<Rightarrow> 't Psql \<Rightarrow> string \<Rightarrow> string \<Rightarrow> 's \<times> log_entry list \<Rightarrow>
    mig_error option \<times> 't Psql \<times> 's \<times> log_entry list" where
  "apply_in_tx m p contents file c = (case c of (s, lg) \<Rightarrow>
     (case Exec (drv m) p contents [] s of
        (Some e, s1) \<Rightarrow> (Some (DBErr e), p, s1, lg @ [(''error'', ''failed'', file)])
      | (None, s1) \<Rightarrow> (case Exec (drv m) p store_hash_sql [AStr (Base file), ABytes (sha1 m contents)] s1 of
          (Some e, s2) \<Rightarrow> (Some (DBErr e), p, s2, lg)
        | (None, s2) \<Rightarrow> (case Commit (drv m) p s2 of
            (_, p', s3) \<Rightarrow> (None, p', s3, lg @ [(''info'', ''applied file'', file)])))))"

definition applyMigration :: "('s, 't) Migrator \<Rightarrow> string \<Rightarrow> string \<Rightarrow> 's \<times> log_entry list \<Rightarrow> mig_error option \<times> 's \<times> log_entry list" where
  "applyMigration m basePath file c = (case c of (s, lg) \<Rightarrow>
     (case readFileContents (disk m) (Join [basePath, file]) of
        Inl e \<Rightarrow> (Some (FileErr e), s, lg)
      | Inr contents \<Rightarrow> (case QueryValue (drv m) (db m) find_hash_sql [ABytes (sha1 m contents)] s of (r, s1) \<Rightarrow>
          (case scan_bool r of
             Inl e \<Rightarrow> (Some (DBErr e), s1, lg)
           | Inr True \<Rightarrow> (None, s1, lg)
           | Inr False \<Rightarrow>
               (let lg1 = lg @ [(''info'', ''migrator'', EncodeToString (sha1 m contents))]
                in case BeginTransaction (drv m) (db m) s1 of
                     (Inl e, s2) \<Rightarrow> (Some (DBErr e), s2, lg1 @ [(''error'', ''migrator'', e)])
                   | (Inr p, s2) \<Rightarrow> (case apply_in_tx m p contents file (s2, lg1) of
                       (err, p', s3, lg2) \<Rightarrow> (err, snd (snd (Rollback (drv m) p' s3)), lg2)))))))"

text \<open>A loop that stops at the first error; \<open>None\<close> is a body that ran out of fuel.\<close>

fun each :: "('a \<Rightarrow> 'c \<Rightarrow> ('e option \<times> 'c) option) \<Rightarrow> 'a list \<Rightarrow> 'c \<Rightarrow> ('e option \<times> 'c) option" where
  "each g [] c = Some (None, c)"
| "each g (x # xs) c = (case g x c of
      None \<Rightarrow> None
    | Some (Some e, c') \<Rightarrow> Some (Some e, c')
    | Some (None, c') \<Rightarrow> each g xs c')"

text \<open>The entries of a directory, sorted by name; the error of \<open>ReadDir\<close> is dropped.\<close>

definition entries :: "fs \<Rightarrow> string \<Rightarrow> (string \<times> bool) list" where
  "entries f p = sort_key fst (case ReadDir f p of Inl e \<Rightarrow> [] | Inr es \<Rightarrow> es)"

fun processFilesIn :: "('s, 't) Migrator \<Rightarrow> nat \<Rightarrow> string \<Rightarrow> string \<Rightarrow> 's \<times> log_entry list \<Rightarrow>
    (mig_error option \<times> 's \<times> log_entry list) option" where
  "processFilesIn m 0 basePath inPath c = None"
| "processFilesIn m (Suc n) basePath inPath c =
     (let fullPath = Join [basePath, inPath]
      in if Stat (disk m) fullPath = Inl ErrNotExist
         then Some (None, fst c, snd c @ [(''warn'', ''migration dir not found'', fullPath)])
         else
           let files = entries (disk m) fullPath
           in case each (\<lambda>file. processFilesIn m n basePath (Join [inPath, fst file])) (filter snd files) c of
                None \<Rightarrow> None
              | Some (Some e, c') \<Rightarrow> Some (Some e, c')
              | Some (None, c') \<Rightarrow>
                  each (\<lambda>file c. Some (applyMigration m basePath (Join [inPath, fst file]) c)) (filter (Not \<circ> snd) files) c')"

definition objects :: "string list" where
  "objects = [''Schemas'', ''Tables'', ''Procedures'', ''Triggers'', ''Migrations'']"

definition depth_fuel :: "fs \<Rightarrow> nat" where
  "depth_fuel f = Suc (fold max (map (length \<circ> fst) (nodes f)) 0)"

definition Migrate :: "('s, 't) Migrator \<Rightarrow> string \<Rightarrow> 's \<times> log_entry list \<Rightarrow> (mig_error option \<times> 's \<times> log_entry list) option" where
  "Migrate m basePath c = (case c of (s, lg) \<Rightarrow>
     if basePath = '''' then Some (None, s, lg)
     else (case assureMigrationSupported m s of
         (Some e, s1) \<Rightarrow> Some (Some e, s1, lg)
       | (None, s1) \<Rightarrow> (case NormalizePath (disk m) basePath of
           Inl e \<Rightarrow> Some (Some (PathErr e), s1, lg)
         | Inr path \<Rightarrow>
             if Stat (disk m) path = Inl ErrNotExist
             then Some (Some MigrationDirNotFound, s1, lg @ [(''warn'', ''migrator'', path)])
             else each (\<lambda>obj. processFilesIn m (depth_fuel (disk m)) path obj) objects
                    (s1, lg @ [(''info'', ''applying migrations...'', '''')]))))"

subsection \<open>constructor.go\<close>

record Config =
  Type :: string
  ConnString :: string
  Migrations :: string

definition SkipMigration :: int where
  "SkipMigration = 1"

definition is_word :: "char \<Rightarrow> bool" where
  "is_word c \<longleftrightarrow> is_digit c \<or> (CHR ''a'' \<le> c \<and> c \<le> CHR ''z'') \<or> (CHR ''A'' \<le> c \<and> c \<le> CHR ''Z'') \<or> c = CHR ''_''"

text \<open>The group of the leftmost match of \<open>dbname=(\w+)\<close>.\<close>

fun match_dbname :: "string \<Rightarrow> string option" where
  "match_dbname [] = None"
| "match_dbname (c # cs) =
     (if HasPrefix (c # cs) ''dbname='' \<and> takeWhile is_word (drop 7 (c # cs)) \<noteq> []
      then Some (takeWhile is_word (drop 7 (c # cs))) else match_dbname cs)"

text \<open>
  What \<open>New\<close> leaves behind: the log, the sleeps in nanoseconds, and whether the
  goroutine that closes the pool at the end of the context has been started.
\<close>

record trace =
  entries_log :: "log_entry list"
  sleeps :: "int list"
  closer :: bool

definition add_log :: "log_entry \<Rightarrow> trace \<Rightarrow> trace" where
  "add_log e r = r\<lparr>entries_log := entries_log r @ [e]\<rparr>"

definition retries :: nat where
  "retries = 10"

fun connect_loop :: "('s, 't) driver \<Rightarrow> string \<Rightarrow> string \<Rightarrow> nat list \<Rightarrow> int \<Rightarrow> 's \<times> trace \<Rightarrow> 't Psql option \<times> 's \<times> trace" where
  "connect_loop d cs dbName [] delay c = (None, c)"
| "connect_loop d cs dbName (i # is) delay (s, r) = (case New_psql d cs s of
      (Inr p, s1) \<Rightarrow> (Some p, s1, r)
    | (Inl e, s1) \<Rightarrow>
        (let r1 = add_log (''error'', ''postgresql.New'', dbName) r
         in if i < retries - 1
            then connect_loop d cs dbName is ((delay * 120) div 100) (s1, r1\<lparr>sleeps := sleeps r1 @ [delay]\<rparr>)
            else connect_loop d cs dbName is delay (s1, r1)))"

text \<open>The outer option is \<open>None\<close> only if the walk over the migrations runs out of fuel.\<close>

definition New :: "('s, 't) driver \<Rightarrow> (string \<Rightarrow> string) \<Rightarrow> fs \<Rightarrow> Config \<Rightarrow> int list \<Rightarrow> 's \<Rightarrow> ('t Psql option \<times> 's \<times> trace) option" where
  "New d h f cfg options s =
     (let r0 = \<lparr>entries_log = [], sleeps = [], closer = False\<rparr>
      in if Type cfg \<noteq> ''postgres'' then Some (None, s, add_log (''error'', ''unsupported DB type'', Type cfg) r0)
         else
           let dbName = (case match_dbname (ConnString cfg) of None \<Rightarrow> ''?'' | Some n \<Rightarrow> n)
           in case connect_loop d (ConnString cfg) dbName [0..<retries] 1000000000 (s, r0) of
                (None, s1, r1) \<Rightarrow> Some (None, s1, r1)
              | (Some p, s1, r1) \<Rightarrow>
                  (let r2 = add_log (''info'', ''connecting to database'', dbName) r1
                   in case Connect d p s1 of
                        (Some e, s2) \<Rightarrow> Some (None, s2, add_log (''error'', ''DB.connect'', dbName) r2)
                      | (None, s2) \<Rightarrow>
                          let r3 = r2\<lparr>closer := True\<rparr>
                          in if SkipMigration \<in> set options then Some (Some p, s2, r3)
                             else (case Migrate (NewMigrator d h f p) (Migrations cfg) (s2, entries_log r3) of
                                 None \<Rightarrow> None
                               | Some (Some e, s3, lg) \<Rightarrow> Some (None, s3, add_log (''error'', ''migration'', dbName) (r3\<lparr>entries_log := lg\<rparr>))
                               | Some (None, s3, lg) \<Rightarrow> Some (Some p, s3, r3\<lparr>entries_log := lg\<rparr>))))"

subsection \<open>Transaction handles\<close>

text \<open>
  What a client of \<open>abstract.DB\<close> relies on: the handle of a started transaction is open,
  \<open>Commit\<close> and \<open>Rollback\<close> close it, and on a closed handle both only report an error.
  The client's pattern is a rollback deferred right after the start.
\<close>

locale tx_handle =
  fixes start :: "'p \<Rightarrow> 's \<Rightarrow> (string + 'p) \<times> 's"
    and commit :: "'p \<Rightarrow> 's \<Rightarrow> string option \<times> 'p \<times> 's"
    and rollback :: "'p \<Rightarrow> 's \<Rightarrow> string option \<times> 'p \<times> 's"
    and is_open :: "'p \<Rightarrow> bool"
  assumes start_opens: "start p s = (Inr q, s') \<Longrightarrow> is_open q"
    and commit_closes: "commit p s = (e, q, s') \<Longrightarrow> \<not> is_open q"
    and rollback_closes: "rollback p s = (e, q, s') \<Longrightarrow> \<not> is_open q"
    and closed_commit: "\<not> is_open p \<Longrightarrow> \<exists>e. commit p s = (Some e, p, s)"
    and closed_rollback: "\<not> is_open p \<Longrightarrow> \<exists>e. rollback p s = (Some e, p, s)"
begin

lemma deferred_rollback_after_commit:
  assumes "commit p s = (e, q, s')"
  shows "\<exists>e'. rollback q s' = (Some e', q, s')"
  using closed_rollback commit_closes [OF assms] by blast

lemma rollback_twice:
  assumes "rollback p s = (e, q, s')"
  shows "\<exists>e'. rollback q s' = (Some e', q, s')" and "\<exists>e'. commit q s' = (Some e', q, s')"
  using closed_rollback closed_commit rollback_closes [OF assms] by blast+

end

interpretation psql: tx_handle "BeginTransaction d" "Commit d" "Rollback d" "\<lambda>p. tx p \<noteq> None" for d
  by unfold_locales (auto simp: BeginTransaction_def Commit_def Rollback_def split: sum.splits prod.splits option.splits)

subsection \<open>The walk as a list of steps\<close>

datatype step = Missing string | Apply string

fun plan :: "fs \<Rightarrow> nat \<Rightarrow> string \<Rightarrow> string \<Rightarrow> step list option" where
  "plan f 0 basePath inPath = None"
| "plan f (Suc n) basePath inPath =
     (let fullPath = Join [basePath, inPath]
      in if Stat f fullPath = Inl ErrNotExist then Some [Missing fullPath]
         else
           let files = entries f fullPath
           in map_option (\<lambda>ps. concat ps @ map (\<lambda>e. Apply (Join [inPath, fst e])) (filter (Not \<circ> snd) files))
                (those (map (\<lambda>e. plan f n basePath (Join [inPath, fst e])) (filter snd files))))"

fun run_step :: "('s, 't) Migrator \<Rightarrow> string \<Rightarrow> step \<Rightarrow> 's \<times> log_entry list \<Rightarrow> mig_error option \<times> 's \<times> log_entry list" where
  "run_step m basePath (Missing p) c = (None, fst c, snd c @ [(''warn'', ''migration dir not found'', p)])"
| "run_step m basePath (Apply file) c = applyMigration m basePath file c"

definition run_steps :: "('s, 't) Migrator \<Rightarrow> string \<Rightarrow> step list \<Rightarrow> 's \<times> log_entry list \<Rightarrow> (mig_error option \<times> 's \<times> log_entry list) option" where
  "run_steps m basePath = each (\<lambda>st c. Some (run_step m basePath st c))"

lemma each_append:
  "each g (xs @ ys) c = (case each g xs c of None \<Rightarrow> None | Some (Some e, c') \<Rightarrow> Some (Some e, c') | Some (None, c') \<Rightarrow> each g ys c')"
  by (induction xs arbitrary: c) (auto split: option.splits)

lemma each_concat:
  assumes "\<And>x c. x \<in> set xs \<Longrightarrow> g x c = each h (k x) c"
  shows "each g xs c = each h (concat (map k xs)) c"
  using assms by (induction xs arbitrary: c) (auto simp: each_append split: option.splits)

lemma each_cong: "(\<And>x c. x \<in> set xs \<Longrightarrow> g x c = h x c) \<Longrightarrow> each g xs c = each h xs c"
  by (induction xs arbitrary: c) (auto split: option.splits)

lemma each_map: "each g (map k xs) c = each (g \<circ> k) xs c"
  by (induction xs arbitrary: c) (auto split: option.splits)

lemma those_map: "those (map g xs) = Some ys \<Longrightarrow> ys = map (the \<circ> g) xs \<and> (\<forall>x \<in> set xs. g x \<noteq> None)"
  by (induction xs arbitrary: ys) (auto split: option.splits)

lemma those_defined: "(\<forall>x \<in> set xs. g x \<noteq> None) \<Longrightarrow> \<exists>ys. those (map g xs) = Some ys"
  by (induction xs) (auto split: option.splits)

text \<open>The recursive walk does the steps of the plan in order.\<close>

lemma processFilesIn_plan:
  "plan (disk m) n basePath inPath = Some sts \<Longrightarrow> processFilesIn m n basePath inPath c = run_steps m basePath sts c"
proof (induction n arbitrary: inPath sts c)
  case (Suc n)
  let ?full = "Join [basePath, inPath]"
  let ?files = "entries (disk m) ?full"
  show ?case
  proof (cases "Stat (disk m) ?full = Inl ErrNotExist")
    case True
    with Suc.prems show ?thesis by (auto simp: run_steps_def Let_def)
  next
    case False
    let ?sub = "\<lambda>e. plan (disk m) n basePath (Join [inPath, fst e])"
    from Suc.prems False obtain ps where ps: "those (map ?sub (filter snd ?files)) = Some ps"
      and sts: "sts = concat ps @ map (\<lambda>e. Apply (Join [inPath, fst e])) (filter (Not \<circ> snd) ?files)"
      by (auto simp: Let_def)
    have "each (\<lambda>file. processFilesIn m n basePath (Join [inPath, fst file])) (filter snd ?files) c'
      = run_steps m basePath (concat (map (the \<circ> ?sub) (filter snd ?files))) c'" for c'
      unfolding run_steps_def using those_map [OF ps] Suc.IH by (intro each_concat) (fastforce simp: run_steps_def)
    then have dirs: "each (\<lambda>file. processFilesIn m n basePath (Join [inPath, fst file])) (filter snd ?files) c'
      = run_steps m basePath (concat ps) c'" for c'
      using those_map [OF ps] by simp
    then show ?thesis
      using False sts by (simp add: Let_def run_steps_def each_append each_map comp_def split: option.splits prod.splits)
  qed
qed simp

subsection \<open>The fuel is enough\<close>

definition well_formed :: "fs \<Rightarrow> bool" where
  "well_formed f \<longleftrightarrow> IsAbs (cwd f) \<and> list_all (\<lambda>(k, _). list_all proper_name k) (nodes f)"

lemma fold_max_ge: "x \<in> set xs \<Longrightarrow> (x :: nat) \<le> fold max xs a"
proof -
  have "a \<le> fold max xs a \<and> (\<forall>x \<in> set xs. x \<le> fold max xs a)" for a
    by (induction xs arbitrary: a) (auto, metis max.bounded_iff, metis max.bounded_iff)
  then show "x \<in> set xs \<Longrightarrow> x \<le> fold max xs a" by blast
qed

lemma entries_dir:
  assumes "well_formed f" and "(c, d) \<in> set (entries f p)"
  shows "proper_name c" and "d \<Longrightarrow> length (locate f p) + 1 < depth_fuel f"
proof -
  from assms(2) have "c \<in> (last \<circ> fst) ` {x \<in> set (nodes f). fst x \<noteq> [] \<and> butlast (fst x) = locate f p}"
    by (auto simp: entries_def ReadDir_def Let_def split: sum.splits node.splits option.splits)
  then obtain j v where j: "(j, v) \<in> set (nodes f)" "j \<noteq> []" "butlast j = locate f p" "last j = c" by auto
  with assms(1) show "proper_name c" by (fastforce simp: well_formed_def list_all_iff)
  from j have "length j = length (locate f p) + 1" by (metis add.commute length_append_singleton append_butlast_last_id plus_1_eq_Suc)
  moreover have "length j \<le> fold max (map (length \<circ> fst) (nodes f)) 0" using j(1) by (intro fold_max_ge) force
  ultimately show "d \<Longrightarrow> length (locate f p) + 1 < depth_fuel f" by (simp add: depth_fuel_def)
qed

lemma plan_defined:
  assumes "well_formed f" and "canonical base" and "cs \<noteq> []" and "list_all proper_name cs"
    and "depth_fuel f \<le> n + length cs + length (parts base)" and "0 < n"
  shows "\<exists>sts. plan f n base (join_str ''/'' cs) = Some sts"
  using assms(3-)
proof (induction n arbitrary: cs)
  case (Suc n)
  let ?full = "Join [base, join_str ''/'' cs]"
  have loc: "locate f ?full = parts base @ cs"
    using parts_below [OF assms(2) Suc.prems(1,2)] canonical_abs by (simp add: locate_parts)
  have sub: "plan f n base (Join [join_str ''/'' cs, fst e]) \<noteq> None" if mem: "e \<in> set (filter snd (entries f ?full))" for e
  proof -
    from mem have "snd e" by simp
    then obtain c where e: "e = (c, True)" by (metis prod.collapse)
    with mem have e': "(c, True) \<in> set (entries f ?full)" by simp
    note d = entries_dir [OF assms(1) e']
    with loc Suc.prems have "0 < n" "depth_fuel f \<le> n + length (cs @ [c]) + length (parts base)"
      "list_all proper_name (cs @ [c])" by auto
    then show ?thesis using Suc.IH [of "cs @ [c]"] Join_rel [OF Suc.prems(1), of c] e by fastforce
  qed
  then show ?case using those_defined [of "filter snd (entries f ?full)" "\<lambda>e. plan f n base (Join [join_str ''/'' cs, fst e])"]
    by (auto simp: Let_def)
qed simp

lemma objects_proper: "obj \<in> set objects \<Longrightarrow> proper_name obj"
  by (auto simp: objects_def proper_name_def)

definition full_plan :: "fs \<Rightarrow> string \<Rightarrow> step list" where
  "full_plan f path = concat (map (\<lambda>obj. the (plan f (depth_fuel f) path obj)) objects)"

lemma object_plan:
  assumes "well_formed f" and "canonical path" and "obj \<in> set objects"
  shows "plan f (depth_fuel f) path obj = Some (the (plan f (depth_fuel f) path obj))"
  using plan_defined [OF assms(1,2), of "[obj]" "depth_fuel f"] objects_proper [OF assms(3)] by (auto simp: depth_fuel_def)

lemma normalized_canonical: "well_formed f \<Longrightarrow> NormalizePath f p = Inr q \<Longrightarrow> canonical q"
  using Abs_path_canonical canonical_abs Clean_abs_canonical
  by (fastforce simp: NormalizePath_def Let_def well_formed_def split: sum.splits)

lemma Migrate_steps:
  assumes "well_formed (disk m)" and "basePath \<noteq> ''''" and "assureMigrationSupported m s = (None, s1)"
    and "NormalizePath (disk m) basePath = Inr path" and "Stat (disk m) path \<noteq> Inl ErrNotExist"
  shows "Migrate m basePath (s, lg) =
    run_steps m path (full_plan (disk m) path) (s1, lg @ [(''info'', ''applying migrations...'', '''')])"
proof -
  note can = normalized_canonical [OF assms(1,4)]
  have "each (\<lambda>obj. processFilesIn m (depth_fuel (disk m)) path obj) objects c = run_steps m path (full_plan (disk m) path) c" for c
    unfolding run_steps_def full_plan_def
    using processFilesIn_plan [OF object_plan [OF assms(1) can]] by (intro each_concat) (auto simp: run_steps_def)
  then show ?thesis using assms by (simp add: Migrate_def)
qed

lemma run_steps_returns: "\<exists>err c'. run_steps m path sts c = Some (err, c')"
proof (induction sts arbitrary: c)
  case (Cons st sts)
  then show ?case by (cases "run_step m path st c") (auto simp: run_steps_def split: option.splits)
qed (simp add: run_steps_def)

subsection \<open>What PostgreSQL promises\<close>

text \<open>
  \<open>recs\<close> reads the committed rows of \<open>schema_migrations\<close> (\<open>None\<close> before the table
  is created), \<open>view\<close> the rows as a transaction sees them.  \<open>scripts\<close> are texts that
  neither touch that table nor end the transaction they run in.  Queries may fail; nobody
  else changes the table meanwhile.  A commit that reports an error may have taken place or not.
\<close>

definition query_laws :: "('s, 't) driver \<Rightarrow> ('s \<Rightarrow> (string \<rightharpoonup> string) option) \<Rightarrow> bool" where
  "query_laws d recs \<longleftrightarrow>
     (\<forall>s r s'. scan_value d None table_exists_sql [] s = (r, s') \<longrightarrow>
        recs s' = recs s \<and> (\<forall>v. r = Inr v \<longrightarrow> v = VBool (recs s \<noteq> None))) \<and>
     (\<forall>s t h r s'. recs s = Some t \<and> scan_value d None find_hash_sql [ABytes h] s = (r, s') \<longrightarrow>
        recs s' = Some t \<and> (\<forall>v. r = Inr v \<longrightarrow> v = VBool (h \<in> ran t))) \<and>
     (\<forall>s s'. recs s = None \<and> exec_sql d None create_table_sql [] s = (None, s') \<longrightarrow> recs s' = Some Map.empty)"

definition tx_laws :: "('s, 't) driver \<Rightarrow> ('s \<Rightarrow> (string \<rightharpoonup> string) option) \<Rightarrow> ('t \<Rightarrow> 's \<Rightarrow> (string \<rightharpoonup> string) option) \<Rightarrow> string set \<Rightarrow> bool" where
  "tx_laws d recs view scripts \<longleftrightarrow>
     (\<forall>s r s'. pool_begin d s = (r, s') \<longrightarrow> recs s' = recs s \<and> (\<forall>x. r = Inr x \<longrightarrow> view x s' = recs s)) \<and>
     (\<forall>x q a s r s'. (q \<in> scripts \<or> q = store_hash_sql) \<and> exec_sql d (Some x) q a s = (r, s') \<longrightarrow> recs s' = recs s) \<and>
     (\<forall>x s r s'. tx_rollback d x s = (r, s') \<longrightarrow> recs s' = recs s) \<and>
     (\<forall>x s r s'. tx_commit d x s = (r, s') \<longrightarrow> recs s' = view x s \<or> r \<noteq> None \<and> recs s' = recs s)"

definition script_laws :: "('s, 't) driver \<Rightarrow> ('t \<Rightarrow> 's \<Rightarrow> (string \<rightharpoonup> string) option) \<Rightarrow> string set \<Rightarrow> bool" where
  "script_laws d view scripts \<longleftrightarrow>
     (\<forall>x q s s'. q \<in> scripts \<and> exec_sql d (Some x) q [] s = (None, s') \<longrightarrow> view x s' = view x s) \<and>
     (\<forall>x n h s t s'. view x s = Some t \<and> exec_sql d (Some x) store_hash_sql [AStr n, ABytes h] s = (None, s') \<longrightarrow>
        view x s' = Some (t(n \<mapsto> h)))"

text \<open>No commit fails.  The migrator does not look at the error of \<open>Commit\<close>, see \<open>commit_failure_is_ignored\<close>.\<close>

definition commits :: "('s, 't) driver \<Rightarrow> bool" where
  "commits d \<longleftrightarrow> (\<forall>x s. fst (tx_commit d x s) = None)"

definition migration_laws :: "('s, 't) Migrator \<Rightarrow> ('s \<Rightarrow> (string \<rightharpoonup> string) option) \<Rightarrow> ('t \<Rightarrow> 's \<Rightarrow> (string \<rightharpoonup> string) option) \<Rightarrow> string set \<Rightarrow> bool" where
  "migration_laws m recs view scripts \<longleftrightarrow> conn (db m) = None \<and> tx (db m) = None \<and>
     query_laws (drv m) recs \<and> tx_laws (drv m) recs view scripts \<and> script_laws (drv m) view scripts"

lemma scan_bool_true: "scan_bool r = Inr b \<longleftrightarrow> r = Inr (VBool b)"
  by (cases r rule: scan_bool.cases) auto

lemma lookup_law:
  assumes "migration_laws m recs view scripts" and "recs s = Some t"
    and "QueryValue (drv m) (db m) find_hash_sql [ABytes h] s = (r, s')"
  shows "recs s' = Some t \<and> (scan_bool r = Inr (h \<in> ran t) \<or> (\<exists>e. scan_bool r = Inl e))"
proof -
  have "recs s' = Some t" and "\<And>v. r = Inr v \<Longrightarrow> v = VBool (h \<in> ran t)"
    using assms unfolding migration_laws_def query_laws_def QueryValue_def by metis+
  then show ?thesis by (cases r) auto
qed

lemma begin_law:
  assumes "migration_laws m recs view scripts" and "BeginTransaction (drv m) (db m) s = (r, s')"
  shows "recs s' = recs s \<and> (\<forall>p. r = Inr p \<longrightarrow> (\<exists>x. conn p = Some x \<and> tx p = Some x \<and> view x s' = recs s))"
  using assms
  by (cases "pool_begin (drv m) s") (auto simp: migration_laws_def tx_laws_def BeginTransaction_def split: sum.splits)

lemma exec_law:
  assumes "migration_laws m recs view scripts" and "conn p = Some x" and "q \<in> scripts \<or> q = store_hash_sql" and "Exec (drv m) p q a s = (r, s')"
  shows "recs s' = recs s"
  using assms unfolding migration_laws_def tx_laws_def Exec_def by (metis (no_types))

lemma script_law:
  assumes "migration_laws m recs view scripts" and "conn p = Some x" and "q \<in> scripts" and "Exec (drv m) p q [] s = (None, s')"
  shows "view x s' = view x s"
  using assms unfolding migration_laws_def script_laws_def Exec_def by (metis (no_types))

lemma store_law:
  assumes "migration_laws m recs view scripts" and "conn p = Some x" and "view x s = Some t"
    and "Exec (drv m) p store_hash_sql [AStr n, ABytes h] s = (None, s')"
  shows "view x s' = Some (t(n \<mapsto> h))"
  using assms unfolding migration_laws_def script_laws_def Exec_def by (metis (no_types))

lemma rollback_law:
  assumes "migration_laws m recs view scripts"
  shows "recs (snd (snd (Rollback (drv m) p s))) = recs s"
proof (cases "tx p")
  case (Some x)
  then show ?thesis using assms
    by (cases "tx_rollback (drv m) x s") (auto simp: Rollback_def migration_laws_def tx_laws_def)
qed (simp add: Rollback_def)

lemma commit_law:
  assumes "migration_laws m recs view scripts" and "tx p = Some x" and "Commit (drv m) p s = (r, p', s')"
  shows "tx p' = None \<and> (recs s' = view x s \<or> r \<noteq> None \<and> recs s' = recs s)"
proof (cases "tx_commit (drv m) x s")
  case (Pair r1 s1)
  with assms show ?thesis by (fastforce simp: Commit_def migration_laws_def tx_laws_def)
qed

text \<open>A migration that is applied ends with its commit: the deferred rollback does nothing.\<close>

lemma applied_ends_with_commit:
  assumes "apply_in_tx m p contents file (s, lg) = (None, p', s', lg')"
  shows "\<exists>s2 e. Commit (drv m) p s2 = (e, p', s') \<and> snd (snd (Rollback (drv m) p' s')) = s'"
proof -
  from assms obtain s2 e where c: "Commit (drv m) p s2 = (e, p', s')"
    by (auto simp: apply_in_tx_def split: option.splits prod.splits)
  from psql.deferred_rollback_after_commit [OF this] c show ?thesis by auto
qed

text \<open>The rows after the part inside the transaction and the deferred rollback.\<close>

lemma apply_in_tx_rows:
  assumes laws: "migration_laws m recs view scripts" and "contents \<in> scripts"
    and "conn p = Some x" and "tx p = Some x" and "recs s = Some t" and "view x s = Some t"
    and run: "apply_in_tx m p contents file (s, lg) = (err, p', s', lg')"
  shows "recs (snd (snd (Rollback (drv m) p' s'))) = Some t \<or>
         err = None \<and> recs (snd (snd (Rollback (drv m) p' s'))) = Some (t(Base file \<mapsto> sha1 m contents))"
    and "commits (drv m) \<Longrightarrow> err = None \<Longrightarrow> recs (snd (snd (Rollback (drv m) p' s'))) = Some (t(Base file \<mapsto> sha1 m contents))"
proof -
  note roll = rollback_law [OF laws] and ex = exec_law [OF laws assms(3)]
  obtain r1 s1 where e1: "Exec (drv m) p contents [] s = (r1, s1)" by fastforce
  obtain r2 s2 where e2: "Exec (drv m) p store_hash_sql [AStr (Base file), ABytes (sha1 m contents)] s1 = (r2, s2)" by fastforce
  obtain r3 p3 s3 where e3: "Commit (drv m) p s2 = (r3, p3, s3)" by (metis prod.exhaust)
  note c3 = commit_law [OF laws assms(4) e3]
  have r: "recs s2 = Some t" "recs s1 = Some t" using ex [OF _ e1] ex [OF _ e2] assms(2,5) by auto
  have v: "view x s2 = Some (t(Base file \<mapsto> sha1 m contents))" if "r1 = None" "r2 = None"
    using store_law [OF laws assms(3) _ e2 [unfolded that(2)]] script_law [OF laws assms(3,2) e1 [unfolded that(1)]] assms(6) by simp
  show "recs (snd (snd (Rollback (drv m) p' s'))) = Some t \<or>
         err = None \<and> recs (snd (snd (Rollback (drv m) p' s'))) = Some (t(Base file \<mapsto> sha1 m contents))"
    using run e1 e2 e3 r v c3 by (auto simp: apply_in_tx_def roll split: option.splits)
  assume "commits (drv m)" and "err = None"
  moreover from this have "r3 = None" using e3 assms(4) unfolding commits_def Commit_def
    by (cases "tx_commit (drv m) x s2") (auto, metis fst_conv)
  ultimately show "recs (snd (snd (Rollback (drv m) p' s'))) = Some (t(Base file \<mapsto> sha1 m contents))"
    using run e1 e2 e3 v c3 by (auto simp: apply_in_tx_def roll split: option.splits)
qed

text \<open>A file that is recorded is not applied: nothing is logged, and the call can only fail in the lookup.\<close>

lemma applyMigration_known:
  assumes "migration_laws m recs view scripts" and "recs s = Some t"
    and "readFileContents (disk m) (Join [path, file]) = Inr contents" and "sha1 m contents \<in> ran t"
  shows "\<exists>err s'. applyMigration m path file (s, lg) = (err, s', lg) \<and> recs s' = Some t \<and> (err = None \<or> (\<exists>e. err = Some (DBErr e)))"
proof -
  obtain r s1 where q: "QueryValue (drv m) (db m) find_hash_sql [ABytes (sha1 m contents)] s = (r, s1)" by fastforce
  from lookup_law [OF assms(1,2) q] assms(3,4) q show ?thesis by (auto simp: applyMigration_def)
qed

lemma applyMigration_rows:
  assumes laws: "migration_laws m recs view scripts" and t: "recs s = Some t"
    and c: "readFileContents (disk m) (Join [path, file]) = Inr contents" and "contents \<in> scripts" and "sha1 m contents \<notin> ran t"
    and run: "applyMigration m path file (s, lg) = (err, s', lg')"
  shows "recs s' = Some t \<or> err = None \<and> recs s' = Some (t(Base file \<mapsto> sha1 m contents))"
    and "commits (drv m) \<Longrightarrow> err = None \<Longrightarrow> recs s' = Some (t(Base file \<mapsto> sha1 m contents))"
proof -
  obtain r0 s0 where q: "QueryValue (drv m) (db m) find_hash_sql [ABytes (sha1 m contents)] s = (r0, s0)" by fastforce
  note look = lookup_law [OF laws t q]
  obtain r2 s2 where b: "BeginTransaction (drv m) (db m) s0 = (r2, s2)" by fastforce
  note bl = begin_law [OF laws b]
  let ?lg = "lg @ [(''info'', ''migrator'', EncodeToString (sha1 m contents))]"
  have *: "(recs s' = Some t \<or> err = None \<and> recs s' = Some (t(Base file \<mapsto> sha1 m contents))) \<and>
    (commits (drv m) \<longrightarrow> err = None \<longrightarrow> recs s' = Some (t(Base file \<mapsto> sha1 m contents)))"
  proof (cases r2)
    case (Inl e)
    then show ?thesis using run c look assms(5) b bl q by (auto simp: applyMigration_def)
  next
    case (Inr p)
    show ?thesis
    proof (cases "\<exists>e. scan_bool r0 = Inl e")
      case True
      then show ?thesis using run c look q by (auto simp: applyMigration_def)
    next
    case False
    obtain err1 p1 s3 lg3 where a: "apply_in_tx m p contents file (s2, ?lg) = (err1, p1, s3, lg3)" by (metis prod.exhaust)
    from Inr bl look obtain x where x: "conn p = Some x" "tx p = Some x" "recs s2 = Some t" "view x s2 = Some t" by auto
    have "err = err1" "s' = snd (snd (Rollback (drv m) p1 s3))"
      using run c look assms(5) b Inr a q False by (auto simp: applyMigration_def Let_def)
    then show ?thesis using apply_in_tx_rows [OF laws assms(4) x a] by simp
    qed
  qed
  then show "recs s' = Some t \<or> err = None \<and> recs s' = Some (t(Base file \<mapsto> sha1 m contents))" by blast
  show "commits (drv m) \<Longrightarrow> err = None \<Longrightarrow> recs s' = Some (t(Base file \<mapsto> sha1 m contents))" using * by blast
qed

subsection \<open>The calls of a driver\<close>

text \<open>A driver that notes which transactions are started and ended and what is executed in between.\<close>

datatype 't tx_call = Began 't | Executed "'t option" string "arg list" | Committed 't | RolledBack 't

definition noting :: "('r \<Rightarrow> 't tx_call list) \<Rightarrow> ('s \<Rightarrow> 'r \<times> 's) \<Rightarrow> 's \<times> 't tx_call list \<Rightarrow> 'r \<times> 's \<times> 't tx_call list" where
  "noting note g c = (case g (fst c) of (r, s') \<Rightarrow> (r, s', snd c @ note r))"

definition traced :: "('s, 't) driver \<Rightarrow> ('s \<times> 't tx_call list, 't) driver" where
  "traced d = \<lparr>parse_config = parse_config d, pool_connect = (\<lambda>u. noting (\<lambda>_. []) (pool_connect d u)),
     pool_begin = noting (\<lambda>r. case r of Inl _ \<Rightarrow> [] | Inr x \<Rightarrow> [Began x]) (pool_begin d),
     tx_begin = (\<lambda>t. noting (\<lambda>r. case r of Inl _ \<Rightarrow> [] | Inr x \<Rightarrow> [Began x]) (tx_begin d t)),
     tx_rollback = (\<lambda>t. noting (\<lambda>_. [RolledBack t]) (tx_rollback d t)), tx_commit = (\<lambda>t. noting (\<lambda>_. [Committed t]) (tx_commit d t)),
     pool_ping = noting (\<lambda>_. []) (pool_ping d), select_rows = (\<lambda>t q a. noting (\<lambda>_. []) (select_rows d t q a)),
     get_row = (\<lambda>t q a. noting (\<lambda>_. []) (get_row d t q a)), scan_value = (\<lambda>t q a. noting (\<lambda>_. []) (scan_value d t q a)),
     exec_sql = (\<lambda>t q a. noting (\<lambda>_. [Executed t q a]) (exec_sql d t q a)), pool_close = (\<lambda>c. (pool_close d (fst c), snd c))\<rparr>"

lemmas traced_simps = traced_def noting_def

subsection \<open>Runs of the migrator\<close>

definition files_of :: "step list \<Rightarrow> string set" where
  "files_of sts = {file. Apply file \<in> set sts}"

definition contents_of :: "('s, 't) Migrator \<Rightarrow> string \<Rightarrow> string \<Rightarrow> fs_error + string" where
  "contents_of m path file = readFileContents (disk m) (Join [path, file])"

definition scripts_of :: "('s, 't) Migrator \<Rightarrow> string \<Rightarrow> string set \<Rightarrow> string set" where
  "scripts_of m path files = {c. \<exists>file \<in> files. contents_of m path file = Inr c}"

text \<open>
  Rows that do not stand in the way: a row that is kept under the name of one of the
  files does not hold the hash of another one.
\<close>

definition no_stale_names :: "('s, 't) Migrator \<Rightarrow> string \<Rightarrow> string set \<Rightarrow> (string \<rightharpoonup> string) \<Rightarrow> bool" where
  "no_stale_names m path files t \<longleftrightarrow> (\<forall>file \<in> files. \<forall>c h. contents_of m path file = Inr c \<longrightarrow> t (Base file) = Some h \<longrightarrow>
     h \<in> sha1 m ` scripts_of m path files \<longrightarrow> h = sha1 m c)"

lemma no_stale_names_empty: "no_stale_names m path files Map.empty"
  by (simp add: no_stale_names_def)

lemma store_keeps:
  assumes "no_stale_names m path files t" and "inj_on Base files" and "file \<in> files" and "contents_of m path file = Inr c"
    and "sha1 m c \<notin> ran t"
  shows "no_stale_names m path files (t(Base file \<mapsto> sha1 m c))"
    and "h \<in> ran t \<Longrightarrow> h \<in> sha1 m ` scripts_of m path files \<Longrightarrow> h \<in> ran (t(Base file \<mapsto> sha1 m c))"
proof -
  show "no_stale_names m path files (t(Base file \<mapsto> sha1 m c))"
    unfolding no_stale_names_def
  proof (intro ballI allI impI)
    fix f' c' h
    assume *: "f' \<in> files" "contents_of m path f' = Inr c'" "(t(Base file \<mapsto> sha1 m c)) (Base f') = Some h"
      "h \<in> sha1 m ` scripts_of m path files"
    show "h = sha1 m c'"
    proof (cases "Base f' = Base file")
      case True
      then have "f' = file" using assms(2,3) *(1) by (simp add: inj_on_def)
      then show ?thesis using * assms(4) by simp
    next
      case False
      then have "t (Base f') = Some h" using *(3) by simp
      then show ?thesis using *(1,2,4) assms(1) unfolding no_stale_names_def by blast
    qed
  qed
  assume "h \<in> ran t" and h: "h \<in> sha1 m ` scripts_of m path files"
  then obtain n where n: "t n = Some h" by (auto simp: ran_def)
  have "n \<noteq> Base file"
  proof
    assume "n = Base file"
    with n h assms(1,3,4) have "h = sha1 m c" unfolding no_stale_names_def by blast
    with n assms(5) show False by (auto simp: ran_def)
  qed
  with n show "h \<in> ran (t(Base file \<mapsto> sha1 m c))" by (auto simp: ran_def)
qed

text \<open>A run without error leaves a row for the hash of every file of its steps.\<close>

lemma run_steps_records:
  assumes laws: "migration_laws m recs view (scripts_of m path files)" and com: "commits (drv m)" and inj: "inj_on Base files"
  shows "files_of sts \<subseteq> files \<Longrightarrow> recs s = Some t \<Longrightarrow> no_stale_names m path files t \<Longrightarrow>
    run_steps m path sts (s, lg) = Some (None, s', lg') \<Longrightarrow>
    \<exists>t'. recs s' = Some t' \<and> ran t \<inter> sha1 m ` scripts_of m path files \<subseteq> ran t' \<and>
      (\<forall>file \<in> files_of sts. \<exists>c. contents_of m path file = Inr c \<and> sha1 m c \<in> ran t')"
proof (induction sts arbitrary: s t lg)
  case Nil
  then show ?case by (auto simp: run_steps_def files_of_def)
next
  case (Cons st sts)
  from Cons.prems(4) obtain s1 lg1 where st: "run_step m path st (s, lg) = (None, s1, lg1)"
    and rest: "run_steps m path sts (s1, lg1) = Some (None, s', lg')"
    by (auto simp: run_steps_def split: option.splits prod.splits)
  have sub: "files_of sts \<subseteq> files" using Cons.prems(1) by (auto simp: files_of_def)
  show ?case
  proof (cases st)
    case (Missing p)
    with st have "s1 = s" by simp
    then show ?thesis using Cons.IH [OF sub _ Cons.prems(3)] Cons.prems(2) rest Missing by (auto simp: files_of_def)
  next
    case (Apply fl)
    then have f: "fl \<in> files" using Cons.prems(1) by (auto simp: files_of_def)
    have ap: "applyMigration m path fl (s, lg) = (None, s1, lg1)" using st Apply by simp
    then obtain c where c: "readFileContents (disk m) (Join [path, fl]) = Inr c"
      by (auto simp: applyMigration_def split: sum.splits)
    with f have sc: "c \<in> scripts_of m path files" by (auto simp: scripts_of_def contents_of_def)
    let ?t = "if sha1 m c \<in> ran t then t else t(Base fl \<mapsto> sha1 m c)"
    note c' = c [folded contents_of_def] and keeps = store_keeps [OF Cons.prems(3) inj f c [folded contents_of_def]]
    have "recs s1 = Some ?t"
      using applyMigration_known [OF laws Cons.prems(2) c, of lg] applyMigration_rows(2) [OF laws Cons.prems(2) c sc _ ap com]
        ap by auto
    moreover have "no_stale_names m path files ?t" using Cons.prems(3) keeps(1) by simp
    ultimately obtain t' where t': "recs s' = Some t'" "ran ?t \<inter> sha1 m ` scripts_of m path files \<subseteq> ran t'"
      "\<forall>file \<in> files_of sts. \<exists>c. contents_of m path file = Inr c \<and> sha1 m c \<in> ran t'"
      using Cons.IH [OF sub _ _ rest] by blast
    have "sha1 m c \<in> ran ?t" by (auto simp: ran_def)
    with t'(2) sc have "sha1 m c \<in> ran t'" by blast
    moreover have "ran t \<inter> sha1 m ` scripts_of m path files \<subseteq> ran ?t" using keeps(2) by auto
    with t'(2) have "ran t \<inter> sha1 m ` scripts_of m path files \<subseteq> ran t'" by blast
    moreover have "files_of (st # sts) = insert fl (files_of sts)" using Apply by (auto simp: files_of_def)
    ultimately show ?thesis using t'(1,3) c' by auto
  qed
qed

text \<open>A run whose files are all recorded keeps the rows and only notes missing directories.\<close>

lemma run_steps_known:
  assumes laws: "migration_laws m recs view scripts" and "recs s = Some t"
    and "\<forall>file \<in> files_of sts. \<exists>c. contents_of m path file = Inr c \<and> sha1 m c \<in> ran t"
  shows "\<exists>err s' ps. run_steps m path sts (s, lg) = Some (err, s', lg @ map (\<lambda>p. (''warn'', ''migration dir not found'', p)) ps) \<and>
    recs s' = Some t \<and> (err = None \<or> (\<exists>e. err = Some (DBErr e)))"
  using assms(2,3)
proof (induction sts arbitrary: s lg)
  case Nil
  then show ?case by (auto simp: run_steps_def)
next
  case (Cons st sts)
  have sub: "\<forall>file \<in> files_of sts. \<exists>c. contents_of m path file = Inr c \<and> sha1 m c \<in> ran t"
    using Cons.prems(2) by (auto simp: files_of_def)
  show ?case
  proof (cases st)
    case (Missing p)
    obtain err s' ps where "run_steps m path sts (s, lg @ [(''warn'', ''migration dir not found'', p)])
      = Some (err, s', (lg @ [(''warn'', ''migration dir not found'', p)]) @ map (\<lambda>p. (''warn'', ''migration dir not found'', p)) ps)"
      "recs s' = Some t" "err = None \<or> (\<exists>e. err = Some (DBErr e))"
      using Cons.IH [OF Cons.prems(1) sub] by blast
    then show ?thesis using Missing by (intro exI [of _ err] exI [of _ s'] exI [of _ "p # ps"]) (simp add: run_steps_def)
  next
    case (Apply fl)
    then obtain c where "readFileContents (disk m) (Join [path, fl]) = Inr c" "sha1 m c \<in> ran t"
      using Cons.prems(2) by (auto simp: files_of_def contents_of_def)
    from applyMigration_known [OF laws Cons.prems(1) this, of lg] obtain err s1 where
      a: "applyMigration m path fl (s, lg) = (err, s1, lg)" "recs s1 = Some t" "err = None \<or> (\<exists>e. err = Some (DBErr e))" by blast
    then show ?thesis
    proof (cases err)
      case None
      then show ?thesis using Cons.IH [OF a(2) sub, of lg] Apply a(1) by (simp add: run_steps_def)
    next
      case (Some e)
      then show ?thesis using Apply a by (intro exI [of _ err] exI [of _ s1] exI [of _ "[]"]) (simp add: run_steps_def)
    qed
  qed
qed

lemma assure_laws:
  assumes "migration_laws m recs view scripts" and "assureMigrationSupported m s = (err, s1)"
  shows "err = None \<Longrightarrow> recs s1 = Some (case recs s of None \<Rightarrow> Map.empty | Some t \<Rightarrow> t)"
    and "recs s = Some t \<Longrightarrow> recs s1 = Some t \<and> (err = None \<or> (\<exists>e. err = Some (DBErr e)))"
proof -
  obtain r s0 where q: "QueryValue (drv m) (db m) table_exists_sql [] s = (r, s0)" by fastforce
  have r: "recs s0 = recs s" "\<And>v. r = Inr v \<Longrightarrow> v = VBool (recs s \<noteq> None)"
    using assms(1) q unfolding migration_laws_def query_laws_def QueryValue_def by metis+
  have cr: "recs s = None \<Longrightarrow> Exec (drv m) (db m) create_table_sql [] s0 = (None, s1) \<Longrightarrow> recs s1 = Some Map.empty"
    using assms(1) r(1) unfolding migration_laws_def query_laws_def Exec_def by metis
  show "err = None \<Longrightarrow> recs s1 = Some (case recs s of None \<Rightarrow> Map.empty | Some t \<Rightarrow> t)"
    using assms(2) q r cr by (cases r; cases "recs s") (auto simp: assureMigrationSupported_def split: prod.splits option.splits)
  show "recs s = Some t \<Longrightarrow> recs s1 = Some t \<and> (err = None \<or> (\<exists>e. err = Some (DBErr e)))"
    using assms(2) q r by (cases r) (auto simp: assureMigrationSupported_def)
qed

subsection \<open>The files of the walk\<close>

text \<open>
  \<open>file_below f k ds\<close>: from the directory \<open>k\<close> the names \<open>ds\<close> lead through directories
  to something that is not one.
\<close>

definition file_below :: "fs \<Rightarrow> string list \<Rightarrow> string list \<Rightarrow> bool" where
  "file_below f k ds \<longleftrightarrow> (\<forall>i < length ds. node_at f (k @ take i ds) = Some DirNode) \<and>
     node_at f (k @ ds) \<notin> {None, Some DirNode}"

lemma file_below_Cons:
  "file_below f k (c # ds) \<longleftrightarrow> node_at f k = Some DirNode \<and> file_below f (k @ [c]) ds"
  by (auto simp: file_below_def less_Suc_eq_0_disj)

lemma file_below_Nil: "file_below f k [] \<longleftrightarrow> node_at f k \<notin> {None, Some DirNode}"
  by (simp add: file_below_def)

lemma Stat_no_faults:
  assumes "\<And>call k. fault f call k = None" and "p \<noteq> ''''"
  shows "Stat f p = Inr n \<longleftrightarrow> node_at f (locate f p) = Some n" and "Stat f p = Inl ErrNotExist \<Longrightarrow> node_at f (locate f p) = None"
  using assms by (auto simp: Stat_def Let_def split: option.splits if_splits)

text \<open>Without faults the entries of a directory are the names below it.\<close>

lemma entries_no_faults:
  assumes "\<And>call k. fault f call k = None" and "p \<noteq> ''''"
  shows "(c, d) \<in> set (entries f p) \<longleftrightarrow> node_at f (locate f p) = Some DirNode \<and> node_at f (locate f p @ [c]) \<noteq> None \<and>
    d = (node_at f (locate f p @ [c]) = Some DirNode)"
proof (cases "node_at f (locate f p) = Some DirNode")
  case True
  have names: "c \<in> (last \<circ> fst) ` {x \<in> set (nodes f). fst x \<noteq> [] \<and> butlast (fst x) = locate f p} \<longleftrightarrow> node_at f (locate f p @ [c]) \<noteq> None"
  proof -
    have "node_at f (locate f p @ [c]) \<noteq> None \<longleftrightarrow> locate f p @ [c] \<in> fst ` set (nodes f)"
      by (simp add: node_at_def map_of_eq_None_iff)
    also have "\<dots> \<longleftrightarrow> c \<in> (last \<circ> fst) ` {x \<in> set (nodes f). fst x \<noteq> [] \<and> butlast (fst x) = locate f p}"
    proof
      assume "locate f p @ [c] \<in> fst ` set (nodes f)"
      then obtain x where "x \<in> set (nodes f)" "fst x = locate f p @ [c]" by force
      then show "c \<in> (last \<circ> fst) ` {x \<in> set (nodes f). fst x \<noteq> [] \<and> butlast (fst x) = locate f p}"
        by (intro image_eqI [of _ _ x]) auto
    next
      assume "c \<in> (last \<circ> fst) ` {x \<in> set (nodes f). fst x \<noteq> [] \<and> butlast (fst x) = locate f p}"
      then obtain x where "x \<in> set (nodes f)" "fst x \<noteq> []" "butlast (fst x) = locate f p" "c = last (fst x)" by auto
      then show "locate f p @ [c] \<in> fst ` set (nodes f)"
        by (metis append_butlast_last_id image_eqI)
    qed
    finally show ?thesis by blast
  qed
  have "Stat f p = Inr DirNode" using Stat_no_faults(1) [OF assms] True by blast
  then have "set (entries f p) = (\<lambda>c. (c, node_at f (locate f p @ [c]) = Some DirNode)) ` (last \<circ> fst) ` {x \<in> set (nodes f). fst x \<noteq> [] \<and> butlast (fst x) = locate f p}"
    using assms(1) by (simp add: entries_def ReadDir_def Let_def case_prod_unfold)
  then show ?thesis using True names by auto
next
  case False
  then have "Stat f p \<noteq> Inr DirNode" using Stat_no_faults(1) [OF assms] by blast
  then have "entries f p = []" by (auto simp: entries_def ReadDir_def Let_def split: sum.splits node.splits)
  then show ?thesis using False by simp
qed

lemma files_of_simps:
  "files_of [Missing p] = {}" "files_of (xs @ ys) = files_of xs \<union> files_of ys"
  "files_of (concat xss) = (\<Union>xs \<in> set xss. files_of xs)" "files_of (map (\<lambda>e. Apply (g e)) es) = g ` set es"
  by (auto simp: files_of_def)

definition files_below :: "fs \<Rightarrow> string list \<Rightarrow> string list \<Rightarrow> string set" where
  "files_below f k cs = {join_str ''/'' (cs @ ds) |ds. ds \<noteq> [] \<and> file_below f k ds}"

lemma file_below_leaf: "node_at f k \<notin> {None, Some DirNode} \<Longrightarrow> file_below f k ds \<longleftrightarrow> ds = []"
  by (cases ds) (auto simp: file_below_Nil file_below_Cons)

lemma file_below_none: "node_at f k = None \<Longrightarrow> \<not> file_below f k ds"
  by (cases ds) (auto simp: file_below_Nil file_below_Cons)

text \<open>The files below a directory: those below its directories, and its own.\<close>

lemma files_below_step:
  assumes "\<And>c d. (c, d) \<in> E \<longleftrightarrow> node_at f k = Some DirNode \<and> node_at f (k @ [c]) \<noteq> None \<and> d = (node_at f (k @ [c]) = Some DirNode)"
  shows "files_below f k cs = (\<Union>c \<in> {c. (c, True) \<in> E}. files_below f (k @ [c]) (cs @ [c])) \<union>
    (\<lambda>c. join_str ''/'' (cs @ [c])) ` {c. (c, False) \<in> E}" (is "_ = ?dirs \<union> ?own")
proof (intro set_eqI iffI)
  fix x
  assume "x \<in> files_below f k cs"
  then obtain c ds where x: "x = join_str ''/'' ((cs @ [c]) @ ds)" and k: "node_at f k = Some DirNode" and b: "file_below f (k @ [c]) ds"
    by (auto simp: files_below_def neq_Nil_conv file_below_Cons)
  have "node_at f (k @ [c]) \<noteq> None" using b file_below_none by blast
  then consider (dir) "(c, True) \<in> E" "node_at f (k @ [c]) = Some DirNode" | (leaf) "(c, False) \<in> E" "node_at f (k @ [c]) \<notin> {None, Some DirNode}"
    using assms k by auto
  then show "x \<in> ?dirs \<union> ?own"
  proof cases
    case dir
    then have "ds \<noteq> []" using b by (auto simp: file_below_Nil)
    then have "x \<in> files_below f (k @ [c]) (cs @ [c])" unfolding files_below_def x using b by blast
    then show ?thesis using dir(1) by blast
  next
    case leaf
    then show ?thesis using file_below_leaf [OF leaf(2)] b x by auto
  qed
next
  fix x
  assume "x \<in> ?dirs \<union> ?own"
  then show "x \<in> files_below f k cs"
    unfolding files_below_def using assms by (auto simp: file_below_Nil file_below_Cons)
qed

lemma plan_files:
  assumes "well_formed f" and "canonical base" and nf: "\<And>call k. fault f call k = None"
  shows "plan f n base (join_str ''/'' cs) = Some sts \<Longrightarrow> cs \<noteq> [] \<Longrightarrow> list_all proper_name cs \<Longrightarrow>
    files_of sts = files_below f (parts base @ cs) cs"
proof (induction n arbitrary: cs sts)
  case (Suc n)
  let ?full = "Join [base, join_str ''/'' cs]" and ?k = "parts base @ cs"
  note below = parts_below [OF assms(2) Suc.prems(2,3)]
  have abs: "IsAbs ?full" using below canonical_abs by blast
  then have loc: "locate f ?full = ?k" and ne: "?full \<noteq> ''''"
    using below by (auto simp: locate_parts IsAbs_def HasPrefix_def)
  show ?case
  proof (cases "Stat f ?full = Inl ErrNotExist")
    case True
    then have "files_of sts = {}" using Suc.prems(1) by (auto simp: files_of_simps)
    then show ?thesis using file_below_none Stat_no_faults(2) [OF nf ne True] loc by (simp add: files_below_def)
  next
    case False
    let ?files = "entries f ?full" and ?sub = "\<lambda>e. plan f n base (Join [join_str ''/'' cs, fst e])"
    from Suc.prems(1) False obtain ps where ps: "those (map ?sub (filter snd ?files)) = Some ps"
      and sts: "sts = concat ps @ map (\<lambda>e. Apply (Join [join_str ''/'' cs, fst e])) (filter (Not \<circ> snd) ?files)"
      by (auto simp: Let_def)
    have join: "Join [join_str ''/'' cs, c] = join_str ''/'' (cs @ [c])" and pro: "list_all proper_name (cs @ [c])"
      if "(c, d) \<in> set ?files" for c d
      using Join_rel [OF Suc.prems(2), of c] entries_dir(1) [OF assms(1) that] Suc.prems(3) by auto
    have dirs: "files_of (the (?sub (c, True))) = files_below f (?k @ [c]) (cs @ [c])" if c: "(c, True) \<in> set ?files" for c
      using Suc.IH [of "cs @ [c]"] those_map [OF ps] c join [OF c] pro [OF c] by fastforce
    have "files_of sts = (\<Union>e \<in> set (filter snd ?files). files_of (the (?sub e))) \<union> (\<lambda>e. Join [join_str ''/'' cs, fst e]) ` set (filter (Not \<circ> snd) ?files)"
      using those_map [OF ps] sts by (simp add: files_of_simps)
    also have "set (filter snd ?files) = (\<lambda>c. (c, True)) ` {c. (c, True) \<in> set ?files}" by force
    also have "set (filter (Not \<circ> snd) ?files) = (\<lambda>c. (c, False)) ` {c. (c, False) \<in> set ?files}" by force
    finally show ?thesis
      unfolding files_below_step [where E = "set ?files", OF entries_no_faults [OF nf ne, unfolded loc]]
      using dirs join by (simp add: image_image)
  qed
qed simp

subsection \<open>An example\<close>

text \<open>A server with the committed rows and the rows that the open transaction sees.\<close>

type_synonym rows = "(string \<times> string) list"

definition has_hash :: "rows \<Rightarrow> string \<Rightarrow> bool" where
  "has_hash xs h \<longleftrightarrow> list_ex (\<lambda>(n, _). map_of xs n = Some h) xs"

definition example_scan :: "unit option \<Rightarrow> string \<Rightarrow> arg list \<Rightarrow> rows option \<times> rows option \<Rightarrow> (string + dbval) \<times> (rows option \<times> rows option)" where
  "example_scan cn q a s =
     ((case (a, fst s) of
         ([ABytes h], Some xs) \<Rightarrow> Inr (VBool (has_hash xs h))
       | ([], c) \<Rightarrow> Inr (VBool (c \<noteq> None))
       | _ \<Rightarrow> Inl ''relation does not exist''), s)"

definition example_exec :: "unit option \<Rightarrow> string \<Rightarrow> arg list \<Rightarrow> rows option \<times> rows option \<Rightarrow> string option \<times> (rows option \<times> rows option)" where
  "example_exec cn q a s = (case (cn, a) of
      (None, _) \<Rightarrow> (None, Some [], snd s)
    | (Some _, [AStr n, ABytes h]) \<Rightarrow> (None, fst s, map_option ((#) (n, h)) (snd s))
    | (Some _, []) \<Rightarrow> (if q = ''bad'' then Some ''syntax error'' else None, s)
    | _ \<Rightarrow> (None, s))"

definition example_driver :: "(rows option \<times> rows option, unit) driver" where
  "example_driver = \<lparr>parse_config = \<lambda>_. None, pool_connect = \<lambda>_ s. (None, s), pool_begin = \<lambda>s. (Inr (), fst s, fst s),
     tx_begin = \<lambda>_ s. (Inr (), s), tx_rollback = \<lambda>_ s. (None, fst s, fst s), tx_commit = \<lambda>_ s. (None, snd s, snd s),
     pool_ping = \<lambda>s. (None, s), select_rows = \<lambda>_ _ _ s. (Inr [], s), get_row = \<lambda>_ _ _ s. (Inl NoRows, s),
     scan_value = example_scan, exec_sql = example_exec, pool_close = \<lambda>s. s\<rparr>"

definition example_disk :: "string \<Rightarrow> (string list \<times> string) list \<Rightarrow> fs" where
  "example_disk d fls = \<lparr>nodes = [([''m''], DirNode), ([''m'', ''Tables''], DirNode), ([''m'', ''Tables'', d], DirNode)] @
     map (\<lambda>(k, s). ([''m'', ''Tables''] @ k, FileNode s)) fls, cwd = ''/'', home = None, fault = (\<lambda>_ _. None)\<rparr>"

definition example_migrator :: "string \<Rightarrow> (string list \<times> string) list \<Rightarrow> (rows option \<times> rows option, unit) Migrator" where
  "example_migrator d fls = NewMigrator example_driver (\<lambda>c. ''#'' @ c) (example_disk d fls) \<lparr>pool = True, conn = None, tx = None\<rparr>"

lemma has_hash_ran: "has_hash xs h \<longleftrightarrow> h \<in> ran (map_of xs)"
  by (auto simp: has_hash_def list_ex_iff ran_def split: prod.splits dest: map_of_SomeD)

lemma example_laws: "migration_laws (example_migrator d fls) (\<lambda>s. map_option map_of (fst s)) (\<lambda>_ s. map_option map_of (snd s)) scripts"
  unfolding migration_laws_def query_laws_def tx_laws_def script_laws_def
  by (auto simp: example_migrator_def NewMigrator_def example_driver_def example_scan_def example_exec_def has_hash_ran
      split: list.splits arg.splits option.splits if_splits)

lemma example_commits: "commits (drv (example_migrator d fls))"
  by (simp add: commits_def example_migrator_def NewMigrator_def example_driver_def)

lemmas example_files = example_migrator_def NewMigrator_def

lemma example_plan:
  "full_plan (disk (example_migrator ''d'' [([''b.sql''], ''B''), ([''d'', ''a.sql''], ''A'')])) ''/m'' =
     [Missing ''/m/Schemas'', Apply ''Tables/d/a.sql'', Apply ''Tables/b.sql'', Missing ''/m/Procedures'', Missing ''/m/Triggers'', Missing ''/m/Migrations'']"
  by code_simp

lemma example_run:
  "Migrate (example_migrator ''d'' [([''b.sql''], ''B''), ([''d'', ''a.sql''], ''A'')]) ''/m'' ((None, None), []) =
     Some (None, (Some [(''b.sql'', ''#B''), (''a.sql'', ''#A'')], Some [(''b.sql'', ''#B''), (''a.sql'', ''#A'')]),
       [(''info'', ''applying migrations...'', ''''), (''warn'', ''migration dir not found'', ''/m/Schemas''),
        (''info'', ''migrator'', ''2341''), (''info'', ''applied file'', ''Tables/d/a.sql''),
        (''info'', ''migrator'', ''2342''), (''info'', ''applied file'', ''Tables/b.sql''),
        (''warn'', ''migration dir not found'', ''/m/Procedures''), (''warn'', ''migration dir not found'', ''/m/Triggers''),
        (''warn'', ''migration dir not found'', ''/m/Migrations'')])"
  by code_simp

text \<open>
  The base name is not enough to tell two files apart: \<open>Tables/x.sql\<close> and
  \<open>Tables/d/x.sql\<close> share a row, so each run finds one of the two unknown and applies
  both again, for ever.
\<close>

lemma same_basename_is_reapplied:
  "let m = example_migrator ''d'' [([''x.sql''], ''B''), ([''d'', ''x.sql''], ''A'')]; r1 = the (Migrate m ''/m'' ((None, None), []));
       r2 = the (Migrate m ''/m'' (fst (snd r1), [])); r3 = the (Migrate m ''/m'' (fst (snd r2), []))
   in fst r2 = None \<and> (''info'', ''applied file'', ''Tables/d/x.sql'') \<in> set (snd (snd r2)) \<and>
      (''info'', ''applied file'', ''Tables/d/x.sql'') \<in> set (snd (snd r3))"
  by code_simp

text \<open>A commit that fails is not noticed: the file is logged as applied, and no row was written.\<close>

lemma commit_failure_is_ignored:
  "let m = (example_migrator ''d'' [([''x.sql''], ''B'')])\<lparr>drv := example_driver\<lparr>tx_commit := \<lambda>_ s. (Some ''connection lost'', fst s, fst s)\<rparr>\<rparr>;
       r = the (Migrate m ''/m'' ((Some [], None), []))
   in fst r = None \<and> (''info'', ''applied file'', ''Tables/x.sql'') \<in> set (snd (snd r)) \<and> fst (fst (snd r)) = Some []"
  by code_simp

fun delays :: "nat \<Rightarrow> int \<Rightarrow> int list" where
  "delays 0 d = []"
| "delays (Suc n) d = d # delays n ((d * 120) div 100)"

lemma connect_loop_sleeps:
  "connect_loop d cs name is delay (s, r) = (p, s', r') \<Longrightarrow>
    closer r' = closer r \<and> (\<exists>k. sleeps r' = sleeps r @ take k (delays (length (filter (\<lambda>i. i < retries - 1) is)) delay))"
proof (induction "is" arbitrary: delay s r)
  case (Cons i "is")
  let ?r = "add_log (''error'', ''postgresql.New'', name) r"
  let ?d = "\<lambda>dl. delays (length (filter (\<lambda>i. i < retries - 1) is)) dl"
  have simps: "closer ?r = closer r" "sleeps ?r = sleeps r" by (simp_all add: add_log_def)
  obtain q s1 where q: "New_psql d cs s = (q, s1)" by fastforce
  consider (ok) "r' = r" | (again) "i < retries - 1" "connect_loop d cs name is ((delay * 120) div 100) (s1, ?r\<lparr>sleeps := sleeps ?r @ [delay]\<rparr>) = (p, s', r')"
    | (last) "\<not> i < retries - 1" "connect_loop d cs name is delay (s1, ?r) = (p, s', r')"
    using Cons.prems q by (auto simp: Let_def split: sum.splits if_splits)
  then show ?case
  proof cases
    case ok
    then show ?thesis by (auto intro: exI [of _ 0])
  next
    case again
    from Cons.IH [OF again(2)] obtain k where "closer r' = closer r" "sleeps r' = sleeps r @ take (Suc k) (delay # ?d ((delay * 120) div 100))"
      by (auto simp: simps)
    then show ?thesis using again(1) by (auto intro: exI [of _ "Suc k"])
  next
    case last
    then show ?thesis using Cons.IH [OF last(2)] by (simp add: simps)
  qed
qed (auto intro: exI [of _ 0])

text \<open>When the ping fails the pool stays open: no goroutine waits to close it and \<open>New\<close> does not either.\<close>

lemma ping_failure_leaks_pool:
  assumes "Type cfg = ''postgres''"
    and "connect_loop d (ConnString cfg) (case match_dbname (ConnString cfg) of None \<Rightarrow> ''?'' | Some n \<Rightarrow> n) [0..<retries] 1000000000
      (s, \<lparr>entries_log = [], sleeps = [], closer = False\<rparr>) = (Some p, s1, r1)"
    and "pool_ping d s1 = (Some e, s2)"
  shows "\<exists>r. New d h f cfg options s = Some (None, s2, r) \<and> \<not> closer r"
  using assms connect_loop_sleeps [OF assms(2)] by (simp add: New_def Connect_def add_log_def Let_def)

subsection \<open>Properties\<close>

text \<open>
  C15: migrations run once.  Assume that the scripts neither touch the table of the hashes
  nor end the transaction they run in, that no commit fails, that the base names of the
  migration files differ and that no row is kept under the name of a file whose script changed to another
  file's.  Then after a run without error every file's hash is recorded; and a second run
  returns, keeps the rows as they are and applies no file, and if it reports an error it is one
  of a query.
\<close>

theorem Migrate_idempotent:
  assumes "well_formed (disk m)" and "NormalizePath (disk m) basePath = Inr path" and "basePath \<noteq> ''''"
    and "migration_laws m recs view (scripts_of m path (files_of (full_plan (disk m) path)))" and "commits (drv m)"
    and "inj_on Base (files_of (full_plan (disk m) path))"
    and "no_stale_names m path (files_of (full_plan (disk m) path)) (case recs s of None \<Rightarrow> Map.empty | Some t \<Rightarrow> t)"
    and "Migrate m basePath (s, lg) = Some (None, s', lg')"
  shows "\<exists>t'. recs s' = Some t' \<and>
    (\<forall>file \<in> files_of (full_plan (disk m) path). \<exists>c. contents_of m path file = Inr c \<and> sha1 m c \<in> ran t') \<and>
    (\<forall>lg1. \<exists>err s'' extra. Migrate m basePath (s', lg1) = Some (err, s'', lg1 @ extra) \<and> recs s'' = Some t' \<and>
       (\<forall>e \<in> set extra. fst (snd e) \<noteq> ''applied file'') \<and> (err = None \<or> (\<exists>e. err = Some (DBErr e))))"
proof -
  let ?plan = "full_plan (disk m) path"
  from assms(2,3,8) obtain s1 where a: "assureMigrationSupported m s = (None, s1)" and st: "Stat (disk m) path \<noteq> Inl ErrNotExist"
    by (auto simp: Migrate_def split: option.splits prod.splits if_splits)
  note steps = Migrate_steps [OF assms(1,3) _ assms(2) st]
  from assms(8) steps [OF a] obtain lg2 where run: "run_steps m path ?plan (s1, lg2) = Some (None, s', lg')" by auto
  from run_steps_records [OF assms(4-6) subset_refl assure_laws(1) [OF assms(4) a refl] assms(7) run]
  obtain t' where t': "recs s' = Some t'" and known: "\<forall>file \<in> files_of ?plan. \<exists>c. contents_of m path file = Inr c \<and> sha1 m c \<in> ran t'"
    by blast
  obtain e2 s2 where a': "assureMigrationSupported m s' = (e2, s2)" by fastforce
  note a2 = assure_laws(2) [OF assms(4) a' t']
  have "\<exists>err s'' extra. Migrate m basePath (s', lg1) = Some (err, s'', lg1 @ extra) \<and> recs s'' = Some t' \<and>
      (\<forall>e \<in> set extra. fst (snd e) \<noteq> ''applied file'') \<and> (err = None \<or> (\<exists>e. err = Some (DBErr e)))" for lg1
  proof (cases e2)
    case (Some e)
    then show ?thesis using a' a2 assms(3) by (intro exI [of _ e2] exI [of _ s2] exI [of _ "[]"]) (auto simp: Migrate_def)
  next
    case None
    obtain err s'' ps where "Migrate m basePath (s', lg1) = Some (err, s'', (lg1 @ [(''info'', ''applying migrations...'', '''')]) @
        map (\<lambda>p. (''warn'', ''migration dir not found'', p)) ps)" "recs s'' = Some t'" "err = None \<or> (\<exists>e. err = Some (DBErr e))"
      using steps [OF a' [unfolded None]] run_steps_known [OF assms(4) _ known] a2 by metis
    then show ?thesis
      by (intro exI [of _ err] exI [of _ s''] exI [of _ "(''info'', ''applying migrations...'', '''') # map (\<lambda>p. (''warn'', ''migration dir not found'', p)) ps"]) auto
  qed
  with t' known show ?thesis by blast
qed

theorem Migrate_idempotent_witness:
  "\<exists>s' lg'. Migrate (example_migrator ''d'' [([''b.sql''], ''B''), ([''d'', ''a.sql''], ''A'')]) ''/m'' ((None, None), []) = Some (None, s', lg') \<and>
     lg' ! 3 = (''info'', ''applied file'', ''Tables/d/a.sql'') \<and>
     (\<exists>err s'' extra. Migrate (example_migrator ''d'' [([''b.sql''], ''B''), ([''d'', ''a.sql''], ''A'')]) ''/m'' (s', []) = Some (err, s'', extra) \<and>
       (\<forall>e \<in> set extra. fst (snd e) \<noteq> ''applied file''))"
proof -
  let ?m = "example_migrator ''d'' [([''b.sql''], ''B''), ([''d'', ''a.sql''], ''A'')]"
  have wf: "well_formed (disk ?m)" by code_simp
  have n: "NormalizePath (disk ?m) ''/m'' = Inr ''/m''" by code_simp
  have fl: "files_of (full_plan (disk ?m) ''/m'') = {''Tables/d/a.sql'', ''Tables/b.sql''}"
    unfolding example_plan by (auto simp: files_of_def)
  have "Base ''Tables/d/a.sql'' = ''a.sql''" "Base ''Tables/b.sql'' = ''b.sql''" by code_simp+
  then have i: "inj_on Base (files_of (full_plan (disk ?m) ''/m''))" unfolding fl by (simp add: inj_on_def)
  obtain s' lg' where run: "Migrate ?m ''/m'' ((None, None), []) = Some (None, s', lg')"
      and lg: "lg' ! 3 = (''info'', ''applied file'', ''Tables/d/a.sql'')"
    using example_run by auto
  have st: "no_stale_names ?m ''/m'' (files_of (full_plan (disk ?m) ''/m''))
      (case (map_option map_of (fst (None :: rows option, None :: rows option)) :: (string \<rightharpoonup> string) option) of None \<Rightarrow> Map.empty | Some t \<Rightarrow> t)"
    by (simp add: no_stale_names_empty)
  have "\<exists>err s'' extra. Migrate ?m ''/m'' (s', []) = Some (err, s'', [] @ extra) \<and> (\<forall>e \<in> set extra. fst (snd e) \<noteq> ''applied file'')"
    using Migrate_idempotent [OF wf n _ example_laws example_commits i st run] by blast
  with run lg show ?thesis by (intro exI [of _ s'] exI [of _ lg']) simp
qed

text \<open>
  C40: the walk over the migration directory ends.  On a file system whose names are
  proper, \<open>Migrate\<close> returns on every path: the fuel is never used up.
\<close>

theorem Migrate_returns:
  assumes "well_formed (disk m)"
  shows "\<exists>err s' lg'. Migrate m basePath (s, lg) = Some (err, s', lg')"
proof -
  obtain e s1 where a: "assureMigrationSupported m s = (e, s1)" by fastforce
  show ?thesis
  proof (cases "NormalizePath (disk m) basePath")
    case (Inl p)
    then show ?thesis using a by (auto simp: Migrate_def split: option.splits)
  next
    case (Inr path)
    note steps = Migrate_steps [OF assms _ _ Inr]
    show ?thesis
    proof (cases "basePath = '''' \<or> e \<noteq> None \<or> Stat (disk m) path = Inl ErrNotExist")
      case True
      then show ?thesis using Inr a by (auto simp: Migrate_def split: option.splits)
    next
      case False
      then show ?thesis using steps [of s s1 lg] a run_steps_returns [of m path] by fastforce
    qed
  qed
qed

theorem Migrate_returns_witness:
  "\<exists>err s' lg'. Migrate (example_migrator ''d'' []) ''~/x'' ((None, None), []) = Some (err, s', lg')"
proof -
  have "well_formed (disk (example_migrator ''d'' []))" by code_simp
  then show ?thesis by (rule Migrate_returns)
qed

text \<open>
  C25: a migration and its record are one transaction.  Whatever the driver answers, a call of
  \<open>applyMigration\<close> starts no transaction, because of an error or since the hash of the file is
  recorded, or exactly one: the script runs in it, then, if
  the script succeeded, the record of the file under its base name with the hash of the
  script, and nothing outside it.  The transaction is ended exactly once: it is committed if and only if both succeeded, and
  in every other case it is rolled back and the call returns an error.
\<close>

theorem applyMigration_one_transaction:
  assumes "applyMigration (NewMigrator (traced d) h f \<lparr>pool = True, conn = None, tx = None\<rparr>) path file ((s, []), lg) = (err, (s', calls), lg')"
  shows "calls = [] \<and> (err \<noteq> None \<or>
      (\<exists>contents s1. readFileContents f (Join [path, file]) = Inr contents \<and> scan_value d None find_hash_sql [ABytes (h contents)] s = (Inr (VBool True), s1))) \<or>
    (\<exists>x contents. readFileContents f (Join [path, file]) = Inr contents \<and>
    (calls = [Began x, Executed (Some x) contents [], RolledBack x] \<and> err \<noteq> None \<or>
     calls = [Began x, Executed (Some x) contents [], Executed (Some x) store_hash_sql [AStr (Base file), ABytes (h contents)], RolledBack x] \<and> err \<noteq> None \<or>
     calls = [Began x, Executed (Some x) contents [], Executed (Some x) store_hash_sql [AStr (Base file), ABytes (h contents)], Committed x] \<and> err = None))"
  using assms
  by (auto simp: applyMigration_def apply_in_tx_def NewMigrator_def traced_simps scan_bool_true BeginTransaction_def Exec_def QueryValue_def Commit_def Rollback_def Let_def
      split: sum.splits prod.splits option.splits bool.splits)

theorem applyMigration_one_transaction_witness:
  "\<exists>e s' lg. applyMigration (NewMigrator (traced example_driver) (\<lambda>c. ''#'' @ c) (example_disk ''d'' [([''b.sql''], ''bad'')]) \<lparr>pool = True, conn = None, tx = None\<rparr>)
       ''/m'' ''Tables/b.sql'' (((Some [], None), []), []) = (Some e, (s', [Began (), Executed (Some ()) ''bad'' [], RolledBack ()]), lg)"
proof -
  let ?m = "NewMigrator (traced example_driver) (\<lambda>c. ''#'' @ c) (example_disk ''d'' [([''b.sql''], ''bad'')]) \<lparr>pool = True, conn = None, tx = None\<rparr>"
  have "case applyMigration ?m ''/m'' ''Tables/b.sql'' (((Some [], None), []), []) of (err, (s', calls), lg) \<Rightarrow> length calls = 3" by code_simp
  then obtain err s' calls lg where run: "applyMigration ?m ''/m'' ''Tables/b.sql'' (((Some [], None), []), []) = (err, (s', calls), lg)"
    and n: "length calls = 3" by (auto split: prod.splits)
  from applyMigration_one_transaction [OF run] n have "\<exists>c. calls = [Began (), Executed (Some ()) c [], RolledBack ()] \<and> err \<noteq> None \<and>
      readFileContents (example_disk ''d'' [([''b.sql''], ''bad'')]) (Join [''/m'', ''Tables/b.sql'']) = Inr c" by auto
  moreover have "readFileContents (example_disk ''d'' [([''b.sql''], ''bad'')]) (Join [''/m'', ''Tables/b.sql'']) = Inr ''bad''" by code_simp
  ultimately show ?thesis using run by auto
qed

text \<open>
  C38: \<open>New\<close> waits a bounded time.  Whatever the server does, it sleeps between attempts at
  most nine times, with exactly the delays below, that is less than 21 seconds; and it
  never returns a handle of a database whose ping or migration failed.
\<close>

theorem New_backoff_bounded:
  assumes "New d h f cfg options s = Some (p, s', r)"
  shows "(\<exists>k. sleeps r = take k [1000000000, 1200000000, 1440000000, 1728000000, 2073600000, 2488320000, 2985984000, 3583180800, 4299816960]) \<and>
    (p \<noteq> None \<longrightarrow> Type cfg = ''postgres'' \<and> closer r)"
proof -
  let ?name = "case match_dbname (ConnString cfg) of None \<Rightarrow> ''?'' | Some n \<Rightarrow> n"
  let ?r0 = "\<lparr>entries_log = [], sleeps = [], closer = False\<rparr>"
  have L: "delays (length (filter (\<lambda>i. i < retries - 1) [0..<retries])) 1000000000 =
    [1000000000, 1200000000, 1440000000, 1728000000, 2073600000, 2488320000, 2985984000, 3583180800, 4299816960]"
    by code_simp
  obtain q s1 r1 where c: "connect_loop d (ConnString cfg) ?name [0..<retries] 1000000000 (s, ?r0) = (q, s1, r1)" by (metis prod.exhaust)
  have sl: "\<exists>k. sleeps r1 = take k [1000000000, 1200000000, 1440000000, 1728000000, 2073600000, 2488320000, 2985984000, 3583180800, 4299816960]"
    using connect_loop_sleeps [OF c] unfolding L by simp
  have "Type cfg \<noteq> ''postgres'' \<Longrightarrow> sleeps r = take 0 [] \<and> p = None"
    using assms by (auto simp: New_def add_log_def)
  moreover have "Type cfg = ''postgres'' \<Longrightarrow> sleeps r = sleeps r1 \<and> (p \<noteq> None \<longrightarrow> closer r)"
    using assms c by (auto simp: New_def add_log_def Let_def split: option.splits prod.splits if_splits)
  ultimately show ?thesis using sl by (metis take_0)
qed

theorem New_backoff_bounded_witness:
  "\<exists>r. New (example_driver\<lparr>pool_connect := \<lambda>_ s. (Some ''refused'', s)\<rparr>) (\<lambda>c. c) (example_disk ''d'' [])
     \<lparr>Type = ''postgres'', ConnString = ''host=x dbname=shop'', Migrations = ''''\<rparr> [] (None, None) = Some (None, (None, None), r) \<and>
     length (sleeps r) = 9 \<and> (\<exists>k. sleeps r = take k [1000000000, 1200000000, 1440000000, 1728000000, 2073600000, 2488320000, 2985984000, 3583180800, 4299816960])"
proof -
  let ?new = "New (example_driver\<lparr>pool_connect := \<lambda>_ s. (Some ''refused'', s)\<rparr>) (\<lambda>c. c) (example_disk ''d'' [])
     \<lparr>Type = ''postgres'', ConnString = ''host=x dbname=shop'', Migrations = ''''\<rparr> [] (None, None)"
  have "map_option (\<lambda>(p, s', r). p = None \<and> s' = (None, None) \<and> length (sleeps r) = 9) ?new = Some True" by code_simp
  then obtain r where r: "?new = Some (None, (None, None), r)" and n: "length (sleeps r) = 9"
    by (cases ?new) auto
  from New_backoff_bounded [OF r] show ?thesis using r n by blast
qed

text \<open>
  C16: no migration is forgotten.  Without faults of the file system, the walk over the five
  directories is the same as a run over a list of steps, and the files of these steps are
  exactly the files of the tree: everything that is not a directory and is reached from one
  of the five through directories.
\<close>

theorem walk_visits_every_file:
  assumes "well_formed (disk m)" and "canonical path" and "\<And>call k. fault (disk m) call k = None"
  shows "\<exists>sts. (\<forall>c. each (\<lambda>obj. processFilesIn m (depth_fuel (disk m)) path obj) objects c = run_steps m path sts c) \<and>
    files_of sts = {join_str ''/'' (obj # ds) |obj ds. obj \<in> set objects \<and> ds \<noteq> [] \<and> file_below (disk m) (parts path @ [obj]) ds}"
proof -
  have "each (\<lambda>obj. processFilesIn m (depth_fuel (disk m)) path obj) objects c = run_steps m path (full_plan (disk m) path) c" for c
    unfolding run_steps_def full_plan_def
    using processFilesIn_plan [OF object_plan [OF assms(1,2)]] by (intro each_concat) (auto simp: run_steps_def)
  moreover have "files_of (the (plan (disk m) (depth_fuel (disk m)) path obj)) =
      {join_str ''/'' (obj # ds) |ds. ds \<noteq> [] \<and> file_below (disk m) (parts path @ [obj]) ds}" if "obj \<in> set objects" for obj
    using plan_files [OF assms, of "depth_fuel (disk m)" "[obj]"] object_plan [OF assms(1,2) that] objects_proper [OF that] by (simp add: files_below_def)
  then have "files_of (full_plan (disk m) path) =
      {join_str ''/'' (obj # ds) |obj ds. obj \<in> set objects \<and> ds \<noteq> [] \<and> file_below (disk m) (parts path @ [obj]) ds}"
    unfolding full_plan_def by (simp add: files_of_simps) blast
  ultimately show ?thesis by blast
qed

theorem walk_visits_every_file_witness:
  "\<exists>sts. (\<forall>c. each (\<lambda>obj. processFilesIn (example_migrator ''d'' [([''d'', ''a.sql''], ''A'')]) 5 ''/m'' obj) objects c =
       run_steps (example_migrator ''d'' [([''d'', ''a.sql''], ''A'')]) ''/m'' sts c) \<and> ''Tables/d/a.sql'' \<in> files_of sts"
proof -
  let ?m = "example_migrator ''d'' [([''d'', ''a.sql''], ''A'')]"
  have wf: "well_formed (disk ?m)" and d: "depth_fuel (disk ?m) = 5" by code_simp+
  have can: "canonical ''/m''" unfolding canonical_def by (intro exI [of _ "[''m'']"]) (simp add: proper_name_def)
  have nf: "fault (disk ?m) call k = None" for call k by (simp add: example_files example_disk_def)
  have "parts ''/m'' = [''m'']" by code_simp
  then have "file_below (disk ?m) (parts ''/m'' @ [''Tables'']) [''d'', ''a.sql'']"
    by (simp add: file_below_Cons file_below_Nil example_files example_disk_def node_at_def)
  then have "''Tables/d/a.sql'' \<in> {join_str ''/'' (obj # ds) |obj ds. obj \<in> set objects \<and> ds \<noteq> [] \<and> file_below (disk ?m) (parts ''/m'' @ [obj]) ds}"
    by (intro CollectI exI [of _ "''Tables''"] exI [of _ "[''d'', ''a.sql'']"]) (simp add: objects_def)
  then show ?thesis using walk_visits_every_file [OF wf can nf] unfolding d by metis
qed

end
