(* ===== verification/Downloads.thy ===== *)
theory Downloads
  imports Dbase
begin

text \<open>
  Packages \<open>www\<close> (src/www/www.go) and \<open>dbcache\<close> (src/cache/dbcache/dbcache.go):
  downloads into files, and a cache of downloads whose index is a database table.  The HTTP
  client, gzip and URL parsing are the argument \<open>web\<close>; files are those of theory
  \<open>Files\<close>, the database is the driver of theory \<open>Dbase\<close>.  \<open>cache_laws\<close> states
  what PostgreSQL promises of the two statements on the index.
\<close>

subsection \<open>Responses\<close>

text \<open>A body gives some bytes and then ends, or fails.\<close>

type_synonym body = "string \<times> string option"

record response =
  StatusCode :: int
  Header :: "string \<rightharpoonup> string"
  Body :: body
  ReqURL :: "string option"

datatype do_result = NoRequest string | DoFailed bool string | Responded response

datatype fetch_error = Timeout | FetchErr string | FsErr fs_error

text \<open>
  \<open>DoFailed t e\<close> is an error of \<open>client.Do\<close>, a timeout if \<open>t\<close>; \<open>gzip_new\<close> is
  \<open>gzip.NewReader\<close> with the reading of what it gives; \<open>read_size\<close> is the number of bytes
  of the first read of a body.
\<close>

record web =
  http_do :: "string \<Rightarrow> (string \<times> string) list \<Rightarrow> do_result"
  gzip_new :: "body \<Rightarrow> string + body"
  parse_url :: "string \<Rightarrow> string option"
  read_size :: nat

definition setHeaders :: "(string \<times> string) list" where
  "setHeaders =
     [(''Accept'', ''*/*''), (''Accept-Encoding'', ''gzip''), (''Accept-Language'', ''en-GB;q=0.9,en-US;q=0.8,en;q=0.7''),
      (''Cache-Control'', ''no-cache''), (''Pragma'', ''no-cache''),
      (''Sec-Ch-Ua'', ''\"Chromium\";v=\"118\", \"Google Chrome\";v=\"118\", \"Not=A?Brand\";v=\"99\"''),
      (''User-Agent'', ''Mozilla/5.0 (Macintosh; Intel Mac OS X 10_15_7) AppleWebKit/537.36 (KHTML, like Gecko) Chrome/118.0.0.0 Safari/537.36'')]"

type_synonym RequestOpt = int

definition ReqIgnore403 :: RequestOpt where "ReqIgnore403 = 1"
definition ReqIgnore404 :: RequestOpt where "ReqIgnore404 = 2"
definition ReqIgnore406 :: RequestOpt where "ReqIgnore406 = 3"
definition ReqIgnore410 :: RequestOpt where "ReqIgnore410 = 4"
definition ReqIgnore451 :: RequestOpt where "ReqIgnore451 = 5"

definition hasOpt :: "RequestOpt list \<Rightarrow> RequestOpt \<Rightarrow> bool" where
  "hasOpt opts chk \<longleftrightarrow> chk \<in> set opts"

definition ignorableStatus :: "int \<Rightarrow> RequestOpt option" where
  "ignorableStatus = [403 \<mapsto> ReqIgnore403, 404 \<mapsto> ReqIgnore404, 406 \<mapsto> ReqIgnore406, 410 \<mapsto> ReqIgnore410, 451 \<mapsto> ReqIgnore451]"

definition checkStatusCode :: "response \<Rightarrow> RequestOpt list \<Rightarrow> fetch_error option" where
  "checkStatusCode r opts =
     (if StatusCode r = 200 then None
      else if (case ignorableStatus (StatusCode r) of Some opt \<Rightarrow> hasOpt opts opt | None \<Rightarrow> False) then None
      else Some (FetchErr (''received non 200 response code: '' @ Itoa (StatusCode r) @ ''; '' @ fst (Body r))))"

text \<open>
  A body as it is handed on: the one of the response, or a \<open>gzipReadCloser\<close> with the body
  and the reader over it.  Reading goes to the reader, \<open>Close\<close> to the body, which is counted:
  \<open>closes\<close> is how often the body of the response has been closed.
\<close>

datatype read_closer = PlainBody body | GzipReadCloser body body

fun rc_Read :: "read_closer \<Rightarrow> body" where
  "rc_Read (PlainBody b) = b"
| "rc_Read (GzipReadCloser b gz) = gz"

fun rc_Close :: "read_closer \<Rightarrow> nat \<Rightarrow> nat" where
  "rc_Close (PlainBody b) closes = closes + 1"
| "rc_Close (GzipReadCloser b gz) closes = closes + 1"

definition wrapGzipBody :: "web \<Rightarrow> response \<Rightarrow> fetch_error + read_closer" where
  "wrapGzipBody w r =
     (if Header r ''Content-Encoding'' \<noteq> Some ''gzip'' then Inr (PlainBody (Body r))
      else (case gzip_new w (Body r) of Inl e \<Rightarrow> Inl (FetchErr e) | Inr gz \<Rightarrow> Inr (GzipReadCloser (Body r) gz)))"

definition redirectURL :: "response \<Rightarrow> string option" where
  "redirectURL r = ReqURL r"

definition doRequest :: "web \<Rightarrow> string \<Rightarrow> fetch_error + response" where
  "doRequest w uri = (case http_do w uri setHeaders of
      NoRequest e \<Rightarrow> Inl (FetchErr e)
    | DoFailed isTimeout e \<Rightarrow> if isTimeout then Inl Timeout else Inl (FetchErr e)
    | Responded r \<Rightarrow> Inr r)"

text \<open>
  \<open>getResponse\<close>: the body or an error, the content type, the URL that answered, and how often
  the body of the response was closed: once on each error after a response.
\<close>

definition getResponse :: "web \<Rightarrow> string \<Rightarrow> RequestOpt list \<Rightarrow> (fetch_error + read_closer) \<times> string \<times> string option \<times> nat" where
  "getResponse w uri opts = (case doRequest w uri of
      Inl e \<Rightarrow> (Inl e, '''', None, 0)
    | Inr r \<Rightarrow>
        (let newURL = redirectURL r
         in case checkStatusCode r opts of
              Some e \<Rightarrow> (Inl e, '''', newURL, 1)
            | None \<Rightarrow> (case wrapGzipBody w r of
                Inl e \<Rightarrow> (Inl e, '''', None, 1)
              | Inr b \<Rightarrow> (Inr b, map_get '''' (Header r) ''Content-Type'', newURL, 0))))"

subsection \<open>Fetch\<close>

record fetched =
  contentType :: string
  newURL :: "string option"
  fileSize :: int
  ferr :: "fetch_error option"
  buf :: string
  closes :: nat

text \<open>
  \<open>io.Copy\<close> into a file that was created, with the bytes that a \<open>TeeReader\<close> passes on:
  a failing write stops the copy after the first read.
\<close>

definition copy_to_file :: "web \<Rightarrow> fs \<Rightarrow> string \<Rightarrow> body \<Rightarrow> (int \<times> fetch_error option) \<times> string \<times> fs" where
  "copy_to_file w f p b =
     (let k = locate f p
      in if fst b = '''' then ((0, map_option FetchErr (snd b)), '''', f)
         else (case fault f ''write'' k of
             Some e \<Rightarrow> ((0, Some (FsErr (ErrFS e))), take (read_size w) (fst b), f)
           | None \<Rightarrow> ((int (length (fst b)), map_option FetchErr (snd b)), fst b,
               (case node_at f k of Some (FileNode _) \<Rightarrow> put_node f k (FileNode (fst b)) | _ \<Rightarrow> f))))"

text \<open>\<open>None\<close> is the nil dereference of a copy into a nil buffer.\<close>

definition Fetch :: "web \<Rightarrow> fs \<Rightarrow> string \<Rightarrow> string \<Rightarrow> string \<Rightarrow> string \<Rightarrow> bool \<Rightarrow> RequestOpt list \<Rightarrow> (fetched \<times> fs) option" where
  "Fetch w f url root path fname hasBuf opts = (case getResponse w url opts of
      (Inl e, ct, u, cl) \<Rightarrow> Some (\<lparr>contentType = ct, newURL = u, fileSize = 0, ferr = Some e, buf = '''', closes = cl\<rparr>, f)
    | (Inr rc, ct, u, cl) \<Rightarrow>
        let b = rc_Read rc;
            res = (\<lambda>n e x. \<lparr>contentType = ct, newURL = u, fileSize = n, ferr = e, buf = (if hasBuf then x else ''''), closes = rc_Close rc cl\<rparr>)
        in if fname = '''' then
             (if \<not> hasBuf \<and> fst b \<noteq> '''' then None
              else Some (res (int (length (fst b))) (map_option FetchErr (snd b)) (fst b), f))
           else
             let fpath = Join [root, path]
             in case (if Exists f fpath then (None, f) else Mkdir f fpath) of
                  (Some e, f1) \<Rightarrow> Some (res 0 (Some (FsErr e)) '''', f1)
                | (None, f1) \<Rightarrow>
                    let fullPath = Join [fpath, fname]
                    in case Create f1 fullPath of
                         (Some e, f2) \<Rightarrow> Some (res 0 (Some (FsErr e)) '''', f2)
                       | (None, f2) \<Rightarrow> (case copy_to_file w f2 fullPath b of
                           ((n, e), x, f3) \<Rightarrow> Some (res n e x, f3)))"

definition Download :: "web \<Rightarrow> fs \<Rightarrow> string \<Rightarrow> string \<Rightarrow> string \<Rightarrow> string \<Rightarrow> RequestOpt list \<Rightarrow> ((string \<times> int \<times> fetch_error option) \<times> fs) option" where
  "Download w f url root path fname opts =
     map_option (\<lambda>(r, f1). ((contentType r, fileSize r, ferr r), f1)) (Fetch w f url root path fname False opts)"

text \<open>
  The random names are drawn as in theory \<open>Files\<close>: \<open>now\<close> and \<open>rnd\<close> are the time and the
  random numbers of each attempt.
\<close>

definition DownloadContent :: "web \<Rightarrow> (nat \<Rightarrow> nat) \<Rightarrow> (nat \<Rightarrow> nat \<Rightarrow> nat) \<Rightarrow> fs \<Rightarrow> string \<Rightarrow> string \<Rightarrow> string \<Rightarrow>
    ((string \<times> string \<times> string \<times> int \<times> fetch_error option) \<times> fs) option" where
  "DownloadContent w now rnd f url root path = (case GenerateRandomFilename (parse_url w) f now rnd url root path of
      None \<Rightarrow> None
    | Some (extPath, fname) \<Rightarrow>
        map_option (\<lambda>(r, f1). ((extPath, buf r, contentType r, fileSize r, ferr r), f1)) (Fetch w f url root path fname True []))"

definition FetchContent :: "web \<Rightarrow> fs \<Rightarrow> string \<Rightarrow> RequestOpt list \<Rightarrow> ((string \<times> string \<times> string option \<times> int \<times> fetch_error option) \<times> fs) option" where
  "FetchContent w f url opts =
     map_option (\<lambda>(r, f1). ((buf r, contentType r, newURL r, fileSize r, ferr r), f1)) (Fetch w f url '''' '''' '''' True opts)"

text \<open>
  \<open>EnqueueDownload\<close>: its results, and whether the goroutine with the retries has been
  started; \<open>fname\<close> is what the goroutine captures.
\<close>

record enqueued =
  extPath :: string
  eContentType :: string
  eFileSize :: int
  eErr :: "fetch_error option"
  retrying :: "string option"

definition EnqueueDownload :: "web \<Rightarrow> (nat \<Rightarrow> nat) \<Rightarrow> (nat \<Rightarrow> nat \<Rightarrow> nat) \<Rightarrow> fs \<Rightarrow> string \<Rightarrow> string \<Rightarrow> string \<Rightarrow> (enqueued \<times> fs) option" where
  "EnqueueDownload w now rnd f url root path = (case GenerateRandomFilename (parse_url w) f now rnd url root path of
      None \<Rightarrow> None
    | Some (ext, fname) \<Rightarrow> (case Download w f url root path fname [] of
        None \<Rightarrow> None
      | Some ((ct, n, err), f1) \<Rightarrow>
          Some (if err = Some Timeout
            then \<lparr>extPath = ext, eContentType = ct, eFileSize = n, eErr = None, retrying = Some fname\<rparr>
            else \<lparr>extPath = ext, eContentType = ct, eFileSize = n, eErr = err, retrying = None\<rparr>, f1)))"

definition retryPolicy :: "int list" where
  "retryPolicy = [2, 4, 8, 16, 32, 64, 128]"

text \<open>
  The goroutine: \<open>ws\<close> is the network as it is at each attempt.  The results are the call
  of the callback, if any, and the seconds slept.
\<close>

fun retry_goroutine :: "(nat \<Rightarrow> web) \<Rightarrow> nat \<Rightarrow> int list \<Rightarrow> fs \<Rightarrow> string \<Rightarrow> string \<Rightarrow> string \<Rightarrow> string \<Rightarrow>
    ((string \<times> string \<times> int) option \<times> int list \<times> fs) option" where
  "retry_goroutine ws i [] f url root path fname = Some (None, [], f)"
| "retry_goroutine ws i (delay # ds) f url root path fname = (case Download (ws i) f url root path fname [] of
      None \<Rightarrow> None
    | Some ((ct, n, err), f1) \<Rightarrow>
        if err \<noteq> Some Timeout then Some (Some (url, ct, n), [delay], f1)
        else map_option (\<lambda>(c, sl, f2). (c, delay # sl, f2)) (retry_goroutine ws (Suc i) ds f1 url root path fname))"

subsection \<open>dbcache\<close>

record ('s, 't) cache =
  cdrv :: "('s, 't) driver"
  cdb :: "'t Psql"
  cacheDir :: string

definition New :: "('s, 't) driver \<Rightarrow> 't Psql \<Rightarrow> string \<Rightarrow> ('s, 't) cache" where
  "New d p dir = \<lparr>cdrv = d, cdb = p, cacheDir = dir\<rparr>"

text \<open>The statements of the source, with runs of white space collapsed.\<close>

definition get_record_sql :: string where
  "get_record_sql = ''with upd as ( update file_cache set last_read_at = now() where source_url = $1 returning id ) select file_path, content_type, added_at from file_cache where id = (select id from upd limit 1)''"

definition set_record_sql :: string where
  "set_record_sql = ''insert into file_cache ( source_url, file_path, content_type, file_size ) values ( $1, $2, $3, $4 ) on conflict (source_url) do update set file_path = excluded.file_path, content_type = excluded.content_type ;''"

definition update_type_sql :: string where
  "update_type_sql = ''update file_cache set content_type = $1, file_size = $2 where source_url = $3''"

text \<open>The log holds the messages; the entry is zero when no row was found.\<close>

definition getCacheRecord :: "('s, 't) cache \<Rightarrow> string \<Rightarrow> 's \<Rightarrow> (string \<times> string) \<times> 's \<times> string list" where
  "getCacheRecord c url s = (case QueryRow (cdrv c) (cdb c) get_record_sql [AStr url] s of
      ((found, Some e, row), s1) \<Rightarrow> (('''', ''''), s1, [''getting cache record''])
    | ((found, None, row), s1) \<Rightarrow>
        ((case row of VStr p # VStr ct # _ \<Rightarrow> (p, ct) | _ \<Rightarrow> ('''', '''')), s1,
         if found then [] else [''getting cache record: not found'']))"

definition setCacheRecord :: "('s, 't) cache \<Rightarrow> string \<Rightarrow> string \<Rightarrow> string \<Rightarrow> int \<Rightarrow> 's \<Rightarrow> string option \<times> 's" where
  "setCacheRecord c url ext ct sz s = Exec (cdrv c) (cdb c) set_record_sql [AStr url, AStr ext, AStr ct, AInt sz] s"

definition contentTypeUpdate :: "('s, 't) cache \<Rightarrow> string \<Rightarrow> string \<Rightarrow> int \<Rightarrow> 's \<Rightarrow> 's \<times> string list" where
  "contentTypeUpdate c url ct sz s = (case Exec (cdrv c) (cdb c) update_type_sql [AStr ct, AInt sz, AStr url] s of
      (Some e, s1) \<Rightarrow> (s1, [''updating content_type''])
    | (None, s1) \<Rightarrow> (s1, []))"

text \<open>
  The clock of the caller: the local time of the call, and times and random numbers for the
  names.  The directory is named by the date.
\<close>

record clock =
  today :: nat
  now :: "nat \<Rightarrow> nat"
  rnd :: "nat \<Rightarrow> nat \<Rightarrow> nat"

definition date :: "clock \<Rightarrow> string" where
  "date k = Format_date (today k)"

definition requestURL :: "web \<Rightarrow> clock \<Rightarrow> ('s, 't) cache \<Rightarrow> string \<Rightarrow> fs \<Rightarrow> (enqueued \<times> fs) option" where
  "requestURL w k c url f = EnqueueDownload w (now k) (rnd k) f url (cacheDir c) (date k)"

definition fetchURL :: "web \<Rightarrow> clock \<Rightarrow> ('s, 't) cache \<Rightarrow> string \<Rightarrow> fs \<Rightarrow> ((string \<times> string \<times> string \<times> int \<times> fetch_error option) \<times> fs) option" where
  "fetchURL w k c url f = DownloadContent w (now k) (rnd k) f url (cacheDir c) (date k)"

datatype cache_error = CFetch fetch_error | CFile fs_error | CDb string

text \<open>The file name captured by a retry goroutine is passed on.\<close>

definition GetURL :: "web \<Rightarrow> clock \<Rightarrow> ('s, 't) cache \<Rightarrow> string \<Rightarrow> 's \<times> fs \<Rightarrow> ((string \<times> cache_error option \<times> string option) \<times> 's \<times> fs) option" where
  "GetURL w k c url sf = (case sf of (s, f) \<Rightarrow>
     (case getCacheRecord c url s of ((ext, _), s1, _) \<Rightarrow>
        if ext \<noteq> '''' \<and> Exists f (Join [cacheDir c, ext]) then Some ((ext, None, None), s1, f)
        else (case requestURL w k c url f of
            None \<Rightarrow> None
          | Some (q, f1) \<Rightarrow> (case eErr q of
              Some e \<Rightarrow> Some ((extPath q, Some (CFetch e), None), s1, f1)
            | None \<Rightarrow> (case setCacheRecord c url (extPath q) (eContentType q) (eFileSize q) s1 of
                (err, s2) \<Rightarrow> Some ((extPath q, map_option CDb err, retrying q), s2, f1))))))"

definition GetContent :: "web \<Rightarrow> clock \<Rightarrow> ('s, 't) cache \<Rightarrow> string \<Rightarrow> 's \<times> fs \<Rightarrow> ((string \<times> string \<times> cache_error option) \<times> 's \<times> fs) option" where
  "GetContent w k c url sf = (case sf of (s, f) \<Rightarrow>
     (case getCacheRecord c url s of ((ext, ct), s1, _) \<Rightarrow>
        let fullPath = Join [cacheDir c, ext]
        in if ext \<noteq> '''' \<and> Exists f fullPath
           then (case Read f fullPath of
               Inl e \<Rightarrow> Some (('''', ct, Some (CFile e)), s1, f)
             | Inr b \<Rightarrow> Some ((b, ct, None), s1, f))
           else (case fetchURL w k c url f of
               None \<Rightarrow> None
             | Some ((ext', b, ct', n, Some e), f1) \<Rightarrow> Some ((b, ct', Some (CFetch e)), s1, f1)
             | Some ((ext', b, ct', n, None), f1) \<Rightarrow> (case setCacheRecord c url ext' ct' n s1 of
                 (err, s2) \<Rightarrow> Some ((b, ct', map_option CDb err), s2, f1)))))"

definition Cleanup :: "('s, 't) cache \<Rightarrow> 's \<Rightarrow> 's" where
  "Cleanup c s = s"

subsection \<open>What is written\<close>

lemma put_same: "k \<noteq> [] \<Longrightarrow> node_at (put_node f k n) k = Some n"
  by (simp add: node_at_put)

text \<open>A file that was created is written with all the bytes of a body that ends.\<close>

lemma created_then_copied:
  assumes "Create f p = (None, f1)" and "node_at f (locate f p) \<noteq> Some DeviceNode"
    and "copy_to_file w f1 p (bytes, None) = ((n, None), x, f2)"
  shows "node_at f2 (locate f p) = Some (FileNode bytes) \<and> n = int (length bytes) \<and> x = bytes \<and> locate f2 = locate f \<and> fault f2 = fault f"
proof -
  have ne: "locate f p \<noteq> []" and f1: "f1 = put_node f (locate f p) (FileNode '''')"
    using assms(1,2) by (auto simp: Create_def Let_def node_at_def split: option.splits node.splits if_splits)
  then have at: "node_at f1 (locate f1 p) = Some (FileNode '''')" "locate f1 = locate f" "fault f1 = fault f" by (simp_all add: put_same)
  then show ?thesis using assms(3) ne
    by (auto simp: copy_to_file_def Let_def put_same split: if_splits option.splits)
qed

lemma Fetch_file:
  assumes "Fetch w f url root path fname hasBuf opts = Some (r, f')" and "ferr r = None" and "fname \<noteq> ''''"
  obtains rc bytes f1 f2 where "getResponse w url opts = (Inr rc, contentType r, newURL r, 0)" and "rc_Read rc = (bytes, None)"
    and "(if Exists f (Join [root, path]) then (None, f) else Mkdir f (Join [root, path])) = (None, f1)"
    and "Create f1 (Join [Join [root, path], fname]) = (None, f2)"
    and "\<exists>x. copy_to_file w f2 (Join [Join [root, path], fname]) (bytes, None) = ((fileSize r, None), x, f') \<and> buf r = (if hasBuf then x else '''')"
proof -
  obtain q ct u cl where g: "getResponse w url opts = (q, ct, u, cl)" by (metis prod.exhaust)
  obtain e1 f1 where mk: "(if Exists f (Join [root, path]) then (None, f) else Mkdir f (Join [root, path])) = (e1, f1)" by (metis prod.exhaust)
  obtain e2 f2 where cr: "Create f1 (Join [Join [root, path], fname]) = (e2, f2)" by fastforce
  have "e1 = None" "e2 = None" "\<exists>b. q = Inr b"
    using assms g mk cr by (auto simp: Fetch_def Let_def split: sum.splits option.splits prod.splits)
  then obtain rc where b: "q = Inr rc" "e1 = None" "e2 = None" by blast
  have cl: "cl = 0" using g b(1) by (auto simp: getResponse_def Let_def split: sum.splits option.splits)
  obtain n e x f3 where cp: "copy_to_file w f2 (Join [Join [root, path], fname]) (rc_Read rc) = ((n, e), x, f3)" by (metis prod.exhaust)
  have r: "r = \<lparr>contentType = ct, newURL = u, fileSize = n, ferr = e, buf = (if hasBuf then x else ''''), closes = rc_Close rc cl\<rparr>" "f' = f3"
    using assms(1,3) g mk cr b cp by (auto simp: Fetch_def Let_def)
  moreover have "snd (rc_Read rc) = None"
    using cp r(1) assms(2) by (auto simp: copy_to_file_def Let_def split: if_splits option.splits)
  ultimately show ?thesis
    using that [of rc "fst (rc_Read rc)" f1 f2] g mk cr b cp cl assms(2) by (cases "rc_Read rc") auto
qed

text \<open>The body of every response is closed exactly once.\<close>

lemma Fetch_closes_body:
  assumes "Fetch w f url root path fname hasBuf opts = Some (r, f')"
  shows "closes r = (case doRequest w url of Inl _ \<Rightarrow> 0 | Inr _ \<Rightarrow> 1)"
proof -
  obtain q ct u cl where g: "getResponse w url opts = (q, ct, u, cl)" by (metis prod.exhaust)
  have "(case q of Inl _ \<Rightarrow> cl | Inr rc \<Rightarrow> rc_Close rc cl) = (case doRequest w url of Inl _ \<Rightarrow> 0 | Inr _ \<Rightarrow> 1)"
  proof (cases q)
    case (Inr rc)
    with g show ?thesis by (cases rc) (auto simp: getResponse_def Let_def split: sum.splits option.splits)
  qed (use g in \<open>auto simp: getResponse_def Let_def split: sum.splits option.splits\<close>)
  moreover have "closes r = (case q of Inl _ \<Rightarrow> cl | Inr rc \<Rightarrow> rc_Close rc cl)"
    using assms g by (auto simp: Fetch_def Let_def split: sum.splits if_splits option.splits prod.splits)
  ultimately show ?thesis by simp
qed

lemma made_dir_keeps:
  assumes "(if Exists f p then (None, f) else Mkdir f p) = (err, f1)"
  shows "locate f1 = locate f" and "fault f1 = fault f" and "cwd f1 = cwd f"
    and "node_at f1 j = Some n \<Longrightarrow> node_at f j = Some n \<or> n = DirNode"
  using assms Mkdir_keeps [of f p err f1] by (auto split: if_splits)

lemma getResponse_ok:
  assumes "getResponse w url opts = (Inr b, ct, u, cl)"
  shows "\<exists>resp. http_do w url setHeaders = Responded resp \<and> wrapGzipBody w resp = Inr b \<and>
    (StatusCode resp = 200 \<or> (\<exists>opt \<in> set opts. ignorableStatus (StatusCode resp) = Some opt)) \<and>
    ct = map_get '''' (Header resp) ''Content-Type'' \<and> u = ReqURL resp"
  using assms
  by (auto simp: getResponse_def doRequest_def checkStatusCode_def redirectURL_def hasOpt_def Let_def
      split: sum.splits do_result.splits option.splits if_splits)

subsection \<open>Names in the cache\<close>

lemma generated_name:
  assumes "GenerateRandomFilename u f nw rd url root path = Some (ext, fname)"
  shows "proper_name fname" and "ext = Join [path, fname]"
proof -
  from assms obtain a where a: "random_name f nw rd root path (URLFileExtension u url) 0 = Some a"
    and e: "fname = a @ URLFileExtension u url" "ext = Join [path, fname]"
    by (auto simp: GenerateRandomFilename_def Let_def split: option.splits)
  from random_name_attempt [OF a] obtain j where j: "a = attempt nw rd j" by blast
  show "proper_name fname" unfolding e(1) j by (rule attempt_proper)
  show "ext = Join [path, fname]" by (rule e(2))
qed

lemma date_proper: "proper_name (date k)"
  unfolding date_def by (rule proper_nameI [OF Format_no_slash(1) Format_date_long])

text \<open>The path that is written and the path that is looked up lead to the same file.\<close>

lemma cache_paths:
  assumes "canonical root" and "proper_name path" and "proper_name fname"
  shows "locate f (Join [Join [root, path], fname]) = locate f (Join [root, Join [path, fname]])"
    and "locate f (Join [root, Join [path, fname]]) = parts root @ [path, fname]"
    and "Join [path, fname] \<noteq> ''''" and "Join [root, Join [path, fname]] \<noteq> ''''"
proof -
  have rel: "Join [path, fname] = join_str ''/'' [path, fname]" using Join_rel [of "[path]" fname] assms(2,3) by simp
  have 1: "canonical (Join [root, path])" "parts (Join [root, path]) = parts root @ [path]"
    using parts_below [OF assms(1), of "[path]"] assms(2) by auto
  have 2: "canonical (Join [Join [root, path], fname])" "parts (Join [Join [root, path], fname]) = parts root @ [path, fname]"
    using parts_below [OF 1(1), of "[fname]"] assms(3) 1(2) by auto
  have 3: "canonical (Join [root, Join [path, fname]])" "parts (Join [root, Join [path, fname]]) = parts root @ [path, fname]"
    using parts_below [OF assms(1), of "[path, fname]"] assms(2,3) rel by auto
  show "locate f (Join [Join [root, path], fname]) = locate f (Join [root, Join [path, fname]])"
    "locate f (Join [root, Join [path, fname]]) = parts root @ [path, fname]"
    using 2 3 canonical_abs by (simp_all add: locate_parts)
  show "Join [path, fname] \<noteq> ''''" using rel by simp
  show "Join [root, Join [path, fname]] \<noteq> ''''" using canonical_abs [OF 3(1)] by (auto simp: IsAbs_def HasPrefix_def)
qed

lemma fetched_file:
  assumes "Fetch w f url root path fname hasBuf opts = Some (r, f')" and "ferr r = None" and "fname \<noteq> ''''"
    and "node_at f (locate f (Join [Join [root, path], fname])) \<noteq> Some DeviceNode"
  shows "\<exists>rc bytes. getResponse w url opts = (Inr rc, contentType r, newURL r, 0) \<and> rc_Read rc = (bytes, None) \<and>
    node_at f' (locate f (Join [Join [root, path], fname])) = Some (FileNode bytes) \<and> fileSize r = int (length bytes) \<and>
    (hasBuf \<longrightarrow> buf r = bytes) \<and> locate f' = locate f \<and> fault f' = fault f"
proof -
  from assms(1-3) obtain rc bytes f1 f2 x where g: "getResponse w url opts = (Inr rc, contentType r, newURL r, 0)" "rc_Read rc = (bytes, None)"
    and mk: "(if Exists f (Join [root, path]) then (None, f) else Mkdir f (Join [root, path])) = (None, f1)"
    and cr: "Create f1 (Join [Join [root, path], fname]) = (None, f2)"
    and cp: "copy_to_file w f2 (Join [Join [root, path], fname]) (bytes, None) = ((fileSize r, None), x, f')" "buf r = (if hasBuf then x else '''')"
    by (rule Fetch_file) blast
  note k = made_dir_keeps [OF mk]
  have "node_at f1 (locate f1 (Join [Join [root, path], fname])) \<noteq> Some DeviceNode"
    using assms(4) k(1) k(4) [of _ DeviceNode] by auto
  from created_then_copied [OF cr this cp(1)] show ?thesis using g cp(2) k(1,2) by simp
qed

lemma Read_file:
  assumes "node_at f (locate f p) = Some (FileNode b)" and "p \<noteq> ''''" and "\<And>call k. fault f call k = None"
  shows "Exists f p" and "Read f p = Inr b"
  using assms by (simp_all add: Exists_def Stat_def Let_def Read_def Open_def read_handle_def)

subsection \<open>The index\<close>

text \<open>\<open>table\<close> reads the path, the content type and the size that the index holds for each URL: an
  insertion on an indexed URL leaves the size as it is.\<close>

definition kept_size :: "(string \<times> string \<times> int) option \<Rightarrow> int \<Rightarrow> int" where
  "kept_size old n = (case old of None \<Rightarrow> n | Some (_, _, m) \<Rightarrow> m)"

definition cache_laws :: "('s, 't) cache \<Rightarrow> ('s \<Rightarrow> string \<rightharpoonup> string \<times> string \<times> int) \<Rightarrow> bool" where
  "cache_laws c table \<longleftrightarrow> conn (cdb c) = None \<and>
     (\<forall>s url. \<exists>s' added. table s' = table s \<and> get_row (cdrv c) None get_record_sql [AStr url] s =
        (case table s url of None \<Rightarrow> Inl NoRows | Some (p, ct, _) \<Rightarrow> Inr [VStr p, VStr ct, added], s')) \<and>
     (\<forall>s s' url p ct n. exec_sql (cdrv c) None set_record_sql [AStr url, AStr p, AStr ct, AInt n] s = (None, s') \<longrightarrow>
        table s' = (table s)(url \<mapsto> (p, ct, kept_size (table s url) n)))"

lemma get_law:
  assumes "cache_laws c table"
  shows "\<exists>s' lg. getCacheRecord c url s = (case table s url of None \<Rightarrow> ('''', '''') | Some (p, ct, _) \<Rightarrow> (p, ct), s', lg) \<and> table s' = table s"
proof -
  from assms obtain s' added where "table s' = table s" "get_row (cdrv c) (conn (cdb c)) get_record_sql [AStr url] s =
        (case table s url of None \<Rightarrow> Inl NoRows | Some (p, ct, _) \<Rightarrow> Inr [VStr p, VStr ct, added], s')"
    unfolding cache_laws_def by metis
  then show ?thesis
    by (cases "table s url") (auto simp: getCacheRecord_def QueryRow_def)
qed

lemma set_law:
  "cache_laws c table \<Longrightarrow> setCacheRecord c url p ct n s = (None, s') \<Longrightarrow> table s' = (table s)(url \<mapsto> (p, ct, kept_size (table s url) n))"
  unfolding cache_laws_def setCacheRecord_def Exec_def by metis

text \<open>A request for a URL whose indexed file is there is answered from it, whatever the network does.\<close>

lemma cache_hit:
  assumes "cache_laws c table" and "table s url = Some (p, ct, sz)" and "p \<noteq> ''''"
    and "Exists f (Join [cacheDir c, p])" and "Read f (Join [cacheDir c, p]) = Inr b"
  shows "\<exists>s'. GetContent w k c url (s, f) = Some ((b, ct, None), s', f) \<and> table s' = table s"
  using get_law [OF assms(1), of url s] assms(2-) by (auto simp: GetContent_def Let_def)

lemma cache_miss:
  assumes "cache_laws c table" and "GetContent w k c url (s, f) = Some ((b, ct, None), s1, f1)"
  obtains (hit) p sz where "table s url = Some (p, ct, sz)" and "p \<noteq> ''''" and "Exists f (Join [cacheDir c, p])"
      and "Read f (Join [cacheDir c, p]) = Inr b" and "f1 = f" and "table s1 = table s"
    | (miss) fname r sz where "GenerateRandomFilename (parse_url w) f (now k) (rnd k) url (cacheDir c) (date k) = Some (Join [date k, fname], fname)"
      and "Fetch w f url (cacheDir c) (date k) fname True [] = Some (r, f1)" and "ferr r = None" and "b = buf r"
      and "table s1 url = Some (Join [date k, fname], ct, sz)"
proof -
  obtain s' lg where g: "getCacheRecord c url s = (case table s url of None \<Rightarrow> ('''', '''') | Some (p, ct, _) \<Rightarrow> (p, ct), s', lg)" and t: "table s' = table s"
    using get_law [OF assms(1)] by blast
  obtain ext ct0 where e: "(case table s url of None \<Rightarrow> ('''', '''') | Some (p, ct, _) \<Rightarrow> (p, ct)) = (ext, ct0)" by fastforce
  show ?thesis
  proof (cases "ext \<noteq> '''' \<and> Exists f (Join [cacheDir c, ext])")
    case True
    then obtain sz where "table s url = Some (ext, ct0, sz)" using e by (auto split: option.splits)
    then show ?thesis using True assms(2) g t by (intro hit [of ext sz]) (auto simp: GetContent_def Let_def split: sum.splits)
  next
    case False
    with assms(2) g e obtain ext' n where d: "fetchURL w k c url f = Some ((ext', b, ct, n, None), f1)"
      and st: "setCacheRecord c url ext' ct n s' = (None, s1)"
      by (auto simp: GetContent_def Let_def split: option.splits prod.splits)
    from d obtain fname r where "GenerateRandomFilename (parse_url w) f (now k) (rnd k) url (cacheDir c) (date k) = Some (ext', fname)"
      "Fetch w f url (cacheDir c) (date k) fname True [] = Some (r, f1)" "ferr r = None" "b = buf r"
      by (auto simp: fetchURL_def DownloadContent_def split: option.splits)
    moreover from this have "ext' = Join [date k, fname]"
      by (auto simp: GenerateRandomFilename_def Let_def split: option.splits)
    ultimately show ?thesis using set_law [OF assms(1) st] by (intro miss [of fname r "kept_size (table s' url) n"]) auto
  qed
qed

subsection \<open>Retries\<close>

lemma Download_timeout:
  assumes "fname \<noteq> ''''"
  shows "\<exists>ct n err f1. Download w f url root path fname [] = Some ((ct, n, err), f1) \<and>
    (err = Some Timeout \<longleftrightarrow> doRequest w url = Inl Timeout) \<and> (err = Some Timeout \<longrightarrow> f1 = f)"
proof (cases "getResponse w url []")
  case (fields q ct u cl)
  have to: "q = Inl Timeout \<longleftrightarrow> doRequest w url = Inl Timeout"
    using fields by (auto simp: getResponse_def checkStatusCode_def wrapGzipBody_def Let_def split: sum.splits option.splits if_splits)
  show ?thesis
  proof (cases q)
    case (Inl e)
    then show ?thesis using fields to by (simp add: Download_def Fetch_def)
  next
    case (Inr b)
    have "snd (fst (copy_to_file w f2 p (rc_Read b))) \<noteq> Some Timeout" for f2 p
      by (cases "snd (rc_Read b)") (auto simp: copy_to_file_def Let_def split: option.splits)
    then have cp: "copy_to_file w f2 p (rc_Read b) = ((n, e), x, f3) \<Longrightarrow> e \<noteq> Some Timeout" for f2 p n e x f3 by (metis fst_conv snd_conv)
    obtain e1 f1 where mk: "(if Exists f (Join [root, path]) then (None, f) else Mkdir f (Join [root, path])) = (e1, f1)" by (metis prod.exhaust)
    obtain e2 f2 where cr: "Create f1 (Join [Join [root, path], fname]) = (e2, f2)" by fastforce
    obtain n e x f3 where co: "copy_to_file w f2 (Join [Join [root, path], fname]) (rc_Read b) = ((n, e), x, f3)" by (metis prod.exhaust)
    have ex: "\<exists>ct n err f1. Download w f url root path fname [] = Some ((ct, n, err), f1) \<and> err \<noteq> Some Timeout"
      using fields Inr assms mk cr co cp [OF co]
      by (cases e1; cases e2) (simp_all add: Download_def Fetch_def Let_def)
    then show ?thesis using to Inr by auto
  qed
qed

lemma range_shift: "(\<forall>j < n. P (Suc j)) \<longleftrightarrow> (\<forall>j \<in> {1..n}. P j)"
  by (metis One_nat_def Suc_le_eq Suc_pred atLeastAtMost_iff diff_Suc_1 less_Suc_eq_le not_less_eq_eq zero_less_Suc Suc_le_mono)

lemma retry_result:
  assumes "fname \<noteq> ''''"
  shows "\<exists>c n f'. retry_goroutine ws i ds f url root path fname = Some (c, take n ds, f') \<and>
    (c = None \<longleftrightarrow> (\<forall>j < length ds. doRequest (ws (i + j)) url = Inl Timeout))"
proof (induction ds arbitrary: i f)
  case (Cons d ds)
  obtain ct n err f1 where d: "Download (ws i) f url root path fname [] = Some ((ct, n, err), f1)"
    "err = Some Timeout \<longleftrightarrow> doRequest (ws i) url = Inl Timeout"
    using Download_timeout [OF assms, of "ws i" f url root path] by (elim exE conjE) (rule that)
  show ?case
  proof (cases "err = Some Timeout")
    case True
    obtain c m f' where r: "retry_goroutine ws (Suc i) ds f1 url root path fname = Some (c, take m ds, f')"
      "c = None \<longleftrightarrow> (\<forall>j < length ds. doRequest (ws (Suc i + j)) url = Inl Timeout)"
      using Cons.IH [of "Suc i" f1] by (elim exE conjE) (rule that)
    have "(\<forall>j < Suc (length ds). doRequest (ws (i + j)) url = Inl Timeout) \<longleftrightarrow> (\<forall>j < length ds. doRequest (ws (Suc i + j)) url = Inl Timeout)"
      using d(2) True by (auto simp: less_Suc_eq_0_disj)
    then show ?thesis using d(1) True r by (intro exI [of _ c] exI [of _ "Suc m"] exI [of _ f']) simp
  next
    case False
    then show ?thesis using d by (intro exI [of _ "Some (url, ct, n)"] exI [of _ 1] exI [of _ f1]) auto
  qed
qed simp

subsection \<open>An example\<close>

text \<open>A server that knows one page, sent compressed; an index kept as a list.\<close>

definition example_web :: web where
  "example_web = \<lparr>http_do = (\<lambda>u _. if u = ''http://a/x.txt''
       then Responded \<lparr>StatusCode = 200, Header = [''Content-Type'' \<mapsto> ''text/plain'', ''Content-Encoding'' \<mapsto> ''gzip''], Body = (''~hello'', None), ReqURL = Some u\<rparr>
       else DoFailed True ''timeout''),
     gzip_new = (\<lambda>b. if HasPrefix (fst b) ''~'' then Inr (tl (fst b), snd b) else Inl ''gzip: invalid header''),
     parse_url = (\<lambda>u. Some (drop 8 u)), read_size = 512\<rparr>"

type_synonym index = "(string \<times> string \<times> string \<times> int) list"

definition example_index :: "(index, unit) driver" where
  "example_index = \<lparr>parse_config = \<lambda>_. None, pool_connect = \<lambda>_ s. (None, s), pool_begin = \<lambda>s. (Inr (), s),
     tx_begin = \<lambda>_ s. (Inr (), s), tx_rollback = \<lambda>_ s. (None, s), tx_commit = \<lambda>_ s. (None, s),
     pool_ping = \<lambda>s. (None, s), select_rows = \<lambda>_ _ _ s. (Inr [], s),
     get_row = \<lambda>_ _ a s. (case a of
         [AStr u] \<Rightarrow> (case map_of s u of None \<Rightarrow> Inl NoRows | Some (p, ct, _) \<Rightarrow> Inr [VStr p, VStr ct, VStr ''today''])
       | _ \<Rightarrow> Inl NoRows, s),
     scan_value = \<lambda>_ _ _ s. (Inl ''no rows'', s),
     exec_sql = \<lambda>_ _ a s. (case a of AStr u # AStr p # AStr ct # AInt n # _ \<Rightarrow> (None, (u, p, ct, kept_size (map_of s u) n) # s)
       | AStr ct # AInt n # AStr u # _ \<Rightarrow> (None, case map_of s u of None \<Rightarrow> s | Some (p, _) \<Rightarrow> (u, p, ct, n) # s)
       | _ \<Rightarrow> (None, s)), pool_close = \<lambda>s. s\<rparr>"

definition example_cache :: "(index, unit) cache" where
  "example_cache = New example_index \<lparr>pool = True, conn = None, tx = None\<rparr> ''/srv''"

definition example_clock :: clock where
  "example_clock = \<lparr>today = 63850161600000000000, now = (\<lambda>_. 63850161600000000000), rnd = (\<lambda>i _. i)\<rparr>"

lemma example_day: "year_of_day 739006 = (2024, 121)"
  by (simp add: year_of_day_def)

lemma example_time: "clock_fields 63850161600000000000 = [2024, 5, 1, 12, 0, 0, 0]"
  by (simp add: clock_fields_def example_day month_of_yday_def isLeap_def daysBefore_def)

lemma example_names: "date example_clock = ''2024-05-01''" "Format_clock 63850161600000000000 = ''12-00-00.000''"
  by (simp_all add: date_def example_clock_def Format_date_def Format_clock_def example_time append_int_def digit_char_def char_of_def bit_0)

lemma example_cache_laws: "cache_laws example_cache map_of"
  by (auto simp: cache_laws_def example_cache_def New_def example_index_def split: option.splits)

lemma empty_name: "GenerateRandomFilename (parse_url example_web) sample_fs (now example_clock) (rnd example_clock) ''http://a/x.txt'' ''/srv'' ''2024-05-01''
   = Some (''2024-05-01/12-00-00-000-AAAA.txt'', ''12-00-00-000-AAAA.txt'')"
proof -
  have a: "attempt (now example_clock) (rnd example_clock) 0 = ''12-00-00-000-AAAA''"
  proof -
    have "ReplaceAll ''12-00-00.000'' ''.'' ''-'' @ ''-'' @ RandomString (\<lambda>_. 0) 4 = ''12-00-00-000-AAAA''" by code_simp
    then show ?thesis by (simp add: attempt_def example_clock_def example_names)
  qed
  have "\<not> Exists sample_fs (Join [''/srv'', ''2024-05-01'', ''12-00-00-000-AAAA.txt''])"
    "URLFileExtension (parse_url example_web) ''http://a/x.txt'' = ''.txt''"
    "Join [''2024-05-01'', ''12-00-00-000-AAAA.txt''] = ''2024-05-01/12-00-00-000-AAAA.txt''"
    by code_simp+
  with a show ?thesis by (simp add: GenerateRandomFilename_def Let_def random_name_step)
qed

lemma example_fetch:
  "map_option (\<lambda>(r, f). (contentType r, fileSize r, ferr r, buf r, nodes f)) (Fetch example_web sample_fs ''http://a/x.txt'' ''/srv'' ''2024-05-01'' ''12-00-00-000-AAAA.txt'' True [])
   = Some (''text/plain'', 5, None, ''hello'',
       nodes sample_fs @ [([''srv'', ''2024-05-01''], DirNode), ([''srv'', ''2024-05-01'', ''12-00-00-000-AAAA.txt''], FileNode ''hello'')])"
  by code_simp

subsection \<open>Properties\<close>

text \<open>
  C26: what was downloaded is what is saved and returned.  After a download into a file
  without error, the server answered with status 200 or one that the options allow, and
  the file holds exactly the bytes of the body: what gzip makes of them if the response has the
  content encoding \<open>gzip\<close>, and the bytes themselves if it has not.  The content type is the
  one of the response, the reported size is the number of these bytes and the buffer, if there is one, holds the same bytes.  The body of the
  response was closed exactly once.
\<close>

theorem Fetch_saves_body:
  assumes "Fetch w f url root path fname hasBuf opts = Some (r, f')" and "ferr r = None" and "fname \<noteq> ''''"
    and "node_at f (locate f (Join [Join [root, path], fname])) \<noteq> Some DeviceNode"
  shows "\<exists>resp bytes. http_do w url setHeaders = Responded resp \<and>
    (if Header resp ''Content-Encoding'' = Some ''gzip'' then gzip_new w (Body resp) = Inr (bytes, None) else Body resp = (bytes, None)) \<and>
    contentType r = (case Header resp ''Content-Type'' of None \<Rightarrow> '''' | Some ct \<Rightarrow> ct) \<and>
    (StatusCode resp = 200 \<or> (\<exists>opt \<in> set opts. ignorableStatus (StatusCode resp) = Some opt)) \<and>
    node_at f' (locate f (Join [Join [root, path], fname])) = Some (FileNode bytes) \<and>
    fileSize r = int (length bytes) \<and> (hasBuf \<longrightarrow> buf r = bytes) \<and> closes r = 1"
proof -
  from fetched_file [OF assms] obtain rc bytes where g: "getResponse w url opts = (Inr rc, contentType r, newURL r, 0)" "rc_Read rc = (bytes, None)"
    and saved: "node_at f' (locate f (Join [Join [root, path], fname])) = Some (FileNode bytes)" "fileSize r = int (length bytes)" "hasBuf \<longrightarrow> buf r = bytes"
    by blast
  from getResponse_ok [OF g(1)] obtain resp where resp: "http_do w url setHeaders = Responded resp" "wrapGzipBody w resp = Inr rc"
    "StatusCode resp = 200 \<or> (\<exists>opt \<in> set opts. ignorableStatus (StatusCode resp) = Some opt)"
    "contentType r = map_get '''' (Header resp) ''Content-Type''" by blast
  from resp(2) g(2) have "if Header resp ''Content-Encoding'' = Some ''gzip'' then gzip_new w (Body resp) = Inr (bytes, None) else Body resp = (bytes, None)"
    by (auto simp: wrapGzipBody_def split: if_splits sum.splits)
  moreover have "contentType r = (case Header resp ''Content-Type'' of None \<Rightarrow> '''' | Some ct \<Rightarrow> ct)" using resp(4) by (simp add: map_get_def)
  moreover have "closes r = 1" using Fetch_closes_body [OF assms(1)] resp(1) by (simp add: doRequest_def)
  ultimately show ?thesis using saved resp(1,3) by blast
qed

theorem Fetch_saves_body_witness:
  "\<exists>r f'. Fetch example_web sample_fs ''http://a/x.txt'' ''/srv'' ''2024-05-01'' ''12-00-00-000-AAAA.txt'' True [] = Some (r, f') \<and> buf r = ''hello'' \<and>
     (\<exists>bytes. node_at f' [''srv'', ''2024-05-01'', ''12-00-00-000-AAAA.txt''] = Some (FileNode bytes) \<and> fileSize r = int (length bytes))"
proof -
  obtain r f' where r: "Fetch example_web sample_fs ''http://a/x.txt'' ''/srv'' ''2024-05-01'' ''12-00-00-000-AAAA.txt'' True [] = Some (r, f')"
    "ferr r = None" "buf r = ''hello''"
    using example_fetch by (auto split: prod.splits)
  have l: "locate sample_fs (Join [Join [''/srv'', ''2024-05-01''], ''12-00-00-000-AAAA.txt'']) = [''srv'', ''2024-05-01'', ''12-00-00-000-AAAA.txt'']"
    by code_simp
  then show ?thesis using Fetch_saves_body [OF r(1,2)] r by (auto simp: sample_fs_def node_at_def)
qed

text \<open>
  C17: the cache serves what it stored.  After \<open>GetContent\<close> returned a body and a content
  type without error, every later call for the same URL returns the same two without error
  and without asking the network, as long as index and files stay as they are.
\<close>

theorem GetContent_served_again:
  assumes "cache_laws c table" and "canonical (cacheDir c)"
    and "\<And>call p. fault f call p = None" and "\<And>x. node_at f (parts (cacheDir c) @ [date k, x]) \<noteq> Some DeviceNode"
    and "GetContent w k c url (s, f) = Some ((b, ct, None), s1, f1)"
  shows "\<exists>s2. GetContent w' k' c url (s1, f1) = Some ((b, ct, None), s2, f1) \<and> table s2 = table s1"
  using assms(1,5)
proof (cases rule: cache_miss)
  case (hit p sz)
  then show ?thesis using cache_hit [OF assms(1), of s1 url p ct sz f b w' k'] by simp
next
  case (miss fname r sz)
  note n = generated_name [OF miss(1)]
  note paths = cache_paths [OF assms(2) date_proper [of k] n(1)]
  have "fname \<noteq> ''''" using n(1) by (auto simp: proper_name_def)
  from fetched_file [OF miss(2,3) this] paths(1,2) assms(4)
  have "node_at f1 (locate f1 (Join [cacheDir c, Join [date k, fname]])) = Some (FileNode b)" "fault f1 = fault f"
    using miss(4) by auto
  from Read_file [OF this(1) paths(4)] this(2) assms(3)
  show ?thesis using cache_hit [OF assms(1) miss(5) paths(3)] by simp
qed

theorem GetContent_served_again_witness:
  "\<exists>s1 f1. GetContent example_web example_clock example_cache ''http://a/x.txt'' ([], sample_fs) = Some ((''hello'', ''text/plain'', None), s1, f1) \<and>
     (\<exists>s2. GetContent (example_web\<lparr>http_do := \<lambda>_ _. NoRequest ''offline''\<rparr>) example_clock example_cache ''http://a/x.txt'' (s1, f1) =
        Some ((''hello'', ''text/plain'', None), s2, f1))"
proof -
  obtain r f1 where r: "Fetch example_web sample_fs ''http://a/x.txt'' ''/srv'' ''2024-05-01'' ''12-00-00-000-AAAA.txt'' True [] = Some (r, f1)"
    "ferr r = None" "buf r = ''hello''" "contentType r = ''text/plain''"
    using example_fetch by (auto split: prod.splits)
  have c: "date example_clock = ''2024-05-01''" "cacheDir example_cache = ''/srv''" by (rule example_names, code_simp)
  have "fetchURL example_web example_clock example_cache ''http://a/x.txt'' sample_fs =
      Some ((''2024-05-01/12-00-00-000-AAAA.txt'', ''hello'', ''text/plain'', fileSize r, None), f1)"
    using r empty_name c by (simp add: fetchURL_def DownloadContent_def)
  moreover have "getCacheRecord example_cache ''http://a/x.txt'' [] = (('''', ''''), [], [''getting cache record: not found''])" by code_simp
  moreover have "setCacheRecord example_cache u p t n s = (None, (u, p, t, kept_size (map_of s u) n) # s)" for u p t n s
    by (simp add: setCacheRecord_def Exec_def example_cache_def New_def example_index_def)
  ultimately have "\<exists>s1. GetContent example_web example_clock example_cache ''http://a/x.txt'' ([], sample_fs) = Some ((''hello'', ''text/plain'', None), s1, f1)"
    by (simp add: GetContent_def Let_def)
  then obtain s1 where g: "GetContent example_web example_clock example_cache ''http://a/x.txt'' ([], sample_fs) = Some ((''hello'', ''text/plain'', None), s1, f1)"
    by blast
  have "canonical (cacheDir example_cache)"
    unfolding canonical_def by (intro exI [of _ "[''srv'']"]) (simp add: example_cache_def New_def proper_name_def)
  moreover have "parts (cacheDir example_cache) = [''srv'']" by code_simp
  ultimately have "\<exists>s2. GetContent (example_web\<lparr>http_do := \<lambda>_ _. NoRequest ''offline''\<rparr>) example_clock example_cache ''http://a/x.txt'' (s1, f1) =
      Some ((''hello'', ''text/plain'', None), s2, f1) \<and> map_of s2 = map_of s1"
    by (intro GetContent_served_again [OF example_cache_laws _ _ _ g]) (auto simp: example_clock_def sample_fs_def node_at_def)
  with g show ?thesis by blast
qed

text \<open>
  C35: the retry goroutine of \<open>EnqueueDownload\<close> ends after at most seven attempts and 254
  seconds of sleep.  It never calls back when all seven time out, and otherwise calls back
  at the first attempt that does not time out, be it a success or another error.
\<close>

theorem retry_goroutine_ends:
  assumes "fname \<noteq> ''''"
  shows "\<exists>c sl f'. retry_goroutine ws 1 retryPolicy f url root path fname = Some (c, sl, f') \<and> sum_list sl \<le> 254 \<and>
    (c = None \<longleftrightarrow> (\<forall>j \<in> {1..7}. doRequest (ws j) url = Inl Timeout))"
proof -
  have len: "length retryPolicy = 7" by (simp add: retryPolicy_def)
  obtain c n f' where r: "retry_goroutine ws 1 retryPolicy f url root path fname = Some (c, take n retryPolicy, f')"
    "c = None \<longleftrightarrow> (\<forall>j < length retryPolicy. doRequest (ws (1 + j)) url = Inl Timeout)"
    using retry_result [OF assms, of ws 1 retryPolicy f url root path] by (elim exE conjE) (rule that)
  have "sum_list (take n retryPolicy) \<le> sum_list (take n retryPolicy) + sum_list (drop n retryPolicy)"
    using set_drop_subset [of n retryPolicy] by (intro le_add_same_cancel1 [THEN iffD2] sum_list_nonneg) (auto simp: retryPolicy_def)
  also have "\<dots> = 254" by (simp flip: sum_list_append) (simp add: retryPolicy_def)
  finally have "sum_list (take n retryPolicy) \<le> 254" .
  moreover have "(\<forall>j < length retryPolicy. doRequest (ws (1 + j)) url = Inl Timeout) \<longleftrightarrow> (\<forall>j \<in> {1..7}. doRequest (ws j) url = Inl Timeout)"
    using range_shift [of 7 "\<lambda>j. doRequest (ws j) url = Inl Timeout"] len by simp
  ultimately show ?thesis using r by auto
qed

theorem retry_goroutine_ends_witness:
  "\<exists>sl f'. retry_goroutine (\<lambda>_. example_web) 1 retryPolicy sample_fs ''http://b/'' ''/srv'' ''d'' ''n'' = Some (None, sl, f') \<and> sum_list sl \<le> 254"
proof -
  have "doRequest example_web ''http://b/'' = Inl Timeout" by (simp add: doRequest_def example_web_def)
  then show ?thesis
    using retry_goroutine_ends [of "''n''" "\<lambda>_. example_web" sample_fs "''http://b/''" "''/srv''" "''d''"] by auto
qed

text \<open>
  A page that is downloaded again because its file is gone keeps the size of its first
  download in the index: the statement does not set \<open>file_size\<close> on a conflict.
\<close>

lemma refreshed_size_is_stale:
  assumes "cache_laws c table" and "table s url = Some (p, ct, sz)" and "\<not> Exists f (Join [cacheDir c, p])"
    and "GetContent w k c url (s, f) = Some ((b, ct', None), s1, f1)"
  shows "\<exists>p'. table s1 url = Some (p', ct', sz)"
proof -
  obtain s' lg where g: "getCacheRecord c url s = ((p, ct), s', lg)" and t: "table s' = table s"
    using get_law [OF assms(1), of url s] assms(2) by auto
  from assms(3,4) g obtain ext' n where "setCacheRecord c url ext' ct' n s' = (None, s1)"
    by (auto simp: GetContent_def Let_def split: option.splits prod.splits)
  from set_law [OF assms(1) this] t assms(2) show ?thesis by (simp add: kept_size_def)
qed

text \<open>
  While the attempts of a delayed download go on the file is not there: another \<open>GetURL\<close> for
  the same URL starts a download of its own under a new name and puts that name in the index,
  so the path that the first call returned is no longer the one the cache knows.
\<close>

lemma pending_download_is_requested_again:
  assumes "cache_laws c table" and "table s url = Some (p, ct, sz)" and "\<not> Exists f (Join [cacheDir c, p])"
    and "GetURL w k c url (s, f) = Some ((ext, None, rt), s1, f1)"
  shows "\<exists>q rest. requestURL w k c url f = Some (q, f1) \<and> extPath q = ext \<and> table s1 url = Some (ext, rest)"
proof -
  obtain s' lg where g: "getCacheRecord c url s = ((p, ct), s', lg)" and t: "table s' = table s"
    using get_law [OF assms(1), of url s] assms(2) by auto
  from assms(3,4) g obtain q where q: "requestURL w k c url f = Some (q, f1)" "extPath q = ext"
    and st: "setCacheRecord c url ext (eContentType q) (eFileSize q) s' = (None, s1)"
    by (auto simp: GetURL_def split: option.splits prod.splits if_splits)
  from set_law [OF assms(1) st] q show ?thesis by auto
qed

end
