(* ===== verification/FactorialService.thy ===== *)
theory FactorialService
  imports HttpReply Application
begin

text \<open>
  The example service (src/examples/factorial/factorial.go), written against the interfaces
  of package \<open>app\<close>: its factory, its handler, its computation and the program around it.
  \<open>vars\<close> is \<open>mux.Vars\<close>.  Numbers of \<open>math/big\<close> are unbounded integers.
\<close>

subsection \<open>The service\<close>

record serviceConfig =
  APIRoot :: string
  CountBits :: bool

text \<open>\<open>cfg.(*serviceConfig)\<close>: the fields of a value whose dynamic type is that pointer.\<close>

fun as_serviceConfig :: "anyval \<Rightarrow> serviceConfig option" where
  "as_serviceConfig (APtr (AStruct t [(_, VString apiRoot), (_, gval.VBool b)])) =
     (if t = ''main.serviceConfig'' then Some \<lparr>APIRoot = apiRoot, CountBits = b\<rparr> else None)"
| "as_serviceConfig _ = None"

function factorial_loop :: "int \<Rightarrow> int \<Rightarrow> int \<Rightarrow> int" where
  "factorial_loop n bigNum result = (if n > 1 then factorial_loop (n - 1) (bigNum - 1) (result * bigNum) else result)"
  by pat_completeness auto
termination
  by (relation "measure (\<lambda>(n, _, _). nat n)") auto

declare factorial_loop.simps [simp del]

definition factorial :: "int \<Rightarrow> int" where
  "factorial n = factorial_loop n n 1"

fun bit_len :: "nat \<Rightarrow> nat" where
  "bit_len n = (if n = 0 then 0 else Suc (bit_len (n div 2)))"

declare bit_len.simps [simp del]

definition BitLen :: "int \<Rightarrow> int" where
  "BitLen x = int (bit_len (nat \<bar>x\<bar>))"

text \<open>\<open>json.Marshal\<close> of a map with one key and a number.\<close>

definition marshal_number :: "string \<times> int \<Rightarrow> string option" where
  "marshal_number kv = Some ([CHR ''{'', CHR 0x22] @ fst kv @ [CHR 0x22, CHR '':''] @ Itoa (snd kv) @ ''}'')"

definition factorialHandler :: "('d http_request \<Rightarrow> string \<rightharpoonup> string) \<Rightarrow> serviceConfig \<Rightarrow> ('d, 's) HandlerWithResult" where
  "factorialHandler vars c r w s = (case Atoi (map_get '''' (vars r) ''number'') of
      (_, Some e) \<Rightarrow> HReturn w s 400 (Some ''invalid number'')
    | (inumber, None) \<Rightarrow>
        let result = factorial inumber;
            reply = (if CountBits c then Object marshal_number w (''bits'', BitLen result)
                     else Object marshal_number w (''factorial'', result))
        in (case reply of
              (w', Some code) \<Rightarrow> HReturn w' s code None
            | (w', None) \<Rightarrow> HPanic PanicOther w' s))"

definition GetHandlers_factorial :: "('d http_request \<Rightarrow> string \<rightharpoonup> string) \<Rightarrow> serviceConfig \<Rightarrow> ('d, 's) HandlerDefinition list" where
  "GetHandlers_factorial vars c = [\<lparr>Endpoint = ''factorial'', HMethod = ''GET'', Path = APIRoot c @ ''/factorial/{number:[0-9]+}'',
     Func = factorialHandler vars c, SIDRequired = False\<rparr>]"

text \<open>A session of this service is nil, whatever the token.\<close>

definition GetSessionData_factorial :: "'d \<Rightarrow> string \<Rightarrow> string + 'd" where
  "GetSessionData_factorial nil sid = Inr nil"

definition FactorialServiceFactory :: "('d http_request \<Rightarrow> string \<rightharpoonup> string) \<Rightarrow> 'd \<Rightarrow> ('d, 's) ServiceFactory" where
  "FactorialServiceFactory vars nil a options = (case as_serviceConfig a of
      None \<Rightarrow> Inl ''invalid config type''
    | Some config \<Rightarrow> Inr \<lparr>GetSessionData = GetSessionData_factorial nil, GetHandlers = GetHandlers_factorial vars config\<rparr>)"

text \<open>
  \<open>Run\<close> reports that it is ready and waits for the end of the context: then it logs and
  returns nil; before that there is no result.
\<close>

definition Run :: "serviceReporter \<Rightarrow> statusReporter \<Rightarrow> bool \<Rightarrow> statusReporter \<times> (log_call list \<times> string option) option" where
  "Run rep st ctxDone = (Ready st rep, if ctxDone then Some ([LogCall ''info'' ''Service terminated'' []], None) else None)"

subsection \<open>The program\<close>

definition serviceName_factorial :: string where
  "serviceName_factorial = ''factorial''"

definition appVersion :: string where
  "appVersion = ''0.1.0''"

text \<open>The value \<open>&serviceConfig{}\<close> with the tags of its type.\<close>

definition empty_serviceConfig :: anyval where
  "empty_serviceConfig = APtr (AStruct ''main.serviceConfig''
     [(\<lparr>Name = ''APIRoot'', exported = True, Tag = [(''yaml'', ''apiRoot''), (''default'', ''/api'')]\<rparr>, VString ''''),
      (\<lparr>Name = ''CountBits'', exported = True, Tag = [(''yaml'', ''countBits''), (''default'', ''false'')]\<rparr>, gval.VBool False)])"

text \<open>\<open>main\<close>: \<open>Inl\<close> is the message with which the process ends before anything is served.\<close>

definition main :: "('d http_request \<Rightarrow> string \<rightharpoonup> string) \<Rightarrow> 'd \<Rightarrow> ('d, 'l, 'a) run_env \<Rightarrow> ('d, ('l, 'a) srv) ServiceFactory conf_env \<Rightarrow>
    (string, ('d, ('l, 'a) srv) ServiceFactory registeredService) map_order \<Rightarrow> (string + string \<times> string \<times> string) \<Rightarrow> 'a \<Rightarrow>
    (string + (('d, 'l, 'a) httpserver \<times> ('l, 'a) srv) \<times> statServer \<times> statusReporter \<times> (string \<rightharpoonup> ('d, ('l, 'a) srv) Service)) run" where
  "main vars nil env conf iter currentUser st0 = (case New_app currentUser ''factorial'' appVersion of
      Inl e \<Rightarrow> Ends (Inl e)
    | Inr (a, _) \<Rightarrow> (case RegisterService a serviceName_factorial empty_serviceConfig (FactorialServiceFactory vars nil) of
        Crashes \<Rightarrow> Crashes
      | Diverges \<Rightarrow> Diverges
      | Ends (Some e, _) \<Rightarrow> Ends (Inl (''register service: '' @ e))
      | Ends (None, a') \<Rightarrow> Run_app env conf iter None a' st0))"

subsection \<open>Facts\<close>

text \<open>The answer that a request for \<open>n\<close> should get.\<close>

definition expected_reply :: "serviceConfig \<Rightarrow> nat \<Rightarrow> string \<times> int" where
  "expected_reply c n = (if CountBits c then (''bits'', int (bit_len (fact n))) else (''factorial'', fact n))"

lemma factorial_loop_fact: "factorial_loop (int n) (int n) r = r * fact n"
proof (induction n arbitrary: r)
  case (Suc n)
  show ?case
  proof (cases n)
    case (Suc m)
    then show ?thesis using Suc.IH [of "r * int (Suc n)"]
      by (subst factorial_loop.simps) (simp add: algebra_simps)
  qed (simp add: factorial_loop.simps)
qed (simp add: factorial_loop.simps)

lemma bit_len_bounds: "0 < n \<Longrightarrow> 2 ^ (bit_len n - 1) \<le> n \<and> n < 2 ^ bit_len n"
proof (induction n rule: bit_len.induct)
  case (1 n)
  show ?case
  proof (cases "n div 2 = 0")
    case True
    then have "n = 1" using 1(2) by simp
    then show ?thesis by (simp add: bit_len.simps)
  next
    case False
    with 1 have IH: "2 ^ (bit_len (n div 2) - 1) \<le> n div 2 \<and> n div 2 < 2 ^ bit_len (n div 2)" by simp
    have b: "bit_len n = Suc (bit_len (n div 2))" using 1(2) by (subst bit_len.simps) simp
    have "bit_len (n div 2) > 0" using False by (subst bit_len.simps) simp
    then have "(2::nat) ^ (bit_len n - 1) = 2 * 2 ^ (bit_len (n div 2) - 1)" by (cases "bit_len (n div 2)") (simp_all add: b)
    moreover from this have "2 * 2 ^ (bit_len (n div 2) - 1) \<le> n" using IH by linarith
    moreover have "n < 2 * 2 ^ bit_len (n div 2)" using IH by linarith
    ultimately show ?thesis using b by simp
  qed
qed

subsection \<open>Properties\<close>

text \<open>
  The handler computes the factorial.  For every natural number that fits an
  \<open>int\<close>, the loop ends with exactly \<open>n!\<close>, and the request for it is answered with
  status 200 and that number, or with the length of its binary representation if the
  configuration asks for it.
\<close>

theorem factorialHandler_correct:
  assumes "vars r ''number'' = Some (Itoa (int n))" and "in_int64 (int n)" and "unsent w"
    and "int (length (the (marshal_number (expected_reply c n)))) \<le> max_int64"
  shows "\<exists>w'. factorialHandler vars c r w s = HReturn w' s 200 None \<and> factorial (int n) = fact n \<and>
    status w' = Some 200 \<and> body w' = the (marshal_number (expected_reply c n)) \<and>
    2 ^ (bit_len (fact n) - 1) \<le> (fact n :: nat) \<and> (fact n :: nat) < 2 ^ bit_len (fact n)"
proof -
  have f: "factorial (int n) = fact n" by (simp add: factorial_def factorial_loop_fact)
  have "nat \<bar>fact n :: int\<bar> = fact n" by (metis abs_of_nat nat_int of_nat_fact)
  then have b: "BitLen (fact n) = int (bit_len (fact n))" by (simp add: BitLen_def)
  let ?body = "marshalled marshal_number (expected_reply c n)"
  have m: "?body = the (marshal_number (expected_reply c n))" by (simp add: marshalled_def marshal_number_def)
  note rep = Reply_fresh [OF assms(3) _ _ assms(4) [folded m], of 200 "''application/json''"]
  obtain w' where w': "Object marshal_number w (expected_reply c n) = (w', Some 200)" "status w' = Some 200" "body w' = ?body"
    using rep by (cases "Reply w 200 ''application/json'' ?body") (auto simp: Object_def bodyAllowed_def)
  have "Atoi (map_get '''' (vars r) ''number'') = (int n, None)" using assms(1) Atoi_Itoa [OF assms(2)] by (simp add: map_get_def)
  then have h: "factorialHandler vars c r w s = HReturn w' s 200 None"
    using w'(1) f b by (simp add: factorialHandler_def expected_reply_def Let_def split: if_splits)
  then show ?thesis using f w' m bit_len_bounds [of "fact n"] by simp
qed

theorem factorialHandler_correct_witness:
  "\<exists>w'. factorialHandler (\<lambda>_. [''number'' \<mapsto> ''5'']) \<lparr>APIRoot = ''/api'', CountBits = False\<rparr> sample_request new_writer () = HReturn w' () 200 None \<and>
     body w' = [CHR ''{'', CHR 0x22] @ ''factorial'' @ [CHR 0x22, CHR '':''] @ ''120'' @ ''}''"
proof -
  have i: "Itoa 5 = ''5''" "Itoa 120 = ''120''" by code_simp+
  have fc: "(fact 5 :: int) = 120" by code_simp
  have m: "marshal_number (''factorial'', 120) = Some ([CHR ''{'', CHR 0x22] @ ''factorial'' @ [CHR 0x22, CHR '':''] @ ''120'' @ ''}'')"
    by (simp add: marshal_number_def i)
  show ?thesis
    using factorialHandler_correct [of "\<lambda>_. [''number'' \<mapsto> ''5'']" sample_request 5 new_writer "\<lparr>APIRoot = ''/api'', CountBits = False\<rparr>" "()"]
    by (auto simp: i fc m expected_reply_def in_int64_def max_int64_def min_int64_def)
qed

end
