(* ===== verification/EndToEnd.thy ===== *)
theory EndToEnd
  imports FactorialService
begin

text \<open>
  The components together: the example program, from \<open>main\<close> over the reading of its
  configuration (theories \<open>AppConfig\<close> and \<open>ConfigSchema\<close>), the set-up and the life of the
  process (theory \<open>Application\<close>) and the middleware chain (theory \<open>Server\<close>) to the answer of
  the handler (theory \<open>FactorialService\<close>).
\<close>

subsection \<open>From the start of the program to the answer\<close>

text \<open>
  What the code relies on of gorilla/mux: a request goes to the first route whose method is
  the request's and whose pattern matches its path.
\<close>

definition first_route :: "(string \<Rightarrow> string \<Rightarrow> bool) \<Rightarrow>
    ((string \<times> string \<times> ('d, 's) http_handler) list \<Rightarrow> ('d, 's) http_handler) \<Rightarrow> bool" where
  "first_route matches dispatch \<longleftrightarrow> (\<forall>rs r w s m p h. find (\<lambda>(m, p, _). m = Method r \<and> matches p (RequestURI r)) rs = Some (m, p, h) \<longrightarrow>
     dispatch rs r w s = h r w s)"

text \<open>The authentication that \<open>NewServer\<close> puts in the chain.\<close>

definition token_auth :: "Server.Config \<Rightarrow> ('d http_request \<Rightarrow> string option) option" where
  "token_auth c = (if Token c \<noteq> '''' then Some (Authorized (Middleware.New (Token c))) else None)"

lemma NewServer_chain:
  assumes "NewServer env mk al sentry c mc rt a = (Inr (sv, s0), ls)"
  shows "chain sv = safetyWrappers c (token_auth c) al sentry" and "router sv = rt"
  using assms by (auto simp: NewServer_def token_auth_def Let_def split: option.splits sum.splits)

lemma HandleFunc_chain: "chain (HandleFunc pf uuid el sv service endpoint m p h g) = chain sv"
  by (simp add: HandleFunc_def)

lemma cors_unsent: "unsent w \<Longrightarrow> unsent (admit_writer c w)"
proof -
  have "CanonicalHeaderKey ''Access-Control-Allow-Origin'' \<noteq> ''Content-Length''" "CanonicalHeaderKey ''Access-Control-Allow-Methods'' \<noteq> ''Content-Length''"
    "CanonicalHeaderKey ''Access-Control-Allow-Headers'' \<noteq> ''Content-Length''" "CanonicalHeaderKey ''Access-Control-Allow-Credentials'' \<noteq> ''Content-Length''"
    by code_simp+
  then show "unsent w \<Longrightarrow> unsent (admit_writer c w)"
    by (auto simp: unsent_def admit_writer_def cors_headers_def Header_Get_Set)
qed

text \<open>The server of a set-up is a new one, with the chain of its configuration.\<close>

lemma setup_server:
  assumes "Run_setup env iter a st0 = Inr ((sv, s0), ss, st, svcs)"
  shows "chain sv = safetyWrappers (HTTP (view (bucketValues env) (app_cfg a))) (token_auth (HTTP (view (bucketValues env) (app_cfg a)))) (allow env) (sentryHandler env) \<and>
    routes (router sv) = []"
proof -
  let ?c = "HTTP (view (bucketValues env) (app_cfg a))"
  let ?n = "NewServer (tls env) (mkLimiter env) (allow env) (sentryHandler env) ?c (Metrics ?c) New_router st0"
  have "fst ?n = Inr (sv, s0)"
    using assms by (auto simp: Run_setup_def NewService_def GetHandler_def Let_def split: option.splits sum.splits prod.splits)
  then have "?n = (Inr (sv, s0), snd ?n)" by (metis prod.collapse)
  from NewServer_chain [OF this] show ?thesis by (simp add: New_router_def)
qed

lemma setup_services:
  assumes "Run_setup env iter a st0 = Inr ((sv, s0), ss, st, svcs)" and "iter (serviceDefs a) = [n]" and "serviceDefs a = [n \<mapsto> \<lparr>rs_Name = n, rs_Config = v, rs_Factory = fac\<rparr>]"
  shows "\<exists>svc opts. svcs n = Some svc \<and> fac v opts = Inr svc"
  using assms by (auto simp: Run_setup_def Let_def split: option.splits sum.splits prod.splits)

text \<open>The registered service after the start: one route, with the instrumented handler.\<close>

lemma started_factorial:
  assumes "svcs ''factorial'' = Some svc" and "FactorialServiceFactory vars nil v opts = Inr svc" and "as_serviceConfig v = Some c"
    and "start_services env sv svcs [''factorial''] = Inr sv'" and "routes (router sv) = []"
  shows "chain sv' = chain sv \<and> routes (router sv') = [(''GET'', ''/'' @ TrimPrefix (APIRoot c @ ''/factorial/{number:[0-9]+}'') ''/'',
    \<lambda>r w s. instrumentationMiddleware (parseForm env) (newUUID env r s) (elapsed env r s) (factorialHandler vars c) ''factorial'' ''factorial'' None r w s)]"
  using assms by (auto simp: FactorialServiceFactory_def GetHandlers_factorial_def HandleFunc_def router_HandleFunc_def)

lemma instrumented_factorial:
  assumes "realRemoteAddr (parse r) = Inr addr" and "\<And>r'. RequestURI r' = RequestURI (parse r) \<Longrightarrow> vars r' ''number'' = Some (Itoa (int n))"
    and "in_int64 (int n)" and "unsent w" and "int (length (the (marshal_number (expected_reply c n)))) \<le> max_int64"
  shows "\<exists>w' s'. instrumentationMiddleware parse uuid el (factorialHandler vars c) service endpoint None r w s = Returned w' s' \<and>
    status w' = Some 200 \<and> body w' = the (marshal_number (expected_reply c n)) \<and>
    metrics s' = ScoreMethod service endpoint (snd el) None (metrics s) \<and> app s' = app s"
proof -
  let ?r = "(parse r)\<lparr>RemoteAddr := addr\<rparr>"
  let ?flds = "[(''method'', Method ?r), (''uri'', RequestURI ?r), (''remote'', RemoteAddr ?r), (''rid'', uuid)]"
  let ?r' = "?r\<lparr>Context := (Context ?r)\<lparr>ctx_logger := Some ?flds, ctx_requestID := Some uuid\<rparr>\<rparr>"
  let ?s = "Middleware.add_log [LogCall ''info'' ''start'' ?flds] s"
  have v: "vars ?r' ''number'' = Some (Itoa (int n))" by (rule assms(2)) simp
  from factorialHandler_correct [where s = ?s and vars = vars and r = ?r' and n = n and w = w and c = c, OF v assms(3-5)] obtain w' where
    h: "factorialHandler vars c ?r' w ?s = HReturn w' ?s 200 None" and w': "status w' = Some 200" "body w' = the (marshal_number (expected_reply c n))"
    by blast
  show ?thesis using assms(1) h w'
    by (simp add: instrumentationMiddleware_def attach_session_def Let_def) (simp add: Middleware.add_log_def)
qed

text \<open>The application of \<open>main\<close> when \<open>Run\<close> is called.\<close>

definition factorial_app :: "('d http_request \<Rightarrow> string \<rightharpoonup> string) \<Rightarrow> 'd \<Rightarrow> ('d, 's) ServiceFactory application" where
  "factorial_app vars nil = \<lparr>serviceDefs = [''factorial'' \<mapsto> \<lparr>rs_Name = ''factorial'', rs_Config = empty_serviceConfig,
     rs_Factory = FactorialServiceFactory vars nil\<rparr>], app_cfg = zero_Config, cfgPath = ''''\<rparr>"

lemma main_runs:
  assumes "main vars nil env conf iter user st0 = Ends (Inr x)"
  shows "\<exists>a. read_config conf None (factorial_app vars nil) = Ends (Inr a) \<and> Run_setup env iter a st0 = Inr x"
proof -
  have "reName_match ''factorial''" by code_simp
  then have "Run_app env conf iter None (factorial_app vars nil) st0 = Ends (Inr x)"
    using assms by (auto simp: main_def New_app_def RegisterService_def serviceName_factorial_def factorial_app_def empty_serviceConfig_def
        split: sum.splits)
  then show ?thesis by (auto simp: Run_app_def split: option.splits run.splits sum.splits)
qed

lemma read_config_registrations: "read_config conf None a = Ends (Inr a') \<Longrightarrow> registrations a' = registrations a"
  by (auto simp: read_config_def split: run.splits sum.splits dest: readConfigFile_registrations)

lemma factorial_registration:
  assumes "registrations a = registrations (factorial_app vars nil)"
  shows "\<exists>v. serviceDefs a = [''factorial'' \<mapsto> \<lparr>rs_Name = ''factorial'', rs_Config = v, rs_Factory = FactorialServiceFactory vars nil\<rparr>]"
proof -
  have r: "registrations a n = (if n = ''factorial'' then Some (''factorial'', FactorialServiceFactory vars nil) else None)" for n
    by (simp add: assms) (simp add: registrations_def factorial_app_def)
  from r [of "''factorial''"] obtain reg where reg: "serviceDefs a ''factorial'' = Some reg" "rs_Name reg = ''factorial''"
    "rs_Factory reg = FactorialServiceFactory vars nil" by (auto simp: registrations_def)
  then have "reg = \<lparr>rs_Name = ''factorial'', rs_Config = rs_Config reg, rs_Factory = FactorialServiceFactory vars nil\<rparr>" by simp
  moreover have "serviceDefs a n = None" if "n \<noteq> ''factorial''" for n using r [of n] that by (simp add: registrations_def)
  ultimately have "serviceDefs a = [''factorial'' \<mapsto> \<lparr>rs_Name = ''factorial'', rs_Config = rs_Config reg, rs_Factory = FactorialServiceFactory vars nil\<rparr>]"
    using reg(1) by (auto simp: fun_eq_iff)
  then show ?thesis by blast
qed

lemma orders_single:
  assumes "orders iter m" and "dom m = {k}"
  shows "iter m = [k]"
proof -
  have "distinct xs \<Longrightarrow> set xs = {k} \<Longrightarrow> xs = [k]" for xs by (cases xs) (auto simp: subset_singleton_iff)
  then show ?thesis using assms by (simp add: orders_def)
qed

text \<open>
  C3: the library does what it is for.  When the example program has read its
  configuration and set itself up, and its process has come to the phase in which it
  reports ready - whatever happened in between -, its server answers an admitted request
  for the factorial of \<open>n\<close> through the whole chain - gates, panic logger, router,
  instrumentation, handler - with status 200 and exactly the number \<open>n!\<close> (or the length
  of its binary form), and scores one call of the endpoint without error.
\<close>

theorem factorial_served_end_to_end:
  assumes main: "main vars nil env conf iter user st0 = Ends (Inr ((sv, s0), ss, st, svcs))"
    and conf: "read_config conf None (factorial_app vars nil) = Ends (Inr a)" and iter: "orders iter (serviceDefs a)"
    and c: "serviceDefs a ''factorial'' = Some reg" "as_serviceConfig (rs_Config reg) = Some c"
    and http: "http = HTTP (view (bucketValues env) (app_cfg a))"
    and life: "(runEverything env svcs ss delay)\<^sup>*\<^sup>* (life_start sv st [''factorial'']) l" and phase: "life_phase l = Serving"
    and route: "first_route matches dispatch" and sentry: "transparent (sentryHandler env)"
    and get: "Method r = ''GET''" and path: "matches (''/'' @ TrimPrefix (APIRoot c @ ''/factorial/{number:[0-9]+}'') ''/'') (RequestURI r)"
    and adm: "admission http (token_auth http) (allow env) r s = None"
    and addr: "realRemoteAddr (parseForm env r) = Inr addr" and uri: "RequestURI (parseForm env r) = RequestURI r"
    and vars: "\<And>r'. RequestURI r' = RequestURI r \<Longrightarrow> vars r' ''number'' = Some (Itoa (int n))"
    and n: "in_int64 (int n)" "int (length (the (marshal_number (expected_reply c n)))) \<le> max_int64"
  shows "\<exists>w' s'. serve_request dispatch (life_server l) r new_writer s = Returned w' s' \<and> status w' = Some 200 \<and>
    body w' = the (marshal_number (expected_reply c n)) \<and> app s' = app s \<and>
    metrics s' = ScoreMethod ''factorial'' ''factorial'' (snd (elapsed env r (take_token (allow env) s))) None (metrics s)"
proof -
  let ?s = "take_token (allow env) s" and ?w = "admit_writer http new_writer"
  have run: "Run_setup env iter a st0 = Inr ((sv, s0), ss, st, svcs)" using main_runs [OF main] conf by auto
  obtain v where defs: "serviceDefs a = [''factorial'' \<mapsto> \<lparr>rs_Name = ''factorial'', rs_Config = v, rs_Factory = FactorialServiceFactory vars nil\<rparr>]"
    using factorial_registration [OF read_config_registrations [OF conf]] by blast
  have one: "iter (serviceDefs a) = [''factorial'']" by (rule orders_single [OF iter]) (simp add: defs)
  obtain svc opts where svc: "svcs ''factorial'' = Some svc" "FactorialServiceFactory vars nil v opts = Inr svc"
    using setup_services [OF run one defs] by blast
  have v: "as_serviceConfig v = Some c" using c defs by auto
  have "serviceReady st ''app'' = Some False" using setup_result(2,3) [OF run iter] by simp
  then have "start_services env sv svcs [''factorial''] = Inr (life_server l)"
    using life_inv_reachable [OF life] phase by (simp add: life_inv_def del: start_services.simps)
  note set = setup_server [OF run] and start = started_factorial [OF svc v this setup_server [OF run, THEN conjunct2]]
  let ?h = "\<lambda>r w s. instrumentationMiddleware (parseForm env) (newUUID env r s) (elapsed env r s) (factorialHandler vars c) ''factorial'' ''factorial'' None r w s"
  have "ServeHTTP dispatch (router (life_server l)) r ?w ?s = ?h r ?w ?s"
    using route get path start by (simp add: ServeHTTP_def first_route_def)
  moreover from instrumented_factorial [where parse = "parseForm env" and r = r and w = ?w and s = ?s and uuid = "newUUID env r ?s"
      and el = "elapsed env r ?s" and service = "''factorial''" and endpoint = "''factorial''" and vars = vars and c = c and n = n,
      OF addr _ n(1) cors_unsent [OF unsent_new] n(2)]
  obtain w' s' where "?h r ?w ?s = Returned w' s'" "status w' = Some 200" "body w' = the (marshal_number (expected_reply c n))"
    "metrics s' = ScoreMethod ''factorial'' ''factorial'' (snd (elapsed env r ?s)) None (metrics s)" "app s' = app s"
    using uri vars by auto
  moreover have "\<not> preflight http r" using get by (simp add: preflight_def)
  ultimately show ?thesis
    using chain_admitted [OF _ adm sentry] start set by (simp add: serve_request_def panicLoggerMiddleware_def http)
qed

subsection \<open>The program on an example\<close>

definition example_vars :: "unit http_request \<Rightarrow> string \<rightharpoonup> string" where
  "example_vars r = [''number'' \<mapsto> drop 15 (RequestURI r)]"

definition example_request :: "unit http_request" where
  "example_request = sample_request\<lparr>RequestURI := ''/api/factorial/5''\<rparr>"

definition example_dispatch :: "(string \<times> string \<times> ('d, 's) http_handler) list \<Rightarrow> ('d, 's) http_handler" where
  "example_dispatch rs r w s = (case find (\<lambda>(m, p, _). m = Method r \<and> HasPrefix (RequestURI r) (takeWhile (\<lambda>ch. ch \<noteq> CHR ''{'') p)) rs of
      None \<Rightarrow> Returned (http_Error w ''404 page not found'' 404) s
    | Some (_, _, h) \<Rightarrow> h r w s)"

text \<open>A configuration file with the one required parameter.\<close>

definition example_conf :: "(unit, (unit, nat) srv) ServiceFactory conf_env" where
  "example_conf = \<lparr>parseYAML = config_yaml, decode = namespace_decode, parseFloat = config_floats, fracNs = (\<lambda>_ _ _. 0), getenv = (\<lambda>_. ''''),
     getwd = Inr ''/srv'', disk = \<lparr>nodes = [([''srv''], DirNode), ([''srv'', ''c''], FileNode config_text)], cwd = ''/srv'', home = None, fault = (\<lambda>_ _. None)\<rparr>,
     arg0 = ''factorial'', config_file = ''/srv/c'', print_config = '''', decode_order = (\<lambda>_. [''factorial'']), default_order = (\<lambda>_. [''factorial'']),
     print_order = (\<lambda>_. [''factorial''])\<rparr>"

definition default_serviceConfig :: anyval where
  "default_serviceConfig = APtr (AStruct ''main.serviceConfig''
     [(\<lparr>Name = ''APIRoot'', exported = True, Tag = [(''yaml'', ''apiRoot''), (''default'', ''/api'')]\<rparr>, VString ''/api''),
      (\<lparr>Name = ''CountBits'', exported = True, Tag = [(''yaml'', ''countBits''), (''default'', ''false'')]\<rparr>, gval.VBool False)])"

lemma example_service_defaults: "defaults_any config_floats fr empty_serviceConfig = Ends (None, default_serviceConfig)"
  by (simp add: defaults_any_def empty_serviceConfig_def default_serviceConfig_def DefaultsAndRequired_def defsAndReqs.simps(2) set_default_eq
      missing_def filled_def Lookup_def ParseBool_def)

lemma example_reads:
  "\<exists>a. read_config example_conf None (factorial_app example_vars ()) = Ends (Inr a) \<and>
     serviceDefs a = [''factorial'' \<mapsto> \<lparr>rs_Name = ''factorial'', rs_Config = default_serviceConfig, rs_Factory = FactorialServiceFactory example_vars ()\<rparr>] \<and>
     view [] (app_cfg a) = with_defaults (view [] (APtr (AStruct ''app.Config'' (named_fields ''demo''))))"
proof -
  have "Read (disk example_conf) ''/srv/c'' = Inr config_text" "Abs_path ''/srv'' ''/srv/c'' = ''/srv/c''"
    by (simp add: example_conf_def config_text_def, code_simp) code_simp
  moreover have "find_var config_text = None" by code_simp
  then have "ParseEnvVars (\<lambda>_. '''') config_text = Some config_text" by (subst ParseEnvVars.simps) simp
  moreover obtain gs where d: "defaults_any config_floats (\<lambda>_ _ _. 0) (APtr (AStruct ''app.Config'' (named_fields ''demo''))) =
      Ends (None, APtr (AStruct ''app.Config'' gs))" using config_reads by blast
  ultimately show ?thesis
    using defaults_any_view(1) [OF d named_shape]
    by (simp add: read_config_def readConfigFile_def readConfigData_def example_conf_def config_yaml_def namespace_decode_def factorial_app_def
        example_service_defaults set_service_config_def config_floats_def Let_def)
qed

lemma example_route: "first_route (\<lambda>p u. HasPrefix u (takeWhile (\<lambda>ch. ch \<noteq> CHR ''{'') p)) example_dispatch"
  by (simp add: first_route_def example_dispatch_def)

text \<open>The example program starts and comes to the phase in which it serves.\<close>

lemma example_starts:
  "\<exists>sv s0 ss st svcs l. main example_vars () sample_run_env example_conf (\<lambda>_. [''factorial'']) (Inr (''u'', ''1'', ''1'')) 7 = Ends (Inr ((sv, s0), ss, st, svcs)) \<and>
     Count (watcher s0) = 0 \<and> (runEverything sample_run_env svcs ss 0)\<^sup>*\<^sup>* (life_start sv st [''factorial'']) l \<and> life_phase l = Serving"
proof -
  obtain a where a: "read_config example_conf None (factorial_app example_vars ()) = Ends (Inr a)"
    "serviceDefs a = [''factorial'' \<mapsto> \<lparr>rs_Name = ''factorial'', rs_Config = default_serviceConfig, rs_Factory = FactorialServiceFactory example_vars ()\<rparr>]"
    and v: "view [] (app_cfg a) = with_defaults (view [] (APtr (AStruct ''app.Config'' (named_fields ''demo''))))" using example_reads by blast
  have c: "as_serviceConfig default_serviceConfig = Some \<lparr>APIRoot = ''/api'', CountBits = False\<rparr>" by (simp add: default_serviceConfig_def)
  obtain sv s0 ss st svcs where run: "Run_setup sample_run_env (\<lambda>_. [''factorial'']) a 7 = Inr ((sv, s0), ss, st, svcs)" and s0: "Count (watcher s0) = 0"
    by (simp add: Run_setup_def sample_run_env_def v view_named view_zero with_defaults_def NewServer_def Validate_def InitListener_def newListener_def
        sample_env_def GetServiceReporter_def New_status_def NewRegistry_def Utilities.Get_def Logger.New_def NewService_def Handler_metrics_def
        GetHandler_def FactorialServiceFactory_def a(2) c Let_def Count_def NewConnectionWatcher_def)
  obtain svc opts where svc: "svcs ''factorial'' = Some svc" "FactorialServiceFactory example_vars () default_serviceConfig opts = Inr svc"
    using setup_services [OF run _ a(2)] by auto
  then obtain sv' where add: "addHandlers sample_run_env sv ''factorial'' (GetHandlers svc) (Some (GetSessionData svc)) = Inr sv'"
    by (auto simp: FactorialServiceFactory_def c GetHandlers_factorial_def)
  let ?R = "runEverything sample_run_env svcs ss 0" and ?s = "life_start sv st [''factorial'']"
  let ?l1 = "?s\<lparr>running := insert (GService ''factorial'') (running ?s), to_start := [], life_server := sv'\<rparr>"
  have "?R ?s ?l1" by (rule runEverything.service_starts [where svc = svc]) (simp_all add: life_start_def svc add)
  moreover have "\<exists>l. ?R ?l1 l \<and> life_phase l = Serving"
    by (rule exI, rule conjI, rule runEverything.announced) (simp_all add: life_start_def)
  ultimately have "\<exists>l. ?R\<^sup>*\<^sup>* ?s l \<and> life_phase l = Serving" by (meson rtranclp.rtrancl_into_rtrancl rtranclp.rtrancl_refl)
  moreover have "reName_match ''factorial''" by code_simp
  then have "main example_vars () sample_run_env example_conf (\<lambda>_. [''factorial'']) (Inr (''u'', ''1'', ''1'')) 7 = Ends (Inr ((sv, s0), ss, st, svcs))"
    using a(1) run by (simp add: main_def New_app_def RegisterService_def serviceName_factorial_def empty_serviceConfig_def Run_app_def factorial_app_def
        sample_run_env_def)
  ultimately show ?thesis using s0 by blast
qed

theorem factorial_served_end_to_end_witness:
  "\<exists>sv s0 ss st svcs l w' s'.
     main example_vars () sample_run_env example_conf (\<lambda>_. [''factorial'']) (Inr (''u'', ''1'', ''1'')) 7 = Ends (Inr ((sv, s0), ss, st, svcs)) \<and>
     (runEverything sample_run_env svcs ss 0)\<^sup>*\<^sup>* (life_start sv st [''factorial'']) l \<and>
     serve_request example_dispatch (life_server l) example_request new_writer s0 = Returned w' s' \<and> status w' = Some 200 \<and>
     body w' = [CHR ''{'', CHR 0x22] @ ''factorial'' @ [CHR 0x22, CHR '':''] @ ''120'' @ ''}''"
proof -
  let ?c = "\<lparr>APIRoot = ''/api'', CountBits = False\<rparr>" and ?e = sample_run_env
  obtain a where a: "read_config example_conf None (factorial_app example_vars ()) = Ends (Inr a)"
    "serviceDefs a = [''factorial'' \<mapsto> \<lparr>rs_Name = ''factorial'', rs_Config = default_serviceConfig, rs_Factory = FactorialServiceFactory example_vars ()\<rparr>]"
    and v: "view [] (app_cfg a) = with_defaults (view [] (APtr (AStruct ''app.Config'' (named_fields ''demo''))))" using example_reads by blast
  obtain sv s0 ss st svcs l where run: "main example_vars () ?e example_conf (\<lambda>_. [''factorial'']) (Inr (''u'', ''1'', ''1'')) 7 = Ends (Inr ((sv, s0), ss, st, svcs))"
    and s0: "Count (watcher s0) = 0" and l: "(runEverything ?e svcs ss 0)\<^sup>*\<^sup>* (life_start sv st [''factorial'']) l" "life_phase l = Serving"
    using example_starts by blast
  let ?http = "HTTP (view (bucketValues ?e) (app_cfg a))"
  have "admission ?http (token_auth ?http) (allow ?e) example_request s0 = None"
    using s0 by (simp add: sample_run_env_def v view_named view_zero with_defaults_def orelse_def admission_def conn_reject_def rate_reject_def
        auth_reject_def token_auth_def)
  moreover have "orders (\<lambda>_. [''factorial'']) (serviceDefs a)" by (simp add: a(2) orders_def)
  moreover have "as_serviceConfig default_serviceConfig = Some ?c" by (simp add: default_serviceConfig_def)
  moreover have "realRemoteAddr (parseForm ?e example_request) = Inr ''1.2.3.4''" "RequestURI (parseForm ?e example_request) = RequestURI example_request"
    "Method example_request = ''GET''" "RequestURI example_request = ''/api/factorial/5''"
    by (simp_all add: sample_run_env_def example_request_def sample_request_def realRemoteAddr_def Let_def)
  moreover have i: "Itoa 5 = ''5''" "Itoa 120 = ''120''" and fc: "(fact 5 :: int) = 120" by code_simp+
  moreover have rep: "the (marshal_number (expected_reply ?c 5)) = [CHR ''{'', CHR 0x22] @ ''factorial'' @ [CHR 0x22, CHR '':''] @ ''120'' @ ''}''"
    by (simp add: expected_reply_def marshal_number_def i fc)
  ultimately have "\<exists>w' s'. serve_request example_dispatch (life_server l) example_request new_writer s0 = Returned w' s' \<and> status w' = Some 200 \<and>
      body w' = the (marshal_number (expected_reply ?c 5)) \<and> app s' = app s0 \<and>
      metrics s' = ScoreMethod ''factorial'' ''factorial'' (snd (elapsed ?e example_request (take_token (allow ?e) s0))) None (metrics s0)"
    by (intro factorial_served_end_to_end [OF run a(1) _ _ _ refl l example_route, where n = 5 and addr = "''1.2.3.4''"
          and reg = "\<lparr>rs_Name = ''factorial'', rs_Config = default_serviceConfig, rs_Factory = FactorialServiceFactory example_vars ()\<rparr>"])
      (simp_all add: a(2) transparent_id sample_run_env_def example_vars_def HasPrefix_def TrimPrefix_def in_int64_def max_int64_def min_int64_def)
  then show ?thesis using run l(1) unfolding rep by blast
qed

end
