(* ===== verification/Sessions.thy ===== *)
theory Sessions
  imports Containers
begin

text \<open>
  Several callers of \<open>containermanager\<close> at once.  Each critical section of the registry
  (src/containermanager/containers.go) is one step; between them other callers may do
  theirs.  A caller is in a session with a container from the moment its \<open>Execute\<close> marks
  it busy until the teardown marks it idle, or until \<open>Execute\<close> fails.
\<close>

type_synonym sessions = "(nat \<times> string) set"

text \<open>
  \<open>careful\<close> says whether \<open>StopContainer\<close> is called only for containers that are in no
  session; the library leaves that to its clients.  Docker never gives an identifier twice,
  so a container is registered only while no session knows it.  Calls of Docker between
  the critical sections, log entries and response bodies leave the registry alone.
\<close>

inductive registry_step :: "bool \<Rightarrow> 'k manager \<times> sessions \<Rightarrow> 'k manager \<times> sessions \<Rightarrow> bool" for careful where
  register: "\<lbrakk>containers cm cid = None; \<forall>p. (p, cid) \<notin> S\<rbrakk> \<Longrightarrow> registry_step careful (cm, S) (registerContainer cm cid, S)"
| acquire: "setBusy cm cid = (None, cm') \<Longrightarrow> registry_step careful (cm, S) (cm', insert (p, cid) S)"
| refused: "setBusy cm cid = (Some e, cm') \<Longrightarrow> registry_step careful (cm, S) (cm', S)"
| torn_down: "(p, cid) \<in> S \<Longrightarrow> registry_step careful (cm, S) (setIdle cm cid, S - {(p, cid)})"
| failed: "(p, cid) \<in> S \<Longrightarrow> registry_step careful (cm, S) (cm, S - {(p, cid)})"
| gone: "(p, cid) \<in> S \<Longrightarrow> registry_step careful (cm, S) (unregisterContainer cm cid, S - {(p, cid)})"
| stopped: "careful \<longrightarrow> (\<forall>p. (p, cid) \<notin> S) \<Longrightarrow> registry_step careful (cm, S) (unregisterContainer cm cid, S)"
| docker: "containers cm' = containers cm \<Longrightarrow> registry_step careful (cm, S) (cm', S)"

inductive_cases registry_stepE: "registry_step careful c c'"

definition exclusive :: "'k manager \<times> sessions \<Rightarrow> bool" where
  "exclusive c \<longleftrightarrow> (\<forall>p cid. (p, cid) \<in> snd c \<longrightarrow> containers (fst c) cid = Some ContainerBusy \<and> (\<forall>q. (q, cid) \<in> snd c \<longrightarrow> q = p))"

lemma exclusiveD:
  assumes "exclusive (cm, S)" and "(p, cid) \<in> S"
  shows "containers cm cid = Some ContainerBusy" and "(q, cid) \<in> S \<Longrightarrow> q = p"
  using assms by (auto simp: exclusive_def)

text \<open>Ending the only session of a container allows any change of its entry.\<close>

lemma exclusive_end:
  assumes "exclusive (cm, S)" and "(p, cid) \<in> S" and "\<And>k. k \<noteq> cid \<Longrightarrow> containers cm' k = containers cm k"
  shows "exclusive (cm', S - {(p, cid)})"
proof -
  have "containers cm' k = Some ContainerBusy \<and> (\<forall>q'. (q', k) \<in> S \<longrightarrow> q' = q)" if "(q, k) \<in> S - {(p, cid)}" for q k
  proof -
    have "k \<noteq> cid" using that exclusiveD(2) [OF assms(1,2)] by auto
    then show ?thesis using that assms(3) exclusiveD [OF assms(1), of q k] by auto
  qed
  then show ?thesis by (auto simp: exclusive_def)
qed

lemma registry_step_exclusive:
  assumes "registry_step True c c'" and "exclusive c"
  shows "exclusive c'"
  using assms
proof (induction rule: registry_step.induct)
  case (register cm cid S)
  then show ?case by (auto simp: exclusive_def registerContainer_def)
next
  case (acquire cm cid cm' S p)
  have free: "containers cm cid \<noteq> Some ContainerBusy" and cm': "cm' = cm\<lparr>containers := (containers cm)(cid \<mapsto> ContainerBusy)\<rparr>"
    using acquire.hyps by (auto simp: setBusy_cases split: if_splits)
  then have "(q, cid) \<notin> S" for q using acquire.prems exclusiveD(1) by blast
  then show ?case using acquire.prems cm' by (auto simp: exclusive_def)
next
  case (refused cm cid e cm' S)
  then show ?case by (auto simp: setBusy_cases split: if_splits)
next
  case (torn_down p cid S cm)
  then show ?case by (auto simp: setIdle_def intro!: exclusive_end [where cm = cm])
next
  case (failed p cid S cm)
  then show ?case by (auto intro: exclusive_end [where cm = cm])
next
  case (gone p cid S cm)
  then show ?case by (auto simp: unregisterContainer_def intro!: exclusive_end [where cm = cm])
next
  case (stopped cid S cm)
  then show ?case by (auto simp: exclusive_def unregisterContainer_def)
next
  case (docker cm' cm S)
  then show ?case by (simp add: exclusive_def)
qed

lemma registry_steps_exclusive:
  "(registry_step True)\<^sup>*\<^sup>* c c' \<Longrightarrow> exclusive c \<Longrightarrow> exclusive c'"
  by (induction rule: rtranclp_induct) (auto intro: registry_step_exclusive)

subsection \<open>The operations as steps\<close>

text \<open>The operations of the manager, run without interruption, are sequences of these steps.\<close>

lemma same_registry: "containers cm' = containers cm \<Longrightarrow> (registry_step careful)\<^sup>*\<^sup>* (cm, S) (cm', S)"
  using registry_step.docker by (rule r_into_rtranclp)

lemma step_then_docker:
  "registry_step careful (cm, S) (cm1, S1) \<Longrightarrow> containers cm' = containers cm1 \<Longrightarrow> (registry_step careful)\<^sup>*\<^sup>* (cm, S) (cm', S1)"
  using same_registry by (metis converse_rtranclp_into_rtranclp)

lemma Execute_steps:
  assumes "Execute d cm cid cmds pipe l sch = Some (out, cm')" and "(p, cid) \<notin> S"
  shows "\<exists>S'. (registry_step careful)\<^sup>*\<^sup>* (cm, S) (cm', S') \<and> (S' = S \<or> S' = insert (p, cid) S)"
proof -
  consider (same) "cm' = cm" | (run) "StdOut_set pipe" "containers cm cid \<noteq> Some ContainerBusy"
    using assms(1) Execute_refused [of cm cid pipe d cmds l sch]
    by (cases "StdOut_set pipe"; cases "containers cm cid = Some ContainerBusy") (auto simp: Execute_def)
  then show ?thesis
  proof cases
    case same
    then show ?thesis by blast
  next
    case run
    let ?cm1 = "cm\<lparr>containers := (containers cm)(cid \<mapsto> ContainerBusy)\<rparr>"
    have acq: "registry_step careful (cm, S) (?cm1, insert (p, cid) S)"
      using run(2) by (intro registry_step.acquire) (simp add: setBusy_cases)
    have "registry_step careful (?cm1, insert (p, cid) S) (unregisterContainer ?cm1 cid, insert (p, cid) S - {(p, cid)})"
      by (rule registry_step.gone) simp
    then have gone: "registry_step careful (?cm1, insert (p, cid) S) (unregisterContainer ?cm1 cid, S)" using assms(2) by simp
    from Execute_registry [OF assms(1) run] show ?thesis
    proof
      assume "containers cm' = (containers cm)(cid \<mapsto> ContainerBusy)"
      then show ?thesis using step_then_docker [OF acq] by auto
    next
      assume "containers cm' = (containers cm)(cid := None) \<and> (\<exists>m. res out = ExecReturned 0 (Some (''container does not exist: '' @ m)))"
      then have "containers cm' = containers (unregisterContainer ?cm1 cid)" by simp
      from converse_rtranclp_into_rtranclp [of "registry_step careful", OF acq step_then_docker [OF gone this]] show ?thesis by blast
    qed
  qed
qed

lemma teardown_steps:
  assumes "teardown d cm cid = Some cm'" and "(p, cid) \<in> S"
  shows "(registry_step careful)\<^sup>*\<^sup>* (cm, S) (cm', S - {(p, cid)})"
proof -
  from assms(1) obtain cm1 where k: "killAll d cm cid = Some cm1" "cm' = setIdle cm1 cid"
    by (auto simp: teardown_def split: option.splits)
  from killAll_frame [OF k(1)] have "containers cm' = containers (setIdle cm cid)" by (simp add: k(2) setIdle_def)
  then show ?thesis using step_then_docker [OF registry_step.torn_down [OF assms(2)]] by blast
qed

lemma StopContainer_steps:
  assumes "\<forall>p. (p, cid) \<notin> S"
  shows "(registry_step careful)\<^sup>*\<^sup>* (cm, S) (StopContainer d cm cid force, S)"
proof -
  have "containers (StopContainer d cm cid force) \<in> {containers cm, containers (unregisterContainer cm cid)}"
    by (simp add: StopContainer_def split: option.splits prod.splits)
  then consider (same) "containers (StopContainer d cm cid force) = containers cm"
    | (gone) "containers (StopContainer d cm cid force) = containers (unregisterContainer cm cid)" by blast
  then show ?thesis
    using same_registry step_then_docker [OF registry_step.stopped [of careful cid S cm]] assms by cases blast+
qed

subsection \<open>Properties\<close>

text \<open>
  C14: a container runs one program at a time.  However the callers interleave, as long as
  no container is stopped during a session, at most one caller is in a session with a
  container, and while it is, every other \<open>Execute\<close> on it is refused, without a call of
  Docker and without changing anything.
\<close>

theorem sessions_are_exclusive:
  assumes "(registry_step True)\<^sup>*\<^sup>* (cm0, {}) (cm, S)" and "(p, cid) \<in> S" and "StdOut_set pipe"
  shows "(\<forall>q. (q, cid) \<in> S \<longrightarrow> q = p) \<and> Execute d cm cid cmds pipe l sch =
    Some (failed_exec (''create executor: '' @ ErrContainerBusy), cm)"
proof -
  have "exclusive (cm, S)" using registry_steps_exclusive [OF assms(1)] by (simp add: exclusive_def)
  from exclusiveD [OF this assms(2)] show ?thesis using Execute_refused [OF _ assms(3)] by auto
qed

definition two_callers :: "nat manager" where
  "two_callers = registerContainer idle_manager ''x''"

theorem sessions_are_exclusive_witness:
  "Execute sample_docker (snd (setBusy two_callers ''x'')) ''x'' [] sample_pipe sample_limits (sample_schedule []) =
    Some (failed_exec (''create executor: '' @ ErrContainerBusy), snd (setBusy two_callers ''x''))"
proof -
  let ?cm = "snd (setBusy two_callers ''x'')"
  have "setBusy two_callers ''x'' = (None, ?cm)"
    by (simp add: two_callers_def registerContainer_def setBusy_cases)
  then have "registry_step True (two_callers, {}) (?cm, insert (1, ''x'') {})" by (rule registry_step.acquire)
  then have "(registry_step True)\<^sup>*\<^sup>* (two_callers, {}) (?cm, {(1, ''x'')})" by blast
  from sessions_are_exclusive [OF this, of 1 "''x''" sample_pipe] show ?thesis by (simp add: sample_pipe_def)
qed

text \<open>
  A container that is stopped during a session is forgotten, and \<open>setBusy\<close> then treats its
  identifier as a new idle one: two callers are in a session with the same container.
\<close>

lemma stop_breaks_exclusion:
  "\<exists>cm. (registry_step False)\<^sup>*\<^sup>* (two_callers, {}) (cm, {(1, ''x''), (2, ''x'')})"
proof -
  let ?cm1 = "snd (setBusy two_callers ''x'')"
  let ?cm2 = "unregisterContainer ?cm1 ''x''"
  have b: "setBusy two_callers ''x'' = (None, ?cm1)" "setBusy ?cm2 ''x'' = (None, snd (setBusy ?cm2 ''x''))"
    by (simp_all add: two_callers_def registerContainer_def unregisterContainer_def setBusy_cases)
  have "registry_step False (two_callers, {}) (?cm1, {(1, ''x'')})" using b(1) by (rule registry_step.acquire)
  moreover have "registry_step False (?cm1, {(1, ''x'')}) (?cm2, {(1, ''x'')})" by (rule registry_step.stopped) simp
  moreover have "registry_step False (?cm2, {(1, ''x'')}) (snd (setBusy ?cm2 ''x''), insert (2, ''x'') {(1, ''x'')})"
    using b(2) by (rule registry_step.acquire)
  ultimately have "(registry_step False)\<^sup>*\<^sup>* (two_callers, {}) (snd (setBusy ?cm2 ''x''), insert (2, ''x'') {(1, ''x'')})"
    by (meson converse_rtranclp_into_rtranclp r_into_rtranclp)
  then show ?thesis by (auto simp: insert_commute)
qed

end
