(* ===== verification/Spec2Isabelle.thy ===== *)
theory Spec2Isabelle
  imports LimitMap Memcache Retry HttpReply Connections Middleware Server Health Logger RequestLog Files Conftool AppConfig ConfigSchema
    Application Streams Containers Bot Dbase Downloads FactorialService Utilities EndToEnd Sessions
begin

text \<open>
  A verification of goblocks (src/), a Go library of building blocks for services: an
  application frame with configuration, status and HTTP servers, and packages for logging,
  caching, retrying, limiting, containers, databases, downloads and messages.

  \<^bold>\<open>The program and its parts.\<close>  \<open>app\<close> (src/app) reads the configuration with \<open>conftool\<close>,
  creates the registered services, registers their handlers at the HTTP server
  (src/httpserver, src/gorillarouter) and runs everything in goroutines under one context.
  The HTTP server wraps the router in a chain of middlewares - CORS, connection limit
  (fed by the connection watcher), rate limit, token authentication (src/apiauth), Sentry,
  panic logger - and each handler in an instrumentation that logs and scores it.  Services
  report their state to \<open>appstatus\<close>, which \<open>statserver\<close> serves to probes.  The remaining
  packages are used by services: \<open>log\<close>, \<open>httpreply\<close>, \<open>memcache\<close>, \<open>dbcache\<close> with \<open>www\<close> and
  \<open>dbase\<close>, \<open>containermanager\<close>, \<open>telegram\<close>, \<open>limitmap\<close>, \<open>retry\<close>, \<open>conncount\<close>, \<open>file\<close>, \<open>str\<close>,
  \<open>mailer\<close>, \<open>clock\<close>, \<open>metrics\<close> and \<open>sentry\<close>.

  \<^bold>\<open>How the code is modelled.\<close>  A struct is a record, an enumeration a datatype, an
  operation a function from the old state to the results and the new state; definitions
  keep the names of the source.  Errors are values of an option or a sum, and a panic, a
  blocked goroutine or a process exit is a value of its own.  Operations under a mutex are
  atomic, so concurrent callers are a list of operations; where the code has no mutex, a
  method is the list of its atomic operations, which those of other goroutines interleave
  (\<open>Connections.pool_step\<close>).  Goroutines that matter are a step relation
  (\<open>Application.runEverything\<close>, \<open>Sessions.registry_step\<close>) or a list of tasks (\<open>Containers\<close>).  Signed
  integers are wrapped explicitly where they can leave 64 bits; unsigned counters of
  containers are words.  Time, randomness and the order of a Go map are arguments.  Code
  outside the repository - the Docker client, pgx and PostgreSQL, zap, gorilla/mux, the
  Sentry and Prometheus clients, the rate limiter, TLS, the HTTP client, gzip, SHA-1 - is
  an argument as well; what a theorem needs of it is a named hypothesis
  (\<open>transparent\<close>, \<open>first_route\<close>, \<open>keeps_shape\<close>, \<open>migration_laws\<close>, \<open>commits\<close>,
  \<open>cache_laws\<close>), and each such theorem has a witness in which that argument is a concrete function.

  \<^bold>\<open>Theories.\<close>
  \<^item> \<open>Prelude\<close>: 64-bit arithmetic, Go map reads and orders, histories of operations.
    \<open>GoStrings\<close>: \<open>strings\<close> and \<open>strconv\<close>.  \<open>GoTime\<close>: the printing of durations, the
    calendar and the layouts of \<open>time\<close> that the code uses, with the order of the stamps.
    \<open>Http\<close>: requests, headers and the response writer of \<open>net/http\<close>.
  \<^item> \<open>LimitMap\<close> (src/limitmap): locale \<open>limiter\<close>, interpreted on the map; every history
    refines bounded counters.
  \<^item> \<open>Memcache\<close> (src/cache/memcache): the accounting invariant of \<open>Set\<close> and \<open>Get\<close>, the
    outcome of \<open>Set\<close>, and the leaks of \<open>Del\<close> and \<open>Cleanup\<close>.
  \<^item> \<open>Retry\<close> (src/retry): which calls are made and how long is slept between them.
  \<^item> \<open>Connections\<close> (src/conncount, src/httpserver/connection\_watcher.go): the
    interleaved calls of all connections; locale \<open>conn_counter\<close>, whose counter follows the
    phases of the connections up to the operations still to be done, and its extension
    \<open>open_counter\<close>, both interpreted on the watcher and on the transport; the races of the
    gauge and of the callback.
  \<^item> \<open>HttpReply\<close> (src/httpreply); \<open>Middleware\<close> (src/httpserver/middleware.go, metrics.go,
    src/apiauth): locale \<open>gate\<close>, interpreted on the three gates; \<open>Server\<close>
    (src/httpserver, src/gorillarouter): the chain, its admission, tokens, listeners.
  \<^item> \<open>Health\<close> (src/appstatus, src/statserver): locale \<open>status_source\<close>; the answers to
    probes after any history of reports.
  \<^item> \<open>Logger\<close> (src/log): one line per flush, time stamps that sort; \<open>RequestLog\<close>: the calls
    of the instrumentation played on the logger, one line per request.
  \<^item> \<open>Files\<close> (src/file, src/str, with \<open>os\<close> and \<open>path/filepath\<close>): paths, copies, names.
  \<^item> \<open>Conftool\<close> (src/conftool): environment variables, defaults and required fields; \<open>AppConfig\<close> (src/app/config\_reader.go and the
    registration): complete configurations; \<open>ConfigSchema\<close> (src/app/config.go,
    src/httpserver/config.go): the application's own configuration with its tags, and
    what it is after reading.
  \<^item> \<open>Application\<close> (src/app/app.go): set-up from the components above, handlers, and the
    start, life and end of the process as a step relation with an invariant and an order
    on its phases, in which a signal that comes before \<open>signal.Notify\<close> kills the process
    and a panic of a service crashes it; readiness is reported only with all handlers
    registered, and a cancelled application ends within five steps after its services.
  \<^item> \<open>Streams\<close> and \<open>Containers\<close> (src/containermanager): the demultiplexer of container
    output over a reader whose calls follow any script (empty reads, and errors that come
    with the last bytes, included), the registry, creation, execution with limits and
    teardown, and the two together: what arrives of the output of an \<open>Execute\<close>, and the
    code and the resources it reports; \<open>Sessions\<close>: several callers at
    once as a step relation, which the operations follow, and its exclusion.
  \<^item> \<open>Bot\<close> (src/telegram): messages, buttons and their callbacks.
  \<^item> \<open>Dbase\<close> (src/dbase): connection, transactions (locale \<open>tx_handle\<close>) and migrations:
    a file is one transaction whatever the driver answers, read off a driver that records
    its calls, and a second run applies nothing under the laws.
  \<^item> \<open>Downloads\<close> (src/www, src/cache/dbcache): downloads, the retry goroutine, and the
    cache over files and a table, served by what a call or the callback of a retry left
    in the index.
  \<^item> \<open>FactorialService\<close> (src/examples/factorial) and \<open>EndToEnd\<close>: the example program, from
    \<open>main\<close> and its configuration file to the answer of one request.
  \<^item> \<open>Utilities\<close> (src/mailer, src/clock, src/metrics, src/sentry): locale \<open>clock_interface\<close>,
    interpreted on the fake and the real clock.

  \<^bold>\<open>Loops and fuel.\<close>  Loops are structural recursion or functions with a measure.  Two
  loops of the source may run for ever and are partial functions with the value \<open>None\<close> for
  that: the replacement of environment variables (\<open>Conftool.ParseEnvVars\<close>, shown to end
  and shown to loop under stated conditions) and the search for a free random name
  (\<open>Files.random_name\<close>, shown to end when the attempts draw more names than the file
  system has nodes, and to run for ever below a regular file).  Only the walk over
  migrations has fuel: one more than the length of the longest path on the disk, which
  every level of directories lengthens by one; \<open>Dbase.Migrate_returns\<close> shows that it is
  never used up.

  \<^bold>\<open>Not modelled.\<close>  The encodings and protocols of the libraries above; YAML and JSON
  decoding (arguments of the readers); the text of SQL statements, which are opaque apart
  from the laws; \<open>src/dbase/abstract\<close>, an interface whose operations are those of \<open>Dbase\<close>;
  the panics of Prometheus on duplicate metrics of the server; panics of a service's
  session getter, which \<open>Middleware\<close> takes to return; in \<open>conftool\<close> the rounding of
  \<open>float32\<close> fields and the panic on values of kinds that cannot be compared; in
  \<open>net/http\<close> the sniffing of content types and the dropped bodies of \<open>HEAD\<close>; symbolic links.
  Of the Go memory model only that an operation under a mutex, and a single operation on an
  atomic variable, is one step.
  Interfaces and struct tags appear only where the code reads them.

  \<^bold>\<open>Open.\<close>  In \<open>Sessions\<close> the operations are followed when they run without
  interruption, and the steps of several callers interleave between critical sections; a
  trace semantics of whole interleaved \<open>Execute\<close> calls is not given.  The callbacks of
  \<open>telegram\<close> run to completion within one step.
\<close>

end
